theory Spec2Isabelle
  imports Complex_Main "HOL-Library.AList"
begin

section \<open>JavaScript values\<close>

text \<open>
  The scripts \<^verbatim>\<open>scripts/market_sentiment_csv.js\<close> and its directory-walking sibling
  share the functions \<^verbatim>\<open>cleanJsonString\<close>, \<^verbatim>\<open>tryRepairs\<close>, \<^verbatim>\<open>normalizeLabel\<close>,
  \<^verbatim>\<open>normalizeTickerKey\<close>, \<^verbatim>\<open>parseScore\<close> and \<^verbatim>\<open>coerceSentimentShape\<close> word for word.
  They are embedded here over a small model of the JavaScript values they handle.

  A string is the list of its UTF-16 code units. A number is \<open>NaN\<close>, an infinity, or a
  finite value, which is kept as the exact rational it denotes: rounding to binary64 is
  not part of the model, so a decimal numeral such as \<^verbatim>\<open>-0.2\<close> stands for \<open>-1/5\<close>, and the
  two zeros are one value.
\<close>

type_synonym jsstring = "nat list"

definition lit :: "string \<Rightarrow> jsstring" where
  "lit s = map of_char s"

datatype jsnum = NaN | NegInf | Fin rat | PosInf

datatype jsval =
    JUndefined
  | JNull
  | JBool bool
  | JNum jsnum
  | JStr jsstring
  | JArr "jsval list"
  | JObj "(jsstring \<times> jsval) list"

text \<open>The relational operators \<^verbatim>\<open><\<close> and \<^verbatim>\<open><=\<close> on numbers: false whenever an operand is NaN.\<close>

fun num_lt :: "jsnum \<Rightarrow> jsnum \<Rightarrow> bool" where
  "num_lt NaN _ = False"
| "num_lt _ NaN = False"
| "num_lt (Fin a) (Fin b) = (a < b)"
| "num_lt NegInf NegInf = False"
| "num_lt NegInf _ = True"
| "num_lt PosInf _ = False"
| "num_lt (Fin a) NegInf = False"
| "num_lt (Fin a) PosInf = True"

fun num_le :: "jsnum \<Rightarrow> jsnum \<Rightarrow> bool" where
  "num_le NaN _ = False"
| "num_le _ NaN = False"
| "num_le (Fin a) (Fin b) = (a \<le> b)"
| "num_le NegInf _ = True"
| "num_le PosInf PosInf = True"
| "num_le PosInf _ = False"
| "num_le (Fin a) NegInf = False"
| "num_le (Fin a) PosInf = True"

text \<open>\<^verbatim>\<open>n / c\<close> and \<^verbatim>\<open>n * c\<close> for a finite constant \<open>c > 0\<close>.\<close>

fun num_div :: "jsnum \<Rightarrow> rat \<Rightarrow> jsnum" where
  "num_div (Fin a) c = Fin (a / c)"
| "num_div n c = n"

fun num_mul :: "jsnum \<Rightarrow> rat \<Rightarrow> jsnum" where
  "num_mul (Fin a) c = Fin (a * c)"
| "num_mul n c = n"

text \<open>\<^verbatim>\<open>Math.min\<close> and \<^verbatim>\<open>Math.max\<close> of two numbers: NaN if either is.\<close>

definition js_min :: "jsnum \<Rightarrow> jsnum \<Rightarrow> jsnum" where
  "js_min a b = (if a = NaN \<or> b = NaN then NaN else if num_le a b then a else b)"

definition js_max :: "jsnum \<Rightarrow> jsnum \<Rightarrow> jsnum" where
  "js_max a b = (if a = NaN \<or> b = NaN then NaN else if num_le a b then b else a)"

text \<open>\<^verbatim>\<open>typeof v === 'object'\<close> holds of null, arrays and objects.\<close>

fun typeof_object :: "jsval \<Rightarrow> bool" where
  "typeof_object JNull = True"
| "typeof_object (JArr xs) = True"
| "typeof_object (JObj kvs) = True"
| "typeof_object _ = False"

fun typeof_string :: "jsval \<Rightarrow> bool" where
  "typeof_string (JStr s) = True"
| "typeof_string _ = False"

fun typeof_number :: "jsval \<Rightarrow> bool" where
  "typeof_number (JNum n) = True"
| "typeof_number _ = False"

fun isArray :: "jsval \<Rightarrow> bool" where
  "isArray (JArr xs) = True"
| "isArray _ = False"

text \<open>Truthiness, as \<^verbatim>\<open>!v\<close>, \<^verbatim>\<open>a || b\<close> and \<^verbatim>\<open>a && b\<close> test it.\<close>

fun truthy :: "jsval \<Rightarrow> bool" where
  "truthy JUndefined = False"
| "truthy JNull = False"
| "truthy (JBool b) = b"
| "truthy (JNum n) = (n \<noteq> NaN \<and> n \<noteq> Fin 0)"
| "truthy (JStr s) = (s \<noteq> [])"
| "truthy (JArr xs) = True"
| "truthy (JObj kvs) = True"

text \<open>
  Reading a property \<^verbatim>\<open>v.name\<close>. The program reads only \<^verbatim>\<open>label\<close>, \<^verbatim>\<open>score\<close>,
  \<^verbatim>\<open>summary\<close>, \<^verbatim>\<open>reason\<close>, \<^verbatim>\<open>explanation\<close>, \<^verbatim>\<open>tickers\<close>, \<^verbatim>\<open>ticker\<close>, \<^verbatim>\<open>symbol\<close> and
  \<^verbatim>\<open>code\<close>, none of which is inherited from \<^verbatim>\<open>Object.prototype\<close> or \<^verbatim>\<open>Array.prototype\<close>:
  an object answers with its own property, everything else with \<^verbatim>\<open>undefined\<close>. (The
  program never reads a property of \<^verbatim>\<open>null\<close> or \<^verbatim>\<open>undefined\<close>.)
\<close>

fun getProp :: "jsval \<Rightarrow> jsstring \<Rightarrow> jsval" where
  "getProp (JObj kvs) k = (case map_of kvs k of Some v \<Rightarrow> v | None \<Rightarrow> JUndefined)"
| "getProp _ k = JUndefined"

section \<open>Strings\<close>

text \<open>
  White space as \<^verbatim>\<open>String.prototype.trim\<close>, the regular expression class \<^verbatim>\<open>\s\<close> and
  \<^verbatim>\<open>Number\<close> understand it: the WhiteSpace and LineTerminator code points.
\<close>

definition is_ws :: "nat \<Rightarrow> bool" where
  "is_ws c \<longleftrightarrow>
     c = 0x09 \<or> c = 0x0A \<or> c = 0x0B \<or> c = 0x0C \<or> c = 0x0D \<or> c = 0x20 \<or> c = 0xA0
     \<or> c = 0x1680 \<or> (0x2000 \<le> c \<and> c \<le> 0x200A) \<or> c = 0x2028 \<or> c = 0x2029
     \<or> c = 0x202F \<or> c = 0x205F \<or> c = 0x3000 \<or> c = 0xFEFF"

definition trim :: "jsstring \<Rightarrow> jsstring" where
  "trim s = rev (dropWhile is_ws (rev (dropWhile is_ws s)))"

definition endsWith :: "jsstring \<Rightarrow> jsstring \<Rightarrow> bool" where
  "endsWith s x \<longleftrightarrow> length x \<le> length s \<and> drop (length s - length x) s = x"

definition startsWith :: "jsstring \<Rightarrow> jsstring \<Rightarrow> bool" where
  "startsWith s x \<longleftrightarrow> take (length x) s = x"

text \<open>\<^verbatim>\<open>s.includes(x)\<close>: \<open>x\<close> occurs in \<open>s\<close> as a contiguous block.\<close>

fun str_includes :: "jsstring \<Rightarrow> jsstring \<Rightarrow> bool" where
  "str_includes [] x = (x = [])"
| "str_includes (c # cs) x = (startsWith (c # cs) x \<or> str_includes cs x)"

text \<open>
  Case conversion. \<^verbatim>\<open>toLowerCase\<close> is modelled on the Basic Latin letters; no code unit
  outside ASCII lower-cases to a letter of the label table below (the Kelvin sign gives
  \<^verbatim>\<open>k\<close>, which no table key contains), so \<open>normalizeLabel\<close> is not affected by leaving
  the others alone. \<^verbatim>\<open>toUpperCase\<close> also carries the code points whose upper-case form
  consists of ASCII letters only (sharp s, dotless i, long s and the Latin ligatures
  U+FB00 to U+FB06); the upper-case form of every other non-ASCII code unit keeps a
  non-ASCII unit, which is all \<open>normalizeTickerKey\<close> depends on, and is left as it is.
\<close>

definition lower_unit :: "nat \<Rightarrow> nat" where
  "lower_unit c = (if 0x41 \<le> c \<and> c \<le> 0x5A then c + 0x20 else c)"

definition toLowerCase :: "jsstring \<Rightarrow> jsstring" where
  "toLowerCase s = map lower_unit s"

definition upper_unit :: "nat \<Rightarrow> jsstring" where
  "upper_unit c =
     (if 0x61 \<le> c \<and> c \<le> 0x7A then [c - 0x20]
      else if c = 0xDF then lit ''SS''
      else if c = 0x131 then lit ''I''
      else if c = 0x17F then lit ''S''
      else if c = 0xFB00 then lit ''FF''
      else if c = 0xFB01 then lit ''FI''
      else if c = 0xFB02 then lit ''FL''
      else if c = 0xFB03 then lit ''FFI''
      else if c = 0xFB04 then lit ''FFL''
      else if c = 0xFB05 \<or> c = 0xFB06 then lit ''ST''
      else [c])"

definition toUpperCase :: "jsstring \<Rightarrow> jsstring" where
  "toUpperCase s = concat (map upper_unit s)"

section \<open>Numbers from strings\<close>

text \<open>
  \<^verbatim>\<open>Number(s)\<close> for a string, after the StringToNumber grammar of ECMAScript: white
  space is stripped; the empty string is 0; a binary, octal or hexadecimal integer
  literal (no sign) or a decimal literal with optional sign, fraction and exponent, or
  a signed \<^verbatim>\<open>Infinity\<close>, is its value; anything else is NaN.
\<close>

definition is_digit :: "nat \<Rightarrow> bool" where
  "is_digit c \<longleftrightarrow> 0x30 \<le> c \<and> c \<le> 0x39"

definition digit_of :: "nat \<Rightarrow> nat option" where
  "digit_of c =
     (if 0x30 \<le> c \<and> c \<le> 0x39 then Some (c - 0x30)
      else if 0x61 \<le> c \<and> c \<le> 0x66 then Some (c - 0x61 + 10)
      else if 0x41 \<le> c \<and> c \<le> 0x46 then Some (c - 0x41 + 10)
      else None)"

definition is_radix_digit :: "nat \<Rightarrow> nat \<Rightarrow> bool" where
  "is_radix_digit b c \<longleftrightarrow> (case digit_of c of Some d \<Rightarrow> d < b | None \<Rightarrow> False)"

definition radix_val :: "nat \<Rightarrow> jsstring \<Rightarrow> nat" where
  "radix_val b ds = foldl (\<lambda>a c. b * a + (case digit_of c of Some d \<Rightarrow> d | None \<Rightarrow> 0)) 0 ds"

definition radix_literal :: "nat \<Rightarrow> jsstring \<Rightarrow> nat option" where
  "radix_literal b ds = (if ds \<noteq> [] \<and> list_all (is_radix_digit b) ds then Some (radix_val b ds) else None)"

definition non_decimal :: "jsstring \<Rightarrow> nat option" where
  "non_decimal s =
     (case s of
        c0 # c1 # ds \<Rightarrow>
          if c0 \<noteq> 0x30 then None
          else if c1 = 0x78 \<or> c1 = 0x58 then radix_literal 16 ds
          else if c1 = 0x6F \<or> c1 = 0x4F then radix_literal 8 ds
          else if c1 = 0x62 \<or> c1 = 0x42 then radix_literal 2 ds
          else None
      | _ \<Rightarrow> None)"

definition pow10 :: "int \<Rightarrow> rat" where
  "pow10 e = (if 0 \<le> e then 10 ^ nat e else 1 / 10 ^ nat (- e))"

text \<open>An optional sign: whether it is a minus, and the rest.\<close>

definition take_sign :: "jsstring \<Rightarrow> bool \<times> jsstring" where
  "take_sign s =
     (case s of
        [] \<Rightarrow> (False, [])
      | c # t \<Rightarrow> if c = 0x2D then (True, t) else if c = 0x2B then (False, t) else (False, s))"

text \<open>The exponent part, which must reach the end of the string; absent, it is 0.\<close>

definition exponent_part :: "jsstring \<Rightarrow> int option" where
  "exponent_part r =
     (case r of
        [] \<Rightarrow> Some 0
      | c # t \<Rightarrow>
          if c = 0x65 \<or> c = 0x45 then
            (let (neg, ds) = take_sign t in
             if ds \<noteq> [] \<and> list_all is_digit ds
             then Some (if neg then - int (radix_val 10 ds) else int (radix_val 10 ds))
             else None)
          else None)"

definition unsigned_decimal :: "jsstring \<Rightarrow> rat option" where
  "unsigned_decimal s =
     (let ip = takeWhile is_digit s;
          r1 = dropWhile is_digit s;
          dot = (r1 \<noteq> [] \<and> hd r1 = 0x2E);
          fp = (if dot then takeWhile is_digit (tl r1) else []);
          r2 = (if dot then dropWhile is_digit (tl r1) else r1)
      in if ip = [] \<and> fp = [] then None
         else (case exponent_part r2 of
                 None \<Rightarrow> None
               | Some e \<Rightarrow> Some (of_nat (radix_val 10 (ip @ fp)) * pow10 (e - int (length fp)))))"

definition str_decimal :: "jsstring \<Rightarrow> jsnum" where
  "str_decimal s =
     (let (neg, u) = take_sign s in
      if u = lit ''Infinity'' then (if neg then NegInf else PosInf)
      else (case unsigned_decimal u of
              None \<Rightarrow> NaN
            | Some q \<Rightarrow> Fin (if neg then - q else q)))"

definition js_Number :: "jsstring \<Rightarrow> jsnum" where
  "js_Number s =
     (let t = trim s in
      if t = [] then Fin 0
      else (case non_decimal t of
              Some n \<Rightarrow> Fin (of_nat n)
            | None \<Rightarrow> str_decimal t))"

section \<open>Texts of values\<close>

text \<open>
  \<^verbatim>\<open>String(v)\<close>, which returns a text or throws. An array is the texts of its elements
  joined by commas, with null and undefined elements empty, and throws when an element
  does. An object goes through \<^verbatim>\<open>toString\<close> and then \<^verbatim>\<open>valueOf\<close>: the values at hand
  come from \<^verbatim>\<open>JSON.parse\<close>, so an own property \<^verbatim>\<open>toString\<close> is never a function and
  hides \<^verbatim>\<open>Object.prototype.toString\<close>, and \<^verbatim>\<open>valueOf\<close>, own or inherited, yields no
  primitive: the conversion throws a \<^verbatim>\<open>TypeError\<close>. An object without an own
  \<^verbatim>\<open>toString\<close> is \<^verbatim>\<open>[object Object]\<close>. The text of a finite number is given with up to
  20 fractional digits and without the exponent notation that JavaScript uses for very
  large and very small magnitudes: the program looks such a text up in the label table,
  where a text with a digit in it is never a key, or searches it for \<^verbatim>\<open>invalid\<close>,
  \<^verbatim>\<open>response_format\<close> and \<^verbatim>\<open>rate_limit\<close>, which the text of no number contains, and
  shows it in an error summary.
\<close>

fun nat_digits :: "nat \<Rightarrow> jsstring" where
  "nat_digits n = (if n < 10 then [0x30 + n] else nat_digits (n div 10) @ [0x30 + n mod 10])"

fun frac_digits :: "nat \<Rightarrow> rat \<Rightarrow> jsstring" where
  "frac_digits 0 f = []"
| "frac_digits (Suc k) f =
     (if f = 0 then []
      else (let d = nat \<lfloor>f * 10\<rfloor> in (0x30 + d) # frac_digits k (f * 10 - of_nat d)))"

fun number_text :: "jsnum \<Rightarrow> jsstring" where
  "number_text NaN = lit ''NaN''"
| "number_text PosInf = lit ''Infinity''"
| "number_text NegInf = lit ''-Infinity''"
| "number_text (Fin q) =
     (let a = \<bar>q\<bar>; ip = nat \<lfloor>a\<rfloor>; f = a - of_nat ip
      in (if q < 0 then [0x2D] else []) @ nat_digits ip
         @ (if f = 0 then [] else 0x2E # frac_digits 20 f))"

fun join_comma :: "jsstring list \<Rightarrow> jsstring" where
  "join_comma [] = []"
| "join_comma [x] = x"
| "join_comma (x # y # ys) = x @ 0x2C # join_comma (y # ys)"

text \<open>
  What a conversion throws: a \<^verbatim>\<open>TypeError\<close> with its message, in the wording of Node.
\<close>

datatype js_error = TypeError jsstring

definition cannot_convert :: js_error where
  "cannot_convert = TypeError (lit ''Cannot convert object to primitive value'')"

fun js_String :: "jsval \<Rightarrow> js_error + jsstring"
  and element_texts :: "jsval list \<Rightarrow> js_error + jsstring list" where
  "js_String JUndefined = Inr (lit ''undefined'')"
| "js_String JNull = Inr (lit ''null'')"
| "js_String (JBool b) = Inr (if b then lit ''true'' else lit ''false'')"
| "js_String (JNum n) = Inr (number_text n)"
| "js_String (JStr s) = Inr s"
| "js_String (JArr xs) =
     (case element_texts xs of Inl err \<Rightarrow> Inl err | Inr ts \<Rightarrow> Inr (join_comma ts))"
| "js_String (JObj kvs) =
     (if map_of kvs (lit ''toString'') \<noteq> None then Inl cannot_convert
      else Inr (lit ''[object Object]''))"
| "element_texts [] = Inr []"
| "element_texts (x # xs) =
     (case (if x = JNull \<or> x = JUndefined then Inr [] else js_String x) of
        Inl err \<Rightarrow> Inl err
      | Inr t \<Rightarrow> (case element_texts xs of Inl err \<Rightarrow> Inl err | Inr ts \<Rightarrow> Inr (t # ts)))"

section \<open>The sentiment record\<close>

text \<open>
  The \<^verbatim>\<open>summary\<close> of a record is a value: the coercer stores a string there, the
  \<^verbatim>\<open>catch\<close> block of \<^verbatim>\<open>scoreMarket\<close> whatever it has read from the thrown value.
  The value of a record's \<^verbatim>\<open>label\<close>: the five buckets, the \<^verbatim>\<open>"Error"\<close> of the sentinel
  record, and \<open>ObjectConstructor\<close>. The last is what \<^verbatim>\<open>map[k]\<close> in \<^verbatim>\<open>normalizeLabel\<close>
  answers for the key \<^verbatim>\<open>constructor\<close>: the table is an object literal, so the lookup
  reaches the inherited \<^verbatim>\<open>Object.prototype.constructor\<close>, a function, which is truthy.
\<close>

datatype label =
  VeryBearish | Bearish | Neutral | Bullish | VeryBullish | Error | ObjectConstructor

record ticker =
  tscore :: jsnum
  explanation :: jsstring

record sentiment =
  label :: label
  score :: jsnum
  summary :: jsval
  tickers :: "(jsstring \<times> ticker) list"

section \<open>normalizeLabel, normalizeTickerKey, parseScore\<close>

definition label_table :: "(jsstring \<times> label) list" where
  "label_table =
     [(lit ''verybearish'', VeryBearish),
      (lit ''bearish'', Bearish),
      (lit ''negative'', Bearish),
      (lit ''downbeat'', Bearish),
      (lit ''neutral'', Neutral),
      (lit ''mixed'', Neutral),
      (lit ''balanced'', Neutral),
      (lit ''bullish'', Bullish),
      (lit ''positive'', Bullish),
      (lit ''upbeat'', Bullish),
      (lit ''slightlybullish'', Bullish),
      (lit ''somewhatbullish'', Bullish),
      (lit ''verybullish'', VeryBullish),
      (lit ''verypositive'', VeryBullish),
      (lit ''verynegative'', VeryBearish)]"

text \<open>
  \<^verbatim>\<open>map[k] || null\<close>: an own key of the table, or else a property inherited from
  \<^verbatim>\<open>Object.prototype\<close>. The key \<open>k\<close> is lower-cased and has no underscore, and
  \<^verbatim>\<open>constructor\<close> is the only inherited name of that form.
\<close>

definition table_lookup :: "jsstring \<Rightarrow> label option" where
  "table_lookup k =
     (case map_of label_table k of
        Some l \<Rightarrow> Some l
      | None \<Rightarrow> if k = lit ''constructor'' then Some ObjectConstructor else None)"

text \<open>\<^verbatim>\<open>.replace(/\s+|_/g, '')\<close> removes every white-space unit and every underscore.\<close>

definition strip_ws_underscore :: "jsstring \<Rightarrow> jsstring" where
  "strip_ws_underscore s = filter (\<lambda>c. \<not> is_ws c \<and> c \<noteq> 0x5F) s"

text \<open>\<^verbatim>\<open>normalizeLabel\<close>: it throws when \<^verbatim>\<open>String(label)\<close> does; the result null is \<open>None\<close>.\<close>

definition normalizeLabel :: "jsval \<Rightarrow> js_error + label option" where
  "normalizeLabel l =
     (if \<not> truthy l then Inr None
      else (case js_String l of
              Inl err \<Rightarrow> Inl err
            | Inr s \<Rightarrow> Inr (table_lookup (strip_ws_underscore (toLowerCase s)))))"

text \<open>\<^verbatim>\<open>/^[A-Z0-9]+$/.test(up)\<close>.\<close>

definition is_AZ09 :: "nat \<Rightarrow> bool" where
  "is_AZ09 c \<longleftrightarrow> (0x41 \<le> c \<and> c \<le> 0x5A) \<or> (0x30 \<le> c \<and> c \<le> 0x39)"

definition ticker_shape :: "jsstring \<Rightarrow> bool" where
  "ticker_shape up \<longleftrightarrow> up \<noteq> [] \<and> list_all is_AZ09 up"

definition normalizeTickerKey :: "jsval \<Rightarrow> jsstring option" where
  "normalizeTickerKey k =
     (case k of
        JStr s \<Rightarrow>
          (let up = toUpperCase (trim s)
           in if up = [] \<or> 6 < length up \<or> \<not> ticker_shape up then None else Some up)
      | _ \<Rightarrow> None)"

text \<open>\<^verbatim>\<open>parseScore\<close>; the result \<^verbatim>\<open>undefined\<close> is \<open>None\<close>.\<close>

definition parseScore :: "jsval \<Rightarrow> jsnum option" where
  "parseScore val =
     (case val of
        JNum n \<Rightarrow> Some n
      | JStr v \<Rightarrow>
          (let s0 = trim v;
               percent = endsWith s0 (lit ''%'');
               s = (if percent then butlast s0 else s0);
               n = js_Number s
           in if n = NaN then None
              else if percent then Some (js_max (Fin (- 1)) (js_min (Fin 1) (num_div n 100)))
              else if num_lt (Fin 1) n \<and> num_le n (Fin 100) then Some (num_div n 100)
              else if num_lt n (Fin (- 1)) \<and> num_le (Fin (- 100)) n then Some (num_div n 100)
              else Some n)
      | _ \<Rightarrow> None)"

section \<open>coerceSentimentShape\<close>

text \<open>
  \<^verbatim>\<open>Object.entries\<close> lists the array-index keys first, in ascending numeric order,
  then the other keys in the order they were created.
\<close>

definition is_array_index :: "jsstring \<Rightarrow> bool" where
  "is_array_index k \<longleftrightarrow>
     k \<noteq> [] \<and> list_all is_digit k \<and> (hd k \<noteq> 0x30 \<or> k = [0x30]) \<and> radix_val 10 k < 2 ^ 32 - 1"

definition entries :: "(jsstring \<times> jsval) list \<Rightarrow> (jsstring \<times> jsval) list" where
  "entries kvs =
     sort_key (\<lambda>kv. radix_val 10 (fst kv)) (filter (\<lambda>kv. is_array_index (fst kv)) kvs)
     @ filter (\<lambda>kv. \<not> is_array_index (fst kv)) kvs"

text \<open>\<^verbatim>\<open>a || b\<close> on values.\<close>

definition js_or :: "jsval \<Rightarrow> jsval \<Rightarrow> jsval" where
  "js_or a b = (if truthy a then a else b)"

text \<open>\<^verbatim>\<open>typeof v.explanation === 'string' ? v.explanation : ''\<close>.\<close>

definition explanation_of :: "jsval \<Rightarrow> jsstring" where
  "explanation_of v = (case getProp v (lit ''explanation'') of JStr e \<Rightarrow> e | _ \<Rightarrow> [])"

text \<open>
  The loop over \<^verbatim>\<open>Object.entries(obj.tickers)\<close>; \<open>tk\<close> is the \<^verbatim>\<open>tickers\<close> object built
  so far, and \<open>AList.update\<close> is the assignment \<^verbatim>\<open>tickers[key] = ...\<close>.
\<close>

fun object_tickers ::
  "(jsstring \<times> ticker) list \<Rightarrow> (jsstring \<times> jsval) list \<Rightarrow> (jsstring \<times> ticker) list" where
  "object_tickers tk [] = tk"
| "object_tickers tk ((rawKey, rawVal) # es) =
     (case normalizeTickerKey (JStr rawKey) of
        None \<Rightarrow> object_tickers tk es
      | Some key \<Rightarrow>
          if rawVal = JNull \<or> rawVal = JUndefined then
            object_tickers (AList.update key \<lparr>tscore = Fin 0, explanation = []\<rparr> tk) es
          else if typeof_number rawVal \<or> typeof_string rawVal then
            (case parseScore rawVal of
               None \<Rightarrow> object_tickers tk es
             | Some tScore \<Rightarrow>
                 if tScore = NaN then object_tickers tk es
                 else object_tickers (AList.update key \<lparr>tscore = tScore, explanation = []\<rparr> tk) es)
          else if typeof_object rawVal then
            (case parseScore (getProp rawVal (lit ''score'')) of
               None \<Rightarrow> object_tickers tk es
             | Some tScore \<Rightarrow>
                 if tScore = NaN then object_tickers tk es
                 else object_tickers
                        (AList.update key \<lparr>tscore = tScore, explanation = explanation_of rawVal\<rparr> tk) es)
          else object_tickers tk es)"

text \<open>The loop over the array \<^verbatim>\<open>obj.tickers\<close>.\<close>

fun array_tickers ::
  "(jsstring \<times> ticker) list \<Rightarrow> jsval list \<Rightarrow> (jsstring \<times> ticker) list" where
  "array_tickers tk [] = tk"
| "array_tickers tk (entry # es) =
     (if \<not> truthy entry \<or> \<not> typeof_object entry then array_tickers tk es
      else
        (case (normalizeTickerKey
                 (js_or (js_or (getProp entry (lit ''ticker'')) (getProp entry (lit ''symbol'')))
                        (getProp entry (lit ''code''))),
               parseScore (getProp entry (lit ''score''))) of
           (Some key, Some tScore) \<Rightarrow>
             if tScore = NaN then array_tickers tk es
             else array_tickers
                    (AList.update key \<lparr>tscore = tScore, explanation = explanation_of entry\<rparr> tk) es
         | _ \<Rightarrow> array_tickers tk es))"

definition coerce_tickers :: "jsval \<Rightarrow> (jsstring \<times> ticker) list" where
  "coerce_tickers t =
     (case t of
        JObj kvs \<Rightarrow> object_tickers [] (entries kvs)
      | JArr xs \<Rightarrow> array_tickers [] xs
      | _ \<Rightarrow> [])"

text \<open>The thresholds of lines 165 to 171, applied to a number that is not NaN.\<close>

definition infer_label :: "jsnum \<Rightarrow> label" where
  "infer_label scoreNum =
     (if num_le scoreNum (Fin (- 6 / 10)) then VeryBearish
      else if num_lt scoreNum (Fin (- 2 / 10)) then Bearish
      else if num_le scoreNum (Fin (2 / 10)) then Neutral
      else if num_lt scoreNum (Fin (6 / 10)) then Bullish
      else VeryBullish)"

text \<open>The first of \<^verbatim>\<open>summary\<close>, \<^verbatim>\<open>reason\<close>, \<^verbatim>\<open>explanation\<close> that is a string.\<close>

definition summary_of :: "jsval \<Rightarrow> jsstring option" where
  "summary_of obj =
     (case getProp obj (lit ''summary'') of
        JStr s \<Rightarrow> Some s
      | _ \<Rightarrow> (case getProp obj (lit ''reason'') of
                JStr s \<Rightarrow> Some s
              | _ \<Rightarrow> (case getProp obj (lit ''explanation'') of
                        JStr s \<Rightarrow> Some s
                      | _ \<Rightarrow> None)))"

text \<open>
  \<^verbatim>\<open>coerceSentimentShape\<close>. The call of \<^verbatim>\<open>normalizeLabel\<close> is the first statement after
  the guard and the only one that can throw; the result null is \<open>None\<close>.
\<close>

definition coerceSentimentShape :: "jsval \<Rightarrow> js_error + sentiment option" where
  "coerceSentimentShape obj =
     (if \<not> truthy obj \<or> \<not> typeof_object obj then Inr None
      else
        (case normalizeLabel (getProp obj (lit ''label'')) of
           Inl err \<Rightarrow> Inl err
         | Inr labelNorm \<Rightarrow>
             (let scoreNum = parseScore (getProp obj (lit ''score''));
                  summaryStr = summary_of obj;
                  tks = coerce_tickers (getProp obj (lit ''tickers''));
                  labelNorm2 =
                    (case labelNorm of
                       Some l \<Rightarrow> Some l
                     | None \<Rightarrow>
                         (case scoreNum of
                            Some n \<Rightarrow> if n \<noteq> NaN then Some (infer_label n) else None
                          | None \<Rightarrow> None));
                  summaryStr2 = (case summaryStr of None \<Rightarrow> [] | Some s \<Rightarrow> s)
              in (case (labelNorm2, scoreNum) of
                    (Some l, Some n) \<Rightarrow>
                      if n = NaN then Inr None
                      else Inr (Some \<lparr>label = l, score = n, summary = JStr summaryStr2,
                                       tickers = tks\<rparr>)
                  | _ \<Rightarrow> Inr None))))"

section \<open>JSON.parse\<close>

text \<open>
  \<^verbatim>\<open>JSON.parse\<close> after ECMA-404, in two passes: the text is cut into tokens, and the
  tokens are read by a machine with a stack of the arrays and objects that are still
  open. A number is its exact value; a repeated key keeps its first place and takes the
  last value, as \<^verbatim>\<open>JSON.parse\<close> has it. The limit that an engine puts on the depth of
  nesting is not modelled.
\<close>

datatype token =
    TLBrace | TRBrace | TLBrack | TRBrack | TColon | TComma
  | TString jsstring | TNumber rat | TTrue | TFalse | TNull

definition json_ws :: "nat \<Rightarrow> bool" where
  "json_ws c \<longleftrightarrow> c = 0x20 \<or> c = 0x09 \<or> c = 0x0A \<or> c = 0x0D"

text \<open>The character that a one-letter escape stands for.\<close>

definition escape_char :: "nat \<Rightarrow> nat option" where
  "escape_char e =
     (if e = 0x22 then Some 0x22
      else if e = 0x5C then Some 0x5C
      else if e = 0x2F then Some 0x2F
      else if e = 0x62 then Some 0x08
      else if e = 0x66 then Some 0x0C
      else if e = 0x6E then Some 0x0A
      else if e = 0x72 then Some 0x0D
      else if e = 0x74 then Some 0x09
      else None)"

text \<open>What follows a backslash: the code unit that the escape stands for, and the rest.\<close>

definition lex_escape :: "jsstring \<Rightarrow> (nat \<times> jsstring) option" where
  "lex_escape cs =
     (case cs of
        [] \<Rightarrow> None
      | e # r \<Rightarrow>
          if e = 0x75 then
            (if 4 \<le> length r \<and> list_all (is_radix_digit 16) (take 4 r)
             then Some (radix_val 16 (take 4 r), drop 4 r)
             else None)
          else map_option (\<lambda>x. (x, r)) (escape_char e))"

lemma lex_escape_length: "lex_escape cs = Some (x, r) \<Longrightarrow> length r < length cs"
  by (cases cs) (auto simp: lex_escape_def split: if_splits)

text \<open>
  The rest of a string after its opening quote: its code units, and what follows the
  closing quote.
\<close>

function lex_string :: "jsstring \<Rightarrow> (jsstring \<times> jsstring) option" where
  "lex_string [] = None"
| "lex_string (c # cs) =
     (if c = 0x22 then Some ([], cs)
      else if c = 0x5C then
        (case lex_escape cs of
           None \<Rightarrow> None
         | Some (x, r) \<Rightarrow> map_option (\<lambda>(s, rest). (x # s, rest)) (lex_string r))
      else if c < 0x20 then None
      else map_option (\<lambda>(s, rest). (c # s, rest)) (lex_string cs))"
  by pat_completeness auto
termination
  by (relation "measure length") (auto dest: lex_escape_length)

text \<open>A number at the head of the text: its value, and what follows it.\<close>

definition lex_fraction :: "jsstring \<Rightarrow> (jsstring \<times> jsstring) option" where
  "lex_fraction r =
     (case r of
        [] \<Rightarrow> Some ([], [])
      | c # t \<Rightarrow>
          if c = 0x2E then
            (if takeWhile is_digit t = [] then None
             else Some (takeWhile is_digit t, dropWhile is_digit t))
          else Some ([], r))"

definition lex_exponent :: "jsstring \<Rightarrow> (int \<times> jsstring) option" where
  "lex_exponent r =
     (case r of
        [] \<Rightarrow> Some (0, [])
      | c # t \<Rightarrow>
          if c = 0x65 \<or> c = 0x45 then
            (let (neg, u) = take_sign t; ds = takeWhile is_digit u
             in if ds = [] then None
                else Some (if neg then - int (radix_val 10 ds) else int (radix_val 10 ds),
                           dropWhile is_digit u))
          else Some (0, r))"

definition lex_number :: "jsstring \<Rightarrow> (rat \<times> jsstring) option" where
  "lex_number s =
     (let (neg, s1) = (case s of [] \<Rightarrow> (False, [])
                               | c # t \<Rightarrow> if c = 0x2D then (True, t) else (False, s));
          ip = takeWhile is_digit s1
      in if ip = [] \<or> (1 < length ip \<and> hd ip = 0x30) then None
         else
           (case lex_fraction (dropWhile is_digit s1) of
              None \<Rightarrow> None
            | Some (fp, r2) \<Rightarrow>
                (case lex_exponent r2 of
                   None \<Rightarrow> None
                 | Some (e, r3) \<Rightarrow>
                     Some ((if neg then - 1 else 1) * of_nat (radix_val 10 (ip @ fp))
                             * pow10 (e - int (length fp)), r3))))"

lemma lex_string_length: "lex_string cs = Some (s, rest) \<Longrightarrow> length rest < length cs"
proof (induction cs arbitrary: s rest rule: lex_string.induct)
  case 1
  then show ?case by simp
next
  case (2 c cs)
  consider "c = 0x22" | "c \<noteq> 0x22" "c = 0x5C" | "c \<noteq> 0x22" "c \<noteq> 0x5C"
    by blast
  then show ?case
  proof cases
    case 1
    with 2(3) show ?thesis by simp
  next
    case 2
    with "2.prems" obtain x r s' where e: "lex_escape cs = Some (x, r)"
      and l: "lex_string r = Some (s', rest)"
      by (auto split: option.splits)
    from "2.IH"(1) [OF 2 e refl l] lex_escape_length [OF e] show ?thesis
      by simp
  next
    case 3
    with "2.prems" have c: "\<not> c < 0x20"
      by (auto split: if_splits)
    with 3 "2.prems" obtain s' where l: "lex_string cs = Some (s', rest)"
      by auto
    from "2.IH"(2) [OF 3 c l] show ?thesis
      by simp
  qed
qed

lemma lex_fraction_length: "lex_fraction r = Some (fp, r2) \<Longrightarrow> length r2 \<le> length r"
  using length_dropWhile_le [of is_digit "tl r"]
  by (cases r) (auto simp: lex_fraction_def split: if_splits)

lemma take_sign_length: "take_sign t = (neg, u) \<Longrightarrow> length u \<le> length t"
  by (cases t) (auto simp: take_sign_def split: if_splits)

lemma lex_exponent_length: "lex_exponent r = Some (e, r3) \<Longrightarrow> length r3 \<le> length r"
proof (cases r)
  case Nil
  then show "lex_exponent r = Some (e, r3) \<Longrightarrow> length r3 \<le> length r"
    by (simp add: lex_exponent_def)
next
  case (Cons c t)
  assume a: "lex_exponent r = Some (e, r3)"
  obtain neg u where ts: "take_sign t = (neg, u)"
    by (cases "take_sign t")
  have "length (dropWhile is_digit u) \<le> length t"
    using take_sign_length [OF ts] length_dropWhile_le [of is_digit u] by simp
  then show "length r3 \<le> length r"
    using a Cons ts by (auto simp: lex_exponent_def Let_def split: if_splits)
qed

lemma lex_number_length:
  assumes "lex_number s = Some (q, rest)"
  shows "length rest < length s"
proof -
  define s1 where "s1 = (case s of [] \<Rightarrow> [] | c # t \<Rightarrow> if c = 0x2D then t else s)"
  have s1: "length s1 \<le> length s"
    by (cases s) (simp_all add: s1_def)
  have ns: "(case s of [] \<Rightarrow> (False, []) | c # t \<Rightarrow> if c = 0x2D then (True, t) else (False, s))
            = (s \<noteq> [] \<and> hd s = 0x2D, s1)"
    by (cases s) (simp_all add: s1_def)
  from assms obtain fp r2 e where ip: "takeWhile is_digit s1 \<noteq> []"
    and f: "lex_fraction (dropWhile is_digit s1) = Some (fp, r2)"
    and x: "lex_exponent r2 = Some (e, rest)"
    unfolding lex_number_def ns by (auto simp: Let_def split: if_splits option.splits)
  have "length (dropWhile is_digit s1) < length s1"
    using ip takeWhile_dropWhile_id [of is_digit s1]
    by (metis add.commute length_append length_greater_0_conv less_add_same_cancel2)
  with lex_fraction_length [OF f] lex_exponent_length [OF x] s1 show ?thesis
    by simp
qed

text \<open>The token at the head of a text that does not begin with white space, and the rest.\<close>

definition structural :: "nat \<Rightarrow> token option" where
  "structural c =
     (if c = 0x7B then Some TLBrace
      else if c = 0x7D then Some TRBrace
      else if c = 0x5B then Some TLBrack
      else if c = 0x5D then Some TRBrack
      else if c = 0x3A then Some TColon
      else if c = 0x2C then Some TComma
      else None)"

definition literal_token :: "jsstring \<Rightarrow> (token \<times> jsstring) option" where
  "literal_token s =
     (if startsWith s (lit ''true'') then Some (TTrue, drop 4 s)
      else if startsWith s (lit ''false'') then Some (TFalse, drop 5 s)
      else if startsWith s (lit ''null'') then Some (TNull, drop 4 s)
      else None)"

definition next_token :: "jsstring \<Rightarrow> (token \<times> jsstring) option" where
  "next_token s =
     (case s of
        [] \<Rightarrow> None
      | c # cs \<Rightarrow>
          (case structural c of
             Some t \<Rightarrow> Some (t, cs)
           | None \<Rightarrow>
               if c = 0x22 then map_option (\<lambda>(str, rest). (TString str, rest)) (lex_string cs)
               else if c = 0x2D \<or> is_digit c
                 then map_option (\<lambda>(q, rest). (TNumber q, rest)) (lex_number s)
               else literal_token s))"

lemma next_token_length:
  assumes "next_token s = Some (t, rest)"
  shows "length rest < length s"
proof (cases s)
  case Nil
  with assms show ?thesis
    by (simp add: next_token_def)
next
  case (Cons c cs)
  show ?thesis
  proof (cases "structural c")
    case (Some t')
    with assms Cons show ?thesis
      by (simp add: next_token_def)
  next
    case None
    consider "c = 0x22" | "c \<noteq> 0x22" "c = 0x2D \<or> is_digit c"
      | "c \<noteq> 0x22" "\<not> (c = 0x2D \<or> is_digit c)"
      by blast
    then show ?thesis
    proof cases
      case 1
      with assms Cons None obtain str where "lex_string cs = Some (str, rest)"
        by (auto simp: next_token_def)
      from lex_string_length [OF this] Cons show ?thesis
        by simp
    next
      case 2
      with assms Cons None obtain q where "lex_number s = Some (q, rest)"
        by (auto simp: next_token_def)
      from lex_number_length [OF this] show ?thesis .
    next
      case 3
      with assms Cons None have "literal_token s = Some (t, rest)"
        by (simp add: next_token_def)
      then have "rest = drop 4 s \<or> rest = drop 5 s"
        by (auto simp: literal_token_def split: if_splits)
      with Cons show ?thesis
        by auto
    qed
  qed
qed

function json_lex :: "jsstring \<Rightarrow> token list option" where
  "json_lex [] = Some []"
| "json_lex (c # cs) =
     (if json_ws c then json_lex cs
      else (case next_token (c # cs) of
              None \<Rightarrow> None
            | Some (t, rest) \<Rightarrow> map_option ((#) t) (json_lex rest)))"
  by pat_completeness auto
termination
  by (relation "measure length") (auto dest: next_token_length)

text \<open>
  The machine. A frame is an open array with its elements so far, an open object with
  its members so far, or an open object with a key that waits for its value.
\<close>

datatype frame =
    FArr "jsval list"
  | FObj "(jsstring \<times> jsval) list"
  | FKey "(jsstring \<times> jsval) list" jsstring

datatype pstate =
    PValue
  | PArrStart
  | PObjStart
  | PKey
  | PColon
  | PAfter
  | PDone jsval

text \<open>A value is complete: it is the result, an element, or the value of the waiting key.\<close>

fun close_value :: "jsval \<Rightarrow> frame list \<Rightarrow> (pstate \<times> frame list) option" where
  "close_value v [] = Some (PDone v, [])"
| "close_value v (FArr xs # st) = Some (PAfter, FArr (xs @ [v]) # st)"
| "close_value v (FKey kvs k # st) = Some (PAfter, FObj (AList.update k v kvs) # st)"
| "close_value v (FObj kvs # st) = None"

fun open_value :: "token \<Rightarrow> frame list \<Rightarrow> (pstate \<times> frame list) option" where
  "open_value (TString s) st = close_value (JStr s) st"
| "open_value (TNumber q) st = close_value (JNum (Fin q)) st"
| "open_value TTrue st = close_value (JBool True) st"
| "open_value TFalse st = close_value (JBool False) st"
| "open_value TNull st = close_value JNull st"
| "open_value TLBrack st = Some (PArrStart, FArr [] # st)"
| "open_value TLBrace st = Some (PObjStart, FObj [] # st)"
| "open_value _ st = None"

fun parse_step :: "pstate \<Rightarrow> frame list \<Rightarrow> token \<Rightarrow> (pstate \<times> frame list) option" where
  "parse_step PValue st t = open_value t st"
| "parse_step PArrStart (FArr xs # st) TRBrack = close_value (JArr xs) st"
| "parse_step PArrStart st t = open_value t st"
| "parse_step PObjStart (FObj kvs # st) TRBrace = close_value (JObj kvs) st"
| "parse_step PObjStart (FObj kvs # st) (TString k) = Some (PColon, FKey kvs k # st)"
| "parse_step PKey (FObj kvs # st) (TString k) = Some (PColon, FKey kvs k # st)"
| "parse_step PColon st TColon = Some (PValue, st)"
| "parse_step PAfter (FArr xs # st) TComma = Some (PValue, FArr xs # st)"
| "parse_step PAfter (FArr xs # st) TRBrack = close_value (JArr xs) st"
| "parse_step PAfter (FObj kvs # st) TComma = Some (PKey, FObj kvs # st)"
| "parse_step PAfter (FObj kvs # st) TRBrace = close_value (JObj kvs) st"
| "parse_step _ _ _ = None"

fun parse_tokens :: "pstate \<Rightarrow> frame list \<Rightarrow> token list \<Rightarrow> jsval option" where
  "parse_tokens p st [] = (case p of PDone v \<Rightarrow> Some v | _ \<Rightarrow> None)"
| "parse_tokens p st (t # ts) =
     (case parse_step p st t of
        None \<Rightarrow> None
      | Some (p', st') \<Rightarrow> parse_tokens p' st' ts)"

text \<open>\<^verbatim>\<open>JSON.parse(s)\<close>, with \<open>None\<close> for the SyntaxError.\<close>

definition json_parse :: "jsstring \<Rightarrow> jsval option" where
  "json_parse s = (case json_lex s of None \<Rightarrow> None | Some ts \<Rightarrow> parse_tokens PValue [] ts)"

definition safeParseJson :: "jsstring \<Rightarrow> jsval" where
  "safeParseJson s = (case json_parse s of Some v \<Rightarrow> v | None \<Rightarrow> JNull)"

section \<open>cleanJsonString and tryRepairs\<close>

text \<open>
  The three replacements of line 62 remove a leading \<^verbatim>\<open>```json\<close> (in any case) or
  \<^verbatim>\<open>```\<close> with the white space after it, and a closing \<^verbatim>\<open>```\<close> that only white
  space follows. A back-tick is not white space, so \<^verbatim>\<open>/```\s*$/\<close> can only match
  the last three units before the trailing white space.
\<close>

definition strip_fence_json :: "jsstring \<Rightarrow> jsstring" where
  "strip_fence_json s =
     (if startsWith s (lit ''```'') \<and> toLowerCase (take 4 (drop 3 s)) = lit ''json''
      then dropWhile is_ws (drop 7 s) else s)"

definition strip_fence_open :: "jsstring \<Rightarrow> jsstring" where
  "strip_fence_open s = (if startsWith s (lit ''```'') then dropWhile is_ws (drop 3 s) else s)"

definition strip_fence_close :: "jsstring \<Rightarrow> jsstring" where
  "strip_fence_close s =
     (let body = rev (dropWhile is_ws (rev s))
      in if endsWith body (lit ''```'') then take (length body - 3) body else s)"

definition straighten_quote :: "nat \<Rightarrow> nat" where
  "straighten_quote c =
     (if c = 0x201C \<or> c = 0x201D then 0x22
      else if c = 0x2018 \<or> c = 0x2019 then 0x27
      else c)"

definition cleanJsonString :: "jsstring \<Rightarrow> jsstring" where
  "cleanJsonString raw =
     (if raw = [] then []
      else map straighten_quote
             (trim (strip_fence_close (strip_fence_open (strip_fence_json (trim raw))))))"

text \<open>\<^verbatim>\<open>t.replace(/,(\s*[}\]])/g, '$1')\<close>: a comma goes when a closing bracket follows it.\<close>

definition before_close :: "jsstring \<Rightarrow> bool" where
  "before_close cs =
     (case dropWhile is_ws cs of [] \<Rightarrow> False | d # r \<Rightarrow> d = 0x7D \<or> d = 0x5D)"

fun strip_trailing_commas :: "jsstring \<Rightarrow> jsstring" where
  "strip_trailing_commas [] = []"
| "strip_trailing_commas (c # cs) =
     (if c = 0x2C \<and> before_close cs then strip_trailing_commas cs
      else c # strip_trailing_commas cs)"

text \<open>
  \<^verbatim>\<open>t.replace(/'([^']*)'/g, '"$1"')\<close>: the single quotes are taken in pairs from the
  left, and each pair becomes a pair of double quotes.
\<close>

function requote :: "jsstring \<Rightarrow> jsstring" where
  "requote [] = []"
| "requote (c # cs) =
     (if c = 0x27 then
        (if 0x27 \<in> set cs
         then 0x22 # takeWhile (\<lambda>d. d \<noteq> 0x27) cs
                @ 0x22 # requote (tl (dropWhile (\<lambda>d. d \<noteq> 0x27) cs))
         else c # cs)
      else c # requote cs)"
  by pat_completeness auto
termination
proof (relation "measure length")
  fix c :: nat and cs :: "nat list"
  have "length (tl (dropWhile (\<lambda>d. d \<noteq> 0x27) cs)) \<le> length cs"
    using length_dropWhile_le [of "\<lambda>d. d \<noteq> 0x27" cs] by simp
  then show "(tl (dropWhile (\<lambda>d. d \<noteq> 0x27) cs), c # cs) \<in> measure length"
    by simp
qed simp_all

definition tryRepairs :: "jsstring \<Rightarrow> jsstring" where
  "tryRepairs s =
     (let t = strip_trailing_commas s
      in if 0x22 \<notin> set t \<and> 0x27 \<in> set t then requote t else t)"

text \<open>
  \<^verbatim>\<open>cleaned.match(/\{[\s\S]*\}/)\<close>: from the first opening brace to the last closing
  brace, if one comes after it.
\<close>

definition brace_match :: "jsstring \<Rightarrow> jsstring option" where
  "brace_match s =
     (let a = dropWhile (\<lambda>c. c \<noteq> 0x7B) s
      in if 0x7D \<in> set a then Some (rev (dropWhile (\<lambda>c. c \<noteq> 0x7D) (rev a))) else None)"

section \<open>From the model's text to a record\<close>

text \<open>
  Lines 194 to 207 of \<^verbatim>\<open>scoreMarket\<close>: the text is cleaned, parsed and coerced; when
  that gives no record, the brace match and the repairs are applied to the cleaned text
  and the outcome is parsed and coerced again. \<open>extract_result\<close> is the variable
  \<^verbatim>\<open>result\<close> after these lines, or what they throw, and \<open>extract_parsed\<close> is the
  variable \<^verbatim>\<open>parsed\<close> when they are left.
\<close>

definition salvage :: "jsstring \<Rightarrow> jsstring" where
  "salvage cleaned = tryRepairs (case brace_match cleaned of Some m \<Rightarrow> m | None \<Rightarrow> cleaned)"

definition extract_parsed :: "jsstring \<Rightarrow> jsval" where
  "extract_parsed raw =
     (let cleaned = cleanJsonString raw; parsed = safeParseJson cleaned
      in case coerceSentimentShape parsed of
           Inr None \<Rightarrow> safeParseJson (salvage cleaned)
         | _ \<Rightarrow> parsed)"

definition extract_result :: "jsstring \<Rightarrow> js_error + sentiment option" where
  "extract_result raw =
     (let cleaned = cleanJsonString raw
      in case coerceSentimentShape (safeParseJson cleaned) of
           Inl err \<Rightarrow> Inl err
         | Inr (Some result) \<Rightarrow> Inr (Some result)
         | Inr None \<Rightarrow> coerceSentimentShape (safeParseJson (salvage cleaned)))"

section \<open>scoreMarket\<close>

text \<open>
  The oracle is the call \<^verbatim>\<open>anthropic.messages.create\<close>. A call either answers with a
  message, of which the program reads the list of content blocks, each with its
  \<^verbatim>\<open>type\<close> and, when it has one, its \<^verbatim>\<open>text\<close>; or it throws. Of a thrown value the
  program reads \<^verbatim>\<open>e.error.type\<close>, \<^verbatim>\<open>e.error.message\<close>, \<^verbatim>\<open>e.name\<close>, \<^verbatim>\<open>e.message\<close>,
  \<^verbatim>\<open>String(e)\<close>, \<^verbatim>\<open>e.status\<close> and the \<^verbatim>\<open>retry-after\<close> header of \<^verbatim>\<open>e.response\<close>. The
  first four are values of any type, \<^verbatim>\<open>undefined\<close> when absent: \<^verbatim>\<open>e.error\<close> is the body
  of the response as the SDK has parsed it, and the program reads them without a test
  of their type. \<open>as_string\<close> is the text that \<^verbatim>\<open>String(e)\<close> returns, \<open>status\<close> is
  \<^verbatim>\<open>e.status\<close> when that is a number, and \<open>retry_after\<close> is the header when there is
  one. An oracle is a function from the prompt and the number of calls made before to
  the outcome of the call; the calls and the sleeps of a run are recorded in a trace.
  What the scripts print when the environment variable \<^verbatim>\<open>DEBUG_PROMPT\<close> is \<^verbatim>\<open>1\<close> is
  left out: the model is of a run without it.
\<close>

record content_block =
  block_type :: jsstring
  block_text :: "jsstring option"

record thrown =
  error_type :: jsval
  error_message :: jsval
  name :: jsval
  message :: jsval
  as_string :: jsstring
  status :: "int option"
  retry_after :: "jsstring option"

datatype outcome = Reply "content_block list" | Throw thrown

datatype event = Request | Sleep jsnum

type_synonym completion = "jsstring \<Rightarrow> nat \<Rightarrow> outcome"

text \<open>\<^verbatim>\<open>buildMarketPrompt\<close>, with \<^verbatim>\<open>MAX_TEXT_CHARS\<close> as a parameter.\<close>

definition prompt_head :: jsstring where
  "prompt_head =
     lit ''Rate the overall stock market mood expressed by the following text. ''
     @ lit ''Also extract any specific stock tickers mentioned and, for each, assign a score ''
     @ lit ''(-1..1) and a short explanation. Return STRICT JSON ONLY with keys: label ''
     @ lit ''(VeryBearish|Bearish|Neutral|Bullish|VeryBullish), score (-1..1), summary ''
     @ lit ''(1-2 sentences), tickers (object mapping TICKER-> { score, explanation }). ''
     @ lit ''Use double quotes for all keys and strings. If no tickers, return an empty ''
     @ lit ''object for tickers. Return exactly one JSON object and nothing else.''
     @ [0x0A, 0x0A] @ lit ''TEXT:'' @ [0x0A]"

definition buildMarketPrompt :: "nat \<Rightarrow> jsstring \<Rightarrow> jsstring" where
  "buildMarketPrompt MAX_TEXT_CHARS text = prompt_head @ take MAX_TEXT_CHARS (trim text)"

text \<open>
  Lines 191 and 192: the first block of type \<^verbatim>\<open>text\<close>, or else the first block, and
  its text; a missing text is cleaned to the empty string just as the empty string is.
\<close>

definition raw_text :: "content_block list \<Rightarrow> jsstring" where
  "raw_text content =
     (case (case find (\<lambda>b. block_type b = lit ''text'') content of
              Some b \<Rightarrow> Some b
            | None \<Rightarrow> (case content of [] \<Rightarrow> None | b # bs \<Rightarrow> Some b)) of
        None \<Rightarrow> []
      | Some block \<Rightarrow> (case block_text block of Some t \<Rightarrow> t | None \<Rightarrow> []))"

definition sentinel :: "jsval \<Rightarrow> sentiment" where
  "sentinel msg = \<lparr>label = Error, score = Fin 0, summary = msg, tickers = []\<rparr>"

text \<open>
  An error object as the \<^verbatim>\<open>catch\<close> block reads it: \<^verbatim>\<open>new Error(m)\<close>, and a
  \<^verbatim>\<open>TypeError\<close> that a conversion or a call has thrown. Neither has an \<^verbatim>\<open>error\<close>, a
  \<^verbatim>\<open>status\<close> or a \<^verbatim>\<open>response\<close>; \<^verbatim>\<open>String(e)\<close> is the name, a colon and the message, or
  one of the two alone when the other is empty.
\<close>

definition error_object :: "jsstring \<Rightarrow> jsstring \<Rightarrow> thrown" where
  "error_object nm m =
     \<lparr>error_type = JUndefined, error_message = JUndefined, name = JStr nm, message = JStr m,
      as_string = (if nm = [] then m else if m = [] then nm else nm @ lit '': '' @ m),
      status = None, retry_after = None\<rparr>"

fun thrown_of :: "js_error \<Rightarrow> thrown" where
  "thrown_of (TypeError m) = error_object (lit ''TypeError'') m"

text \<open>The value of \<^verbatim>\<open>new Error("Model did not return valid JSON sentiment")\<close>.\<close>

definition invalid_json_error :: thrown where
  "invalid_json_error = error_object (lit ''Error'') (lit ''Model did not return valid JSON sentiment'')"

text \<open>
  \<^verbatim>\<open>Number(header) * 1000 || (2000 * (attempt + 1))\<close>; a missing header is null or
  undefined, whose product with 1000 is 0 or NaN.
\<close>

definition retryAfterMs :: "thrown \<Rightarrow> nat \<Rightarrow> jsnum" where
  "retryAfterMs e attempt =
     (let ms = (case retry_after e of
                  Some h \<Rightarrow> num_mul (js_Number h) 1000
                | None \<Rightarrow> NaN)
      in if truthy (JNum ms) then ms else Fin (2000 * (of_nat attempt + 1)))"

text \<open>
  The outcome of one turn of the loop: a record to return, a sleep before the next turn,
  or an error that leaves the \<^verbatim>\<open>catch\<close> block, with which the promise of
  \<^verbatim>\<open>scoreMarket\<close> is rejected.
\<close>

datatype turn = Return sentiment | Retry jsnum | Raise js_error

text \<open>
  \<^verbatim>\<open>msg.includes("rate_limit")\<close> on a value. A string has \<^verbatim>\<open>String.prototype.includes\<close>
  and an array has \<^verbatim>\<open>Array.prototype.includes\<close>, which looks for an element equal to the
  argument. A number, a boolean and an object have no method of that name (an own
  property \<^verbatim>\<open>includes\<close> of a parsed object is no function): the call throws a
  \<^verbatim>\<open>TypeError\<close>. So does reading a property of null or undefined.
\<close>

definition includes_method :: "jsval \<Rightarrow> jsstring \<Rightarrow> js_error + bool" where
  "includes_method msg x =
     (case msg of
        JStr s \<Rightarrow> Inr (str_includes s x)
      | JArr xs \<Rightarrow> Inr (JStr x \<in> set xs)
      | JUndefined \<Rightarrow>
          Inl (TypeError (lit ''Cannot read properties of undefined (reading '' @ [0x27]
                          @ lit ''includes'' @ [0x27] @ lit '')''))
      | JNull \<Rightarrow>
          Inl (TypeError (lit ''Cannot read properties of null (reading '' @ [0x27]
                          @ lit ''includes'' @ [0x27] @ lit '')''))
      | _ \<Rightarrow> Inl (TypeError (lit ''msg.includes is not a function'')))"

text \<open>
  The \<^verbatim>\<open>catch\<close> block of \<^verbatim>\<open>scripts/market_sentiment_csv.js\<close>, lines 211 to 222;
  \<open>error_msg\<close> is \<^verbatim>\<open>e?.error?.type || e?.message || String(e)\<close>.
\<close>

definition error_msg :: "thrown \<Rightarrow> jsval" where
  "error_msg e = js_or (js_or (error_type e) (message e)) (JStr (as_string e))"

definition handle_error :: "thrown \<Rightarrow> nat \<Rightarrow> turn" where
  "handle_error e attempt =
     (let msg = error_msg e
      in case includes_method msg (lit ''rate_limit'') of
           Inl err \<Rightarrow> Raise err
         | Inr found \<Rightarrow>
             if found \<or> status e = Some 429 then Retry (retryAfterMs e attempt)
             else Return (sentinel msg))"

text \<open>
  The \<^verbatim>\<open>try\<close> block after the call has answered, lines 191 to 210: a record to return,
  or the value that the \<^verbatim>\<open>catch\<close> block receives.
\<close>

definition handle_reply :: "content_block list \<Rightarrow> thrown + sentiment" where
  "handle_reply content =
     (case extract_result (raw_text content) of
        Inl err \<Rightarrow> Inl (thrown_of err)
      | Inr (Some result) \<Rightarrow> Inr result
      | Inr None \<Rightarrow> Inl invalid_json_error)"

text \<open>
  The loop of \<^verbatim>\<open>scoreMarket\<close>; \<open>tr\<close> is the trace so far. The result is the record that
  the promise is fulfilled with (\<open>Inr\<close>) or the error it is rejected with (\<open>Inl\<close>), and
  the trace.
\<close>

function score_loop ::
  "(nat \<Rightarrow> outcome) \<Rightarrow> nat \<Rightarrow> event list \<Rightarrow> (js_error + sentiment) \<times> event list" where
  "score_loop call attempt tr =
     (if attempt < 5 then
        (case (case call attempt of
                 Reply content \<Rightarrow>
                   (case handle_reply content of
                      Inr result \<Rightarrow> Return result
                    | Inl e \<Rightarrow> handle_error e attempt)
               | Throw e \<Rightarrow> handle_error e attempt) of
           Return r \<Rightarrow> (Inr r, tr @ [Request])
         | Retry ms \<Rightarrow> score_loop call (attempt + 1) (tr @ [Request, Sleep ms])
         | Raise err \<Rightarrow> (Inl err, tr @ [Request]))
      else (Inr (sentinel (JStr (lit ''rate limit retries exhausted''))), tr))"
  by pat_completeness auto
termination
  by (relation "measure (\<lambda>(call, attempt, tr). 5 - attempt)") auto

definition scoreMarket ::
  "nat \<Rightarrow> completion \<Rightarrow> jsstring \<Rightarrow> (js_error + sentiment) \<times> event list" where
  "scoreMarket MAX_TEXT_CHARS ask text =
     score_loop (ask (buildMarketPrompt MAX_TEXT_CHARS text)) 0 []"

section \<open>scoreMarket of the directory script\<close>

text \<open>
  The sibling script that walks a directory differs in \<^verbatim>\<open>scoreMarket\<close>: the first call
  of a turn asks for \<^verbatim>\<open>response_format\<close>, and when it throws an error that looks like
  an incompatibility the call is made again without it; the \<^verbatim>\<open>catch\<close> block builds its
  text from a type and a detail. Both blocks convert what they have read with
  \<^verbatim>\<open>String\<close> or \<^verbatim>\<open>join\<close> before they search it.
\<close>

text \<open>
  The inner \<^verbatim>\<open>catch\<close> block: \<^verbatim>\<open>String(t).includes('invalid') ||
  String(d).toLowerCase().includes('response_format')\<close>, where the second conversion is
  made only when the first test fails.
\<close>

definition maybeIncompatible :: "thrown \<Rightarrow> js_error + bool" where
  "maybeIncompatible compatErr =
     (let t = js_or (js_or (error_type compatErr) (name compatErr)) (JStr []);
          d = js_or (js_or (error_message compatErr) (message compatErr)) (JStr [])
      in case js_String t of
           Inl err \<Rightarrow> Inl err
         | Inr ts \<Rightarrow>
             if str_includes ts (lit ''invalid'') then Inr True
             else (case js_String d of
                     Inl err \<Rightarrow> Inl err
                   | Inr ds \<Rightarrow> Inr (str_includes (toLowerCase ds) (lit ''response_format''))))"

text \<open>
  \<^verbatim>\<open>[type, detail].filter(Boolean).join(': ')\<close>: the truthy ones of the two, each
  converted to its text.
\<close>

definition combined :: "thrown \<Rightarrow> js_error + jsstring" where
  "combined e =
     (let type = js_or (js_or (error_type e) (name e)) (JStr []);
          detail = js_or (js_or (error_message e) (message e)) (JStr (as_string e))
      in if \<not> truthy type then (if \<not> truthy detail then Inr [] else js_String detail)
         else if \<not> truthy detail then js_String type
         else (case js_String type of
                 Inl err \<Rightarrow> Inl err
               | Inr ts \<Rightarrow>
                   (case js_String detail of
                      Inl err \<Rightarrow> Inl err
                    | Inr ds \<Rightarrow> Inr (ts @ lit '': '' @ ds))))"

definition handle_error_dir :: "thrown \<Rightarrow> nat \<Rightarrow> turn" where
  "handle_error_dir e attempt =
     (case combined e of
        Inl err \<Rightarrow> Raise err
      | Inr c \<Rightarrow>
          if str_includes c (lit ''rate_limit'') \<or> status e = Some 429
          then Retry (retryAfterMs e attempt)
          else Return (sentinel (JStr (if c = [] then lit ''unknown error'' else c))))"

text \<open>
  The calls of one turn: the outcome that the \<^verbatim>\<open>try\<close> block goes on with, and the
  number of calls made. An error thrown inside the inner \<^verbatim>\<open>catch\<close> block is what the
  outer one receives.
\<close>

definition call_dir :: "(nat \<Rightarrow> outcome) \<Rightarrow> nat \<Rightarrow> outcome \<times> nat" where
  "call_dir call k =
     (case call k of
        Reply content \<Rightarrow> (Reply content, 1)
      | Throw compatErr \<Rightarrow>
          (case maybeIncompatible compatErr of
             Inl err \<Rightarrow> (Throw (thrown_of err), 1)
           | Inr retry \<Rightarrow> if retry then (call (k + 1), 2) else (Throw compatErr, 1)))"

function score_loop_dir ::
  "(nat \<Rightarrow> outcome) \<Rightarrow> nat \<Rightarrow> nat \<Rightarrow> event list \<Rightarrow> (js_error + sentiment) \<times> event list" where
  "score_loop_dir call attempt k tr =
     (if attempt < 5 then
        (let (out, n) = call_dir call k
         in case (case out of
                    Reply content \<Rightarrow>
                      (case handle_reply content of
                         Inr result \<Rightarrow> Return result
                       | Inl e \<Rightarrow> handle_error_dir e attempt)
                  | Throw e \<Rightarrow> handle_error_dir e attempt) of
              Return r \<Rightarrow> (Inr r, tr @ replicate n Request)
            | Retry ms \<Rightarrow>
                score_loop_dir call (attempt + 1) (k + n) (tr @ replicate n Request @ [Sleep ms])
            | Raise err \<Rightarrow> (Inl err, tr @ replicate n Request))
      else (Inr (sentinel (JStr (lit ''rate limit retries exhausted''))), tr))"
  by pat_completeness auto
termination
  by (relation "measure (\<lambda>(call, attempt, k, tr). 5 - attempt)") auto

definition scoreMarket_dir ::
  "nat \<Rightarrow> completion \<Rightarrow> jsstring \<Rightarrow> (js_error + sentiment) \<times> event list" where
  "scoreMarket_dir MAX_TEXT_CHARS ask text =
     score_loop_dir (ask (buildMarketPrompt MAX_TEXT_CHARS text)) 0 0 []"

section \<open>Auxiliary notions for the proofs\<close>

text \<open>
  What one iteration of the loop over \<^verbatim>\<open>Object.entries(obj.tickers)\<close> stores for a value,
  if it stores anything (lines 139 to 151), and the key and record that one iteration
  of the loop over an array stores (lines 155 to 161).
\<close>

definition value_ticker :: "jsval \<Rightarrow> ticker option" where
  "value_ticker rawVal =
     (if rawVal = JNull \<or> rawVal = JUndefined then Some \<lparr>tscore = Fin 0, explanation = []\<rparr>
      else if typeof_number rawVal \<or> typeof_string rawVal then
        (case parseScore rawVal of
           None \<Rightarrow> None
         | Some tScore \<Rightarrow>
             if tScore = NaN then None else Some \<lparr>tscore = tScore, explanation = []\<rparr>)
      else if typeof_object rawVal then
        (case parseScore (getProp rawVal (lit ''score'')) of
           None \<Rightarrow> None
         | Some tScore \<Rightarrow>
             if tScore = NaN then None
             else Some \<lparr>tscore = tScore, explanation = explanation_of rawVal\<rparr>)
      else None)"

definition entry_ticker :: "jsval \<Rightarrow> (jsstring \<times> ticker) option" where
  "entry_ticker entry =
     (if \<not> truthy entry \<or> \<not> typeof_object entry then None
      else
        (case (normalizeTickerKey
                 (js_or (js_or (getProp entry (lit ''ticker'')) (getProp entry (lit ''symbol'')))
                        (getProp entry (lit ''code''))),
               parseScore (getProp entry (lit ''score''))) of
           (Some key, Some tScore) \<Rightarrow>
             if tScore = NaN then None
             else Some (key, \<lparr>tscore = tScore, explanation = explanation_of entry\<rparr>)
         | _ \<Rightarrow> None))"

text \<open>
  For the proofs: the last element of a list for which \<open>f\<close> has a value, and what an
  entry of a tickers mapping, or of a tickers array, stores under the key \<open>k\<close>.
\<close>

fun last_hit :: "('a \<Rightarrow> 'b option) \<Rightarrow> 'a list \<Rightarrow> 'b option" where
  "last_hit f [] = None"
| "last_hit f (x # xs) = (case last_hit f xs of Some v \<Rightarrow> Some v | None \<Rightarrow> f x)"

definition stored_at :: "jsstring \<Rightarrow> jsstring \<times> jsval \<Rightarrow> ticker option" where
  "stored_at k = (\<lambda>(rawKey, rawVal).
     if normalizeTickerKey (JStr rawKey) = Some k then value_ticker rawVal else None)"

definition entry_at :: "jsstring \<Rightarrow> jsval \<Rightarrow> ticker option" where
  "entry_at k entry =
     (case entry_ticker entry of
        Some (key, t) \<Rightarrow> if key = k then Some t else None
      | None \<Rightarrow> None)"

section \<open>Auxiliary notions for the retry loop\<close>

text \<open>
  The test of the \<^verbatim>\<open>catch\<close> block that classifies a thrown value as a rate limit, in
  either script: the test is reached without an error and holds; the turn that an outcome of the call leads to; and the trace of \<open>d\<close>
  turns from turn \<open>a\<close> on that all end in a sleep.
\<close>

definition rate_limited :: "thrown \<Rightarrow> bool" where
  "rate_limited e \<longleftrightarrow>
     (case includes_method (error_msg e) (lit ''rate_limit'') of
        Inl err \<Rightarrow> False
      | Inr found \<Rightarrow> found \<or> status e = Some 429)"

definition rate_limited_dir :: "thrown \<Rightarrow> bool" where
  "rate_limited_dir e \<longleftrightarrow>
     (case combined e of
        Inl err \<Rightarrow> False
      | Inr c \<Rightarrow> str_includes c (lit ''rate_limit'') \<or> status e = Some 429)"

text \<open>
  A reply from which the extraction makes no record: it ends with null (\<open>malformed\<close>),
  or the coercer throws on the way (\<open>unconvertible\<close>).
\<close>

definition malformed :: "outcome \<Rightarrow> bool" where
  "malformed out \<longleftrightarrow>
     (case out of
        Reply content \<Rightarrow> extract_result (raw_text content) = Inr None
      | Throw e \<Rightarrow> False)"

definition unconvertible :: "outcome \<Rightarrow> bool" where
  "unconvertible out \<longleftrightarrow>
     (case out of
        Reply content \<Rightarrow> extract_result (raw_text content) = Inl cannot_convert
      | Throw e \<Rightarrow> False)"

definition turn_of :: "outcome \<Rightarrow> nat \<Rightarrow> turn" where
  "turn_of out attempt =
     (case out of
        Reply content \<Rightarrow>
          (case handle_reply content of
             Inr result \<Rightarrow> Return result
           | Inl e \<Rightarrow> handle_error e attempt)
      | Throw e \<Rightarrow> handle_error e attempt)"

definition turn_of_dir :: "outcome \<Rightarrow> nat \<Rightarrow> turn" where
  "turn_of_dir out attempt =
     (case out of
        Reply content \<Rightarrow>
          (case handle_reply content of
             Inr result \<Rightarrow> Return result
           | Inl e \<Rightarrow> handle_error_dir e attempt)
      | Throw e \<Rightarrow> handle_error_dir e attempt)"

definition retried :: "outcome \<Rightarrow> bool" where
  "retried out \<longleftrightarrow> (case out of Throw e \<Rightarrow> rate_limited e | Reply content \<Rightarrow> False)"

definition retried_dir :: "outcome \<Rightarrow> bool" where
  "retried_dir out \<longleftrightarrow> (case out of Throw e \<Rightarrow> rate_limited_dir e | Reply content \<Rightarrow> False)"

definition delay :: "outcome \<Rightarrow> nat \<Rightarrow> jsnum" where
  "delay out attempt = (case out of Throw e \<Rightarrow> retryAfterMs e attempt | Reply content \<Rightarrow> NaN)"

fun retry_trace :: "(nat \<Rightarrow> outcome) \<Rightarrow> nat \<Rightarrow> nat \<Rightarrow> event list" where
  "retry_trace call a 0 = []"
| "retry_trace call a (Suc d) = Request # Sleep (delay (call a) a) # retry_trace call (Suc a) d"

text \<open>
  For the directory script, where a turn makes one or two calls: from a turn that starts
  after \<open>k\<close> calls, whether \<open>d\<close> turns in a row end in a sleep, how many calls have been
  made after them, and their trace.
\<close>

fun all_retried_dir :: "(nat \<Rightarrow> outcome) \<Rightarrow> nat \<Rightarrow> nat \<Rightarrow> bool" where
  "all_retried_dir call k 0 = True"
| "all_retried_dir call k (Suc d) =
     (retried_dir (fst (call_dir call k)) \<and> all_retried_dir call (k + snd (call_dir call k)) d)"

fun calls_after :: "(nat \<Rightarrow> outcome) \<Rightarrow> nat \<Rightarrow> nat \<Rightarrow> nat" where
  "calls_after call k 0 = k"
| "calls_after call k (Suc d) = calls_after call (k + snd (call_dir call k)) d"

fun retry_trace_dir :: "(nat \<Rightarrow> outcome) \<Rightarrow> nat \<Rightarrow> nat \<Rightarrow> nat \<Rightarrow> event list" where
  "retry_trace_dir call a k 0 = []"
| "retry_trace_dir call a k (Suc d) =
     replicate (snd (call_dir call k)) Request
     @ Sleep (delay (fst (call_dir call k)) a)
     # retry_trace_dir call (Suc a) (k + snd (call_dir call k)) d"

fun is_sleep :: "event \<Rightarrow> bool" where
  "is_sleep (Sleep ms) = True"
| "is_sleep Request = False"

section \<open>Evaluation\<close>

lemmas string_defs = lit_def trim_def is_ws_def endsWith_def startsWith_def toLowerCase_def
  lower_unit_def toUpperCase_def upper_unit_def strip_ws_underscore_def

lemmas number_defs = js_Number_def non_decimal_def str_decimal_def take_sign_def
  unsigned_decimal_def exponent_part_def is_digit_def radix_val_def digit_of_def pow10_def
  radix_literal_def is_radix_digit_def js_min_def js_max_def

lemmas coerce_defs = normalizeLabel_def table_lookup_def label_table_def
  parseScore_def summary_of_def coerce_tickers_def infer_label_def normalizeTickerKey_def
  ticker_shape_def is_AZ09_def entries_def is_array_index_def explanation_of_def js_or_def

section \<open>Strings and numbers\<close>

lemma lit_eq_iff [simp]: "lit a = lit b \<longleftrightarrow> a = b"
proof -
  have "inj (of_char :: char \<Rightarrow> nat)"
    by (rule injI) simp
  then show ?thesis
    by (simp add: lit_def inj_map_eq_map)
qed

lemma lit_Nil [simp]: "lit [] = []"
  by (simp add: lit_def)

lemma lit_eq_Nil [simp]: "lit s = [] \<longleftrightarrow> s = []" "[] = lit s \<longleftrightarrow> s = []"
  by (auto simp: lit_def)

lemma parseScore_simps [simp]:
  "parseScore (JNum n) = Some n"
  "parseScore JUndefined = None"
  "parseScore JNull = None"
  "parseScore (JBool b) = None"
  "parseScore (JArr xs) = None"
  "parseScore (JObj kvs) = None"
  by (simp_all add: parseScore_def)

lemma normalizeLabel_falsy [simp]:
  "normalizeLabel JUndefined = Inr None"
  "normalizeLabel JNull = Inr None"
  by (simp_all add: normalizeLabel_def)

lemma trim_all_ws:
  assumes "list_all is_ws s"
  shows "trim s = []"
proof -
  have h: "dropWhile is_ws s = []"
    using assms by (simp add: list_all_iff)
  show ?thesis
    unfolding trim_def h by simp
qed

lemma trim_idem: "trim (trim s) = trim s"
proof -
  define a where "a = dropWhile is_ws s"
  define b where "b = dropWhile is_ws (rev a)"
  have tr: "trim s = rev b"
    by (simp add: trim_def a_def b_def)
  have "dropWhile is_ws (rev b) = rev b"
  proof (cases "b = []")
    case True
    then show ?thesis by simp
  next
    case False
    have "rev a = takeWhile is_ws (rev a) @ b"
      by (simp add: b_def)
    then have "a = rev b @ rev (takeWhile is_ws (rev a))"
      by (metis rev_append rev_rev_ident)
    with False have "hd a = hd (rev b)" and "a \<noteq> []"
      by (metis hd_append2 rev_is_Nil_conv, auto)
    moreover have "\<not> is_ws (hd a)"
      using \<open>a \<noteq> []\<close> unfolding a_def by (rule hd_dropWhile)
    ultimately show ?thesis
      using False by (cases "rev b") auto
  qed
  then have "trim (rev b) = rev (dropWhile is_ws b)"
    by (simp add: trim_def)
  also have "dropWhile is_ws b = b"
    by (simp add: b_def)
  finally show ?thesis
    by (simp add: tr)
qed

lemma js_Number_trim: "js_Number (trim s) = js_Number s"
  by (simp add: js_Number_def trim_idem)

lemma js_Number_ws: "list_all is_ws s \<Longrightarrow> js_Number s = Fin 0"
  by (simp add: js_Number_def trim_all_ws)

lemma parseScore_ws:
  assumes "list_all is_ws s"
  shows "parseScore (JStr s) = Some (Fin 0)"
proof -
  have t: "trim s = []"
    using assms by (rule trim_all_ws)
  have n: "js_Number [] = Fin 0"
    by (simp add: js_Number_ws)
  show ?thesis
    by (simp add: parseScore_def t n endsWith_def lit_def)
qed

lemma endsWith_last: "endsWith t x \<Longrightarrow> x \<noteq> [] \<Longrightarrow> t \<noteq> [] \<and> last t = last x"
proof -
  assume e: "endsWith t x" and x: "x \<noteq> []"
  then have "t = take (length t - length x) t @ x"
    by (metis append_take_drop_id endsWith_def)
  with x show ?thesis
    by (metis append_is_Nil_conv last_appendR)
qed

text \<open>A string that is a number has no percent sign in it.\<close>

lemma take_sign_split: "\<exists>p. t = p @ snd (take_sign t) \<and> set p \<subseteq> {0x2D, 0x2B}"
proof (cases t)
  case Nil
  then have "t = [] @ snd (take_sign t) \<and> set [] \<subseteq> {0x2D, 0x2B :: nat}"
    by (simp add: take_sign_def)
  then show ?thesis ..
next
  case (Cons c u)
  show ?thesis
  proof (cases "c = 0x2D \<or> c = 0x2B")
    case True
    with Cons have "t = [c] @ snd (take_sign t) \<and> set [c] \<subseteq> {0x2D, 0x2B}"
      by (auto simp: take_sign_def)
    then show ?thesis ..
  next
    case False
    with Cons have "t = [] @ snd (take_sign t) \<and> set [] \<subseteq> {0x2D, 0x2B :: nat}"
      by (simp add: take_sign_def)
    then show ?thesis ..
  qed
qed

lemma digits_no_percent: "list_all is_digit ds \<Longrightarrow> 0x25 \<notin> set ds"
  by (auto simp: list_all_iff is_digit_def)

lemma exponent_part_no_percent:
  assumes "exponent_part r = Some e"
  shows "0x25 \<notin> set r"
proof (cases r)
  case Nil
  then show ?thesis
    by simp
next
  case (Cons c t)
  with assms have c: "c = 0x65 \<or> c = 0x45"
    by (auto simp: exponent_part_def split: if_splits)
  with assms Cons have d: "list_all is_digit (snd (take_sign t))"
    by (auto simp: exponent_part_def Let_def split_beta split: if_splits)
  obtain p where p: "t = p @ snd (take_sign t)" "set p \<subseteq> {0x2D, 0x2B}"
    using take_sign_split by blast
  have "0x25 \<notin> set p"
    using p(2) by auto
  with digits_no_percent [OF d] p(1) have "0x25 \<notin> set t"
    by (metis Un_iff set_append)
  with c Cons show ?thesis
    by auto
qed

lemma unsigned_decimal_no_percent:
  assumes "unsigned_decimal u = Some q"
  shows "0x25 \<notin> set u"
proof -
  define r1 where "r1 = dropWhile is_digit u"
  define dot where "dot = (r1 \<noteq> [] \<and> hd r1 = 0x2E)"
  define r2 where "r2 = (if dot then dropWhile is_digit (tl r1) else r1)"
  from assms obtain e where e: "exponent_part r2 = Some e"
    unfolding unsigned_decimal_def r1_def dot_def r2_def
    by (auto simp: Let_def split: if_splits option.splits)
  have a: "0x25 \<notin> set r2"
    using e by (rule exponent_part_no_percent)
  have tw: "0x25 \<notin> set (takeWhile is_digit x)" for x
    by (auto dest: set_takeWhileD simp: is_digit_def)
  have b: "0x25 \<notin> set r1"
  proof (cases dot)
    case False
    with a show ?thesis
      by (simp add: r2_def)
  next
    case True
    then obtain t where r1: "r1 = 0x2E # t"
      by (cases r1) (auto simp: dot_def)
    have "t = takeWhile is_digit t @ r2"
      using True r1 by (simp add: r2_def)
    with a tw [of t] have "0x25 \<notin> set t"
      by (metis Un_iff set_append)
    with r1 show ?thesis
      by simp
  qed
  have "u = takeWhile is_digit u @ r1"
    by (simp add: r1_def)
  with b tw [of u] show ?thesis
    by (metis Un_iff set_append)
qed

lemma str_decimal_no_percent:
  assumes "str_decimal t \<noteq> NaN"
  shows "0x25 \<notin> set t"
proof -
  obtain p where p: "t = p @ snd (take_sign t)" "set p \<subseteq> {0x2D, 0x2B}"
    using take_sign_split by blast
  have "0x25 \<notin> set (snd (take_sign t))"
  proof (cases "snd (take_sign t) = lit ''Infinity''")
    case True
    then show ?thesis
      by (simp add: lit_def)
  next
    case False
    with assms obtain q where "unsigned_decimal (snd (take_sign t)) = Some q"
      by (auto simp: str_decimal_def split_beta split: option.splits)
    then show ?thesis
      by (rule unsigned_decimal_no_percent)
  qed
  moreover have "0x25 \<notin> set p"
    using p(2) by auto
  ultimately show ?thesis
    using p(1) by (metis Un_iff set_append)
qed

lemma non_decimal_no_percent:
  assumes "non_decimal t = Some n"
  shows "0x25 \<notin> set t"
proof -
  from assms obtain c0 c1 ds where t: "t = c0 # c1 # ds"
    by (cases t rule: list.exhaust; cases "tl t") (auto simp: non_decimal_def)
  with assms have c0: "c0 = 0x30" and c1: "c1 \<in> {0x78, 0x58, 0x6F, 0x4F, 0x62, 0x42}"
    by (auto simp: non_decimal_def split: if_splits)
  from assms t c0 obtain b where "list_all (is_radix_digit b) ds"
    by (auto simp: non_decimal_def radix_literal_def split: if_splits)
  then have "0x25 \<notin> set ds"
    by (auto simp: list_all_iff is_radix_digit_def digit_of_def split: option.splits if_splits)
  with t c0 c1 show ?thesis
    by auto
qed

lemma js_Number_no_percent:
  assumes "js_Number v \<noteq> NaN"
  shows "\<not> endsWith (trim v) (lit ''%'')"
proof
  assume e: "endsWith (trim v) (lit ''%'')"
  then have "trim v \<noteq> [] \<and> last (trim v) = last (lit ''%'')"
    by (rule endsWith_last) simp
  then have ne: "trim v \<noteq> []" and "last (trim v) = 0x25"
    by (simp_all add: lit_def)
  then have m: "0x25 \<in> set (trim v)"
    by (metis last_in_set)
  show False
  proof (cases "non_decimal (trim v)")
    case (Some n)
    from non_decimal_no_percent [OF this] m show False
      by blast
  next
    case None
    with assms ne have "str_decimal (trim v) \<noteq> NaN"
      by (simp add: js_Number_def)
    from str_decimal_no_percent [OF this] m show False
      by blast
  qed
qed

section \<open>The coercer\<close>

text \<open>The coercer, read off its two gates: the input is an object, and the score is a number.\<close>

lemma coerce_cases:
  "coerceSentimentShape obj =
     (if \<not> truthy obj \<or> \<not> typeof_object obj then Inr None
      else (case normalizeLabel (getProp obj (lit ''label'')) of
              Inl err \<Rightarrow> Inl err
            | Inr labelNorm \<Rightarrow>
                (case parseScore (getProp obj (lit ''score'')) of
                   None \<Rightarrow> Inr None
                 | Some n \<Rightarrow>
                     if n = NaN then Inr None
                     else Inr (Some \<lparr>label = (case labelNorm of
                                                  Some l \<Rightarrow> l | None \<Rightarrow> infer_label n),
                                      score = n,
                                      summary = JStr (case summary_of obj of
                                                        None \<Rightarrow> [] | Some s \<Rightarrow> s),
                                      tickers = coerce_tickers (getProp obj (lit ''tickers''))\<rparr>))))"
  by (simp add: coerceSentimentShape_def Let_def split: option.split sum.split)

text \<open>The coercer throws exactly when the conversion of a truthy label does.\<close>

lemma coerce_throws:
  "coerceSentimentShape obj = Inl err \<longleftrightarrow>
     truthy obj \<and> typeof_object obj \<and> normalizeLabel (getProp obj (lit ''label'')) = Inl err"
  by (auto simp: coerce_cases split: sum.splits option.splits)

lemma normalizeLabel_throws:
  "normalizeLabel l = Inl err \<longleftrightarrow> truthy l \<and> js_String l = Inl err"
  by (auto simp: normalizeLabel_def split: sum.splits)

lemma js_String_throws:
  "js_String v = Inl err \<Longrightarrow> err = cannot_convert"
  "element_texts vs = Inl err \<Longrightarrow> err = cannot_convert"
  by (induction v and vs rule: js_String_element_texts.induct)
     (auto split: sum.splits if_splits)

lemma coerce_throws_cannot_convert: "coerceSentimentShape obj = Inl err \<Longrightarrow> err = cannot_convert"
  by (auto simp: coerce_throws normalizeLabel_throws dest: js_String_throws)

lemma case_not_string:
  "\<not> typeof_string v \<Longrightarrow>
     (case v of JUndefined \<Rightarrow> d | JNull \<Rightarrow> d | JBool b \<Rightarrow> d | JNum n \<Rightarrow> d | JStr s \<Rightarrow> f s
               | JArr xs \<Rightarrow> d | JObj kvs \<Rightarrow> d) = d"
  by (cases v) simp_all

lemma normalizeTickerKey_shape:
  "normalizeTickerKey v = Some k \<Longrightarrow> k \<noteq> [] \<and> length k \<le> 6 \<and> list_all is_AZ09 k"
  by (cases v) (auto simp: normalizeTickerKey_def ticker_shape_def Let_def split: if_splits)

lemma keys_update: "fst ` set (AList.update k v al) = insert k (fst ` set al)"
  by (simp add: dom_update)

lemma object_tickers_step:
  "object_tickers tk ((rawKey, rawVal) # es) =
     (case normalizeTickerKey (JStr rawKey) of
        None \<Rightarrow> object_tickers tk es
      | Some key \<Rightarrow>
          (case value_ticker rawVal of
             None \<Rightarrow> object_tickers tk es
           | Some t \<Rightarrow> object_tickers (AList.update key t tk) es))"
  by (simp add: value_ticker_def split: option.split)

lemma array_tickers_step:
  "array_tickers tk (entry # es) =
     (case entry_ticker entry of
        None \<Rightarrow> array_tickers tk es
      | Some (key, t) \<Rightarrow> array_tickers (AList.update key t tk) es)"
  by (simp add: entry_ticker_def split: option.split)

lemma entry_ticker_shape:
  "entry_ticker entry = Some (k, t) \<Longrightarrow> k \<noteq> [] \<and> length k \<le> 6 \<and> list_all is_AZ09 k"
  unfolding entry_ticker_def
  by (auto split: if_splits option.splits dest: normalizeTickerKey_shape)

lemma value_ticker_kept:
  "value_ticker rawVal \<noteq> None \<longleftrightarrow>
     rawVal = JNull \<or> rawVal = JUndefined
     \<or> (\<exists>t. t \<noteq> NaN \<and> (parseScore rawVal = Some t
                        \<or> parseScore (getProp rawVal (lit ''score'')) = Some t))"
proof (cases rawVal)
  case (JNum n)
  then show ?thesis by (simp add: value_ticker_def parseScore_def)
next
  case (JStr s)
  have "parseScore JUndefined = None"
    by (simp add: parseScore_def)
  then show ?thesis
    unfolding JStr by (auto simp add: value_ticker_def split: option.splits)
next
  case (JBool b)
  then show ?thesis by (simp add: value_ticker_def parseScore_def)
next
  case (JArr xs)
  have "parseScore (JArr xs) = None"
    by (simp add: parseScore_def)
  then show ?thesis
    unfolding JArr by (auto simp add: value_ticker_def split: option.splits)
next
  case (JObj kvs)
  have "parseScore (JObj kvs) = None"
    by (simp add: parseScore_def)
  then show ?thesis
    unfolding JObj by (auto simp add: value_ticker_def split: option.splits)
qed (simp_all add: value_ticker_def)

lemma object_tickers_keys:
  "fst ` set (object_tickers tk es) =
     fst ` set tk \<union>
     {k. \<exists>(rawKey, rawVal) \<in> set es. normalizeTickerKey (JStr rawKey) = Some k
          \<and> value_ticker rawVal \<noteq> None}"
proof (induction es arbitrary: tk)
  case Nil
  then show ?case by simp
next
  case (Cons e es)
  obtain rawKey rawVal where e: "e = (rawKey, rawVal)"
    by (cases e)
  show ?case
    unfolding e object_tickers_step
    by (cases "normalizeTickerKey (JStr rawKey)"; cases "value_ticker rawVal")
       (auto simp: Cons.IH keys_update)
qed

lemma array_tickers_keys:
  "fst ` set (array_tickers tk es) =
     fst ` set tk \<union> {k. \<exists>e \<in> set es. \<exists>t. entry_ticker e = Some (k, t)}"
proof (induction es arbitrary: tk)
  case Nil
  then show ?case by simp
next
  case (Cons e es)
  show ?case
  proof (cases "entry_ticker e")
    case None
    then show ?thesis
      by (simp add: array_tickers_step Cons.IH del: array_tickers.simps)
  next
    case (Some p)
    obtain k t where p: "p = (k, t)"
      by (cases p)
    have "fst ` set (array_tickers tk (e # es)) =
            insert k (fst ` set tk) \<union> {k. \<exists>e \<in> set es. \<exists>t. entry_ticker e = Some (k, t)}"
      by (simp add: array_tickers_step Some p Cons.IH keys_update del: array_tickers.simps)
    also have "\<dots> = fst ` set tk \<union> {k. \<exists>e \<in> set (e # es). \<exists>t. entry_ticker e = Some (k, t)}"
      using Some p by auto
    finally show ?thesis .
  qed
qed

text \<open>
  What the loops leave under a key: the record that the last iteration storing under
  that key has stored.
\<close>

lemma last_hit_None: "last_hit f xs = None \<longleftrightarrow> (\<forall>x \<in> set xs. f x = None)"
  by (induction xs) (auto split: option.splits)

lemma last_hit_Some:
  "last_hit f xs = Some v \<longleftrightarrow>
     (\<exists>pre x post. xs = pre @ x # post \<and> f x = Some v \<and> (\<forall>y \<in> set post. f y = None))"
proof (induction xs)
  case Nil
  then show ?case by simp
next
  case (Cons a xs)
  show ?case
  proof
    assume h: "last_hit f (a # xs) = Some v"
    show "\<exists>pre x post. a # xs = pre @ x # post \<and> f x = Some v \<and> (\<forall>y \<in> set post. f y = None)"
    proof (cases "last_hit f xs")
      case None
      with h have "f a = Some v"
        by simp
      moreover have "\<forall>y \<in> set xs. f y = None"
        using None by (simp add: last_hit_None)
      ultimately have "a # xs = [] @ a # xs \<and> f a = Some v \<and> (\<forall>y \<in> set xs. f y = None)"
        by simp
      then show ?thesis
        by blast
    next
      case (Some w)
      with h have "last_hit f xs = Some v"
        by simp
      then obtain pre x post where
        "xs = pre @ x # post" "f x = Some v" "\<forall>y \<in> set post. f y = None"
        using Cons.IH by blast
      then have "a # xs = (a # pre) @ x # post \<and> f x = Some v \<and> (\<forall>y \<in> set post. f y = None)"
        by simp
      then show ?thesis
        by blast
    qed
  next
    assume "\<exists>pre x post. a # xs = pre @ x # post \<and> f x = Some v \<and> (\<forall>y \<in> set post. f y = None)"
    then obtain pre x post where
      d: "a # xs = pre @ x # post" and x: "f x = Some v" and p: "\<forall>y \<in> set post. f y = None"
      by blast
    show "last_hit f (a # xs) = Some v"
    proof (cases pre)
      case Nil
      with d have "a = x" "xs = post"
        by simp_all
      with x p show ?thesis
        by (simp add: last_hit_None [THEN iffD2])
    next
      case (Cons b pre')
      with d have "xs = pre' @ x # post"
        by simp
      with x p have "last_hit f xs = Some v"
        using Cons.IH by blast
      then show ?thesis
        by simp
    qed
  qed
qed

lemma map_of_update:
  "map_of (AList.update k v al) k' = (if k' = k then Some v else map_of al k')"
  by (simp add: update_conv')

lemma object_tickers_map:
  "map_of (object_tickers tk es) k =
     (case last_hit (stored_at k) es of Some t \<Rightarrow> Some t | None \<Rightarrow> map_of tk k)"
proof (induction es arbitrary: tk)
  case Nil
  then show ?case by simp
next
  case (Cons e es)
  obtain rawKey rawVal where e: "e = (rawKey, rawVal)"
    by (cases e)
  show ?case
    unfolding e object_tickers_step
    by (cases "normalizeTickerKey (JStr rawKey)"; cases "value_ticker rawVal")
       (auto simp: Cons.IH map_of_update stored_at_def split: option.splits)
qed

lemma array_tickers_map:
  "map_of (array_tickers tk es) k =
     (case last_hit (entry_at k) es of Some t \<Rightarrow> Some t | None \<Rightarrow> map_of tk k)"
proof (induction es arbitrary: tk)
  case Nil
  then show ?case by simp
next
  case (Cons e es)
  show ?case
  proof (cases "entry_ticker e")
    case None
    then show ?thesis
      by (simp add: array_tickers_step Cons.IH entry_at_def del: array_tickers.simps
          split: option.splits)
  next
    case (Some p)
    obtain k' t where p: "p = (k', t)"
      by (cases p)
    show ?thesis
      by (simp add: array_tickers_step Some p Cons.IH map_of_update entry_at_def
          del: array_tickers.simps split: option.splits)
  qed
qed

lemma stored_at_Some:
  "stored_at k x = Some t \<longleftrightarrow>
     normalizeTickerKey (JStr (fst x)) = Some k \<and> value_ticker (snd x) = Some t"
  by (cases x) (simp add: stored_at_def)

lemma stored_at_None:
  "stored_at k x = None \<longleftrightarrow>
     (normalizeTickerKey (JStr (fst x)) = Some k \<longrightarrow> value_ticker (snd x) = None)"
  by (cases x) (simp add: stored_at_def)

lemma entry_at_Some: "entry_at k e = Some t \<longleftrightarrow> entry_ticker e = Some (k, t)"
  by (auto simp: entry_at_def split: option.splits)

lemma entry_at_None: "entry_at k e = None \<longleftrightarrow> (\<forall>t. entry_ticker e \<noteq> Some (k, t))"
  by (auto simp: entry_at_def split: option.splits)

lemma set_entries: "set (entries kvs) = set kvs"
  by (auto simp: entries_def)

lemma coerce_tickers_shape:
  assumes "k \<in> fst ` set (coerce_tickers v)"
  shows "k \<noteq> [] \<and> length k \<le> 6 \<and> list_all is_AZ09 k"
proof (cases v)
  case (JObj kvs)
  with assms obtain rawKey where "normalizeTickerKey (JStr rawKey) = Some k"
    by (auto simp: coerce_tickers_def object_tickers_keys)
  then show ?thesis by (rule normalizeTickerKey_shape)
next
  case (JArr xs)
  with assms obtain e t where "entry_ticker e = Some (k, t)"
    by (auto simp: coerce_tickers_def array_tickers_keys)
  then show ?thesis by (rule entry_ticker_shape)
qed (use assms in \<open>simp_all add: coerce_tickers_def\<close>)

section \<open>The retry loop\<close>

lemmas catch_defs = rate_limited_def rate_limited_dir_def error_msg_def combined_def
  maybeIncompatible_def includes_method_def js_or_def error_object_def invalid_json_error_def
  cannot_convert_def

lemma invalid_json_not_rate_limited:
  "\<not> rate_limited invalid_json_error" "\<not> rate_limited_dir invalid_json_error"
  by (simp_all add: catch_defs lit_def startsWith_def)

lemma error_msg_invalid:
  "error_msg invalid_json_error = JStr (lit ''Model did not return valid JSON sentiment'')"
  by (simp add: catch_defs)

lemma combined_invalid:
  "combined invalid_json_error = Inr (lit ''Error: Model did not return valid JSON sentiment'')"
  by (simp add: catch_defs lit_def)

lemma type_error_not_rate_limited:
  "\<not> rate_limited (thrown_of cannot_convert)" "\<not> rate_limited_dir (thrown_of cannot_convert)"
  by (simp_all add: catch_defs lit_def startsWith_def)

lemma error_msg_type_error:
  "error_msg (thrown_of cannot_convert) = JStr (lit ''Cannot convert object to primitive value'')"
  by (simp add: catch_defs)

lemma combined_type_error:
  "combined (thrown_of cannot_convert)
     = Inr (lit ''TypeError: Cannot convert object to primitive value'')"
  by (simp add: catch_defs lit_def)

lemma handle_error_retry: "rate_limited e \<Longrightarrow> handle_error e a = Retry (retryAfterMs e a)"
  by (auto simp: handle_error_def rate_limited_def split: sum.splits)

lemma handle_error_return:
  "\<not> rate_limited e \<Longrightarrow> error_msg e = JStr m \<Longrightarrow> handle_error e a = Return (sentinel (JStr m))"
  by (simp add: handle_error_def rate_limited_def includes_method_def)

lemma handle_error_dir_retry:
  "rate_limited_dir e \<Longrightarrow> handle_error_dir e a = Retry (retryAfterMs e a)"
  by (auto simp: handle_error_dir_def rate_limited_dir_def split: sum.splits)

lemma handle_error_dir_return:
  "\<not> rate_limited_dir e \<Longrightarrow> combined e = Inr c \<Longrightarrow>
     handle_error_dir e a = Return (sentinel (JStr (if c = [] then lit ''unknown error'' else c)))"
  by (simp add: handle_error_dir_def rate_limited_dir_def)

lemma turn_of_malformed:
  "malformed out \<Longrightarrow>
     turn_of out a = Return (sentinel (JStr (lit ''Model did not return valid JSON sentiment'')))"
  by (cases out)
     (simp_all add: malformed_def turn_of_def handle_reply_def
        handle_error_return [OF invalid_json_not_rate_limited(1) error_msg_invalid])

lemma turn_of_dir_malformed:
  "malformed out \<Longrightarrow>
     turn_of_dir out a
       = Return (sentinel (JStr (lit ''Error: Model did not return valid JSON sentiment'')))"
  by (cases out)
     (simp_all add: malformed_def turn_of_dir_def handle_reply_def
        handle_error_dir_return [OF invalid_json_not_rate_limited(2) combined_invalid])

lemma turn_of_unconvertible:
  "unconvertible out \<Longrightarrow>
     turn_of out a = Return (sentinel (JStr (lit ''Cannot convert object to primitive value'')))"
  by (cases out)
     (simp_all add: unconvertible_def turn_of_def handle_reply_def
        handle_error_return [OF type_error_not_rate_limited(1) error_msg_type_error])

lemma turn_of_dir_unconvertible:
  "unconvertible out \<Longrightarrow>
     turn_of_dir out a
       = Return (sentinel (JStr (lit ''TypeError: Cannot convert object to primitive value'')))"
  by (cases out)
     (simp_all add: unconvertible_def turn_of_dir_def handle_reply_def
        handle_error_dir_return [OF type_error_not_rate_limited(2) combined_type_error])

lemma turn_of_retried: "retried out \<Longrightarrow> turn_of out a = Retry (delay out a)"
  by (cases out) (simp_all add: retried_def turn_of_def handle_error_retry delay_def)

lemma turn_of_dir_retried: "retried_dir out \<Longrightarrow> turn_of_dir out a = Retry (delay out a)"
  by (cases out) (simp_all add: retried_dir_def turn_of_dir_def handle_error_dir_retry delay_def)

lemma score_loop_step:
  "score_loop call a tr =
     (if a < 5 then
        (case turn_of (call a) a of
           Return r \<Rightarrow> (Inr r, tr @ [Request])
         | Retry ms \<Rightarrow> score_loop call (a + 1) (tr @ [Request, Sleep ms])
         | Raise err \<Rightarrow> (Inl err, tr @ [Request]))
      else (Inr (sentinel (JStr (lit ''rate limit retries exhausted''))), tr))"
  by (subst score_loop.simps) (simp add: turn_of_def)

lemma score_loop_dir_step:
  "score_loop_dir call a k tr =
     (if a < 5 then
        (case turn_of_dir (fst (call_dir call k)) a of
           Return r \<Rightarrow> (Inr r, tr @ replicate (snd (call_dir call k)) Request)
         | Retry ms \<Rightarrow>
             score_loop_dir call (a + 1) (k + snd (call_dir call k))
               (tr @ replicate (snd (call_dir call k)) Request @ [Sleep ms])
         | Raise err \<Rightarrow> (Inl err, tr @ replicate (snd (call_dir call k)) Request))
      else (Inr (sentinel (JStr (lit ''rate limit retries exhausted''))), tr))"
  by (subst score_loop_dir.simps) (simp add: turn_of_dir_def split_beta)

lemma score_loop_skip:
  "a + d \<le> 5 \<Longrightarrow> (\<forall>i. a \<le> i \<and> i < a + d \<longrightarrow> retried (call i)) \<Longrightarrow>
     score_loop call a tr = score_loop call (a + d) (tr @ retry_trace call a d)"
proof (induction d arbitrary: a tr)
  case 0
  then show ?case by simp
next
  case (Suc d)
  have r: "retried (call a)"
    using Suc.prems(2) by simp
  have "score_loop call a tr = score_loop call (Suc a) (tr @ [Request, Sleep (delay (call a) a)])"
    using Suc.prems(1) by (subst score_loop_step) (simp add: turn_of_retried [OF r])
  also have "\<dots> = score_loop call (Suc a + d)
                     ((tr @ [Request, Sleep (delay (call a) a)]) @ retry_trace call (Suc a) d)"
    using Suc.prems by (intro Suc.IH) auto
  finally show ?case
    by simp
qed

lemma score_loop_dir_skip:
  "a + d \<le> 5 \<Longrightarrow> all_retried_dir call k d \<Longrightarrow>
     score_loop_dir call a k tr
       = score_loop_dir call (a + d) (calls_after call k d) (tr @ retry_trace_dir call a k d)"
proof (induction d arbitrary: a k tr)
  case 0
  then show ?case by simp
next
  case (Suc d)
  define n where "n = snd (call_dir call k)"
  define out where "out = fst (call_dir call k)"
  have r: "retried_dir out" and rest: "all_retried_dir call (k + n) d"
    using Suc.prems(2) by (simp_all add: n_def out_def)
  have "score_loop_dir call a k tr
          = score_loop_dir call (Suc a) (k + n) (tr @ replicate n Request @ [Sleep (delay out a)])"
    using Suc.prems(1)
    by (subst score_loop_dir_step) (simp add: turn_of_dir_retried [OF r] n_def [symmetric] out_def [symmetric])
  also have "\<dots> = score_loop_dir call (Suc a + d) (calls_after call (k + n) d)
                     ((tr @ replicate n Request @ [Sleep (delay out a)])
                      @ retry_trace_dir call (Suc a) (k + n) d)"
    using Suc.prems(1) rest by (intro Suc.IH) auto
  finally show ?case
    by (simp add: n_def out_def)
qed



lemma retry_trace_sleeps: "length (filter is_sleep (retry_trace call a d)) = d"
  by (induction d arbitrary: a) simp_all

lemma retry_trace_requests: "length (filter (\<lambda>ev. ev = Request) (retry_trace call a d)) = d"
  by (induction d arbitrary: a) simp_all

lemma retry_trace_dir_sleeps: "length (filter is_sleep (retry_trace_dir call a k d)) = d"
proof (induction d arbitrary: a k)
  case 0
  then show ?case by simp
next
  case (Suc d)
  have "filter is_sleep (replicate n Request) = []" for n
    by (induction n) simp_all
  then show ?case
    by (simp add: Suc.IH)
qed

text \<open>Outcomes for the examples: a reply that is no JSON, and a rate limit.\<close>

lemma extract_result_no: "extract_result (lit ''no'') = Inr None"
proof -
  have c: "cleanJsonString (lit ''no'') = lit ''no''"
    by (simp add: cleanJsonString_def strip_fence_json_def strip_fence_open_def
        strip_fence_close_def straighten_quote_def string_defs)
  have l: "json_lex (lit ''no'') = None"
    by (simp add: lit_def startsWith_def json_ws_def is_digit_def next_token_def structural_def
        literal_token_def)
  have s: "salvage (lit ''no'') = lit ''no''"
    by (simp add: salvage_def brace_match_def tryRepairs_def lit_def)
  show ?thesis
    by (simp add: extract_result_def c s json_parse_def safeParseJson_def l coerce_cases)
qed

lemma malformed_no:
  "malformed (Reply [\<lparr>block_type = lit ''text'', block_text = Some (lit ''no'')\<rparr>])"
  by (simp add: malformed_def raw_text_def extract_result_no)

lemma busy_rate_limited:
  "rate_limited \<lparr>error_type = JStr (lit ''rate_limit_error''), error_message = JUndefined,
       name = JUndefined, message = JStr (lit ''busy''), as_string = lit ''Error: busy'',
       status = Some 429, retry_after = None\<rparr>"
  "rate_limited_dir \<lparr>error_type = JStr (lit ''rate_limit_error''), error_message = JUndefined,
       name = JUndefined, message = JStr (lit ''busy''), as_string = lit ''Error: busy'',
       status = Some 429, retry_after = None\<rparr>"
  "maybeIncompatible \<lparr>error_type = JStr (lit ''rate_limit_error''), error_message = JUndefined,
       name = JUndefined, message = JStr (lit ''busy''), as_string = lit ''Error: busy'',
       status = Some 429, retry_after = None\<rparr> = Inr False"
  by (simp_all add: catch_defs lit_def startsWith_def toLowerCase_def lower_unit_def)

lemma retryAfterMs_default: "retry_after e = None \<Longrightarrow> retryAfterMs e a = Fin (2000 * (of_nat a + 1))"
  by (simp add: retryAfterMs_def)

lemma filter_request_replicate [simp]:
  "filter (\<lambda>ev. ev = Request) (replicate m Request) = replicate m Request"
  by (induction m) simp_all

lemma retry_trace_dir_requests:
  "k + length (filter (\<lambda>ev. ev = Request) (retry_trace_dir call a k d)) = calls_after call k d"
proof (induction d arbitrary: a k)
  case 0
  then show ?case by simp
next
  case (Suc d)
  show ?case
    using Suc [of "k + snd (call_dir call k)" "Suc a"] by simp
qed

lemma call_dir_calls: "1 \<le> snd (call_dir call k) \<and> snd (call_dir call k) \<le> 2"
  by (simp add: call_dir_def split: outcome.split sum.split)

section \<open>Claims about the coercer\<close>

text \<open>
  C1, as the code has it. For an object whose label does not normalize (\<open>normalizeLabel\<close>
  returns null) and whose score parses to a number \<open>s\<close> other than NaN, the coercer
  returns a record with score \<open>s\<close> and the label read off \<open>s\<close>: at most -0.6 is
  VeryBearish, strictly between -0.6 and -0.2
  is Bearish, from -0.2 to 0.2 inclusive is Neutral, strictly between 0.2 and 0.6 is
  Bullish, at least 0.6 is VeryBullish. The buckets mirror each other around 0, and the
  score -0.2 itself is Neutral.
\<close>

theorem infer_label_thresholds:
  assumes "truthy obj" and "typeof_object obj"
    and "normalizeLabel (getProp obj (lit ''label'')) = Inr None"
    and "parseScore (getProp obj (lit ''score'')) = Some s" and "s \<noteq> NaN"
  shows "\<exists>r. coerceSentimentShape obj = Inr (Some r) \<and> score r = s \<and>
      (num_le s (Fin (- 6 / 10)) \<longrightarrow> label r = VeryBearish) \<and>
      (num_lt (Fin (- 6 / 10)) s \<and> num_lt s (Fin (- 2 / 10)) \<longrightarrow> label r = Bearish) \<and>
      (num_le (Fin (- 2 / 10)) s \<and> num_le s (Fin (2 / 10)) \<longrightarrow> label r = Neutral) \<and>
      (num_lt (Fin (2 / 10)) s \<and> num_lt s (Fin (6 / 10)) \<longrightarrow> label r = Bullish) \<and>
      (num_le (Fin (6 / 10)) s \<longrightarrow> label r = VeryBullish)"
  using assms by (cases s) (auto simp: coerce_cases infer_label_def)

theorem infer_label_thresholds_witness:
  "\<exists>r. coerceSentimentShape (JObj [(lit ''score'', JNum (Fin (- 59 / 100)))]) = Inr (Some r)
       \<and> score r = Fin (- 59 / 100) \<and> label r = Bearish"
proof -
  let ?obj = "JObj [(lit ''score'', JNum (Fin (- 59 / 100)))]"
  have h1: "truthy ?obj" and h2: "typeof_object ?obj"
    by simp_all
  have h3: "normalizeLabel (getProp ?obj (lit ''label'')) = Inr None"
    by (simp add: normalizeLabel_def lit_def)
  have h4: "parseScore (getProp ?obj (lit ''score'')) = Some (Fin (- 59 / 100))"
    by (simp add: parseScore_def lit_def)
  have h5: "Fin (- 59 / 100) \<noteq> NaN"
    by simp
  from infer_label_thresholds [OF h1 h2 h3 h4 h5] show ?thesis
    by auto
qed

text \<open>
  C1 as stated fails at the score -0.2: the claim makes it Bearish, the code makes it
  Neutral (\<^verbatim>\<open>scoreNum < -0.2\<close> is false there, \<^verbatim>\<open>scoreNum <= 0.2\<close> is true).
\<close>

theorem infer_label_minus_point_two:
  "normalizeLabel (getProp (JObj [(lit ''score'', JNum (Fin (- 2 / 10)))]) (lit ''label''))
       = Inr None
   \<and> parseScore (getProp (JObj [(lit ''score'', JNum (Fin (- 2 / 10)))]) (lit ''score''))
       = Some (Fin (- 2 / 10))
   \<and> coerceSentimentShape (JObj [(lit ''score'', JNum (Fin (- 2 / 10)))])
       = Inr (Some \<lparr>label = Neutral, score = Fin (- 2 / 10), summary = JStr [], tickers = []\<rparr>)"
  by (simp add: coerce_cases coerce_defs lit_def)

text \<open>
  C2, as the code has it. A number is returned as it is. A string whose numeric value
  \<open>q\<close> lies in (1, 100] or in [-100, -1) gives \<open>q / 100\<close>. A string that ends in a
  percent sign (after trimming) and whose numeric part has the value \<open>q\<close> gives
  \<open>q / 100\<close> clamped to [-1, 1], and whatever such a string gives lies in [-1, 1].
\<close>

theorem parseScore_rescale:
  "parseScore (JNum n) = Some n
   \<and> (js_Number v = Fin q \<and> ((1 < q \<and> q \<le> 100) \<or> (- 100 \<le> q \<and> q < - 1))
      \<longrightarrow> parseScore (JStr v) = Some (Fin (q / 100)))
   \<and> (endsWith (trim v) (lit ''%'') \<and> js_Number (butlast (trim v)) = Fin q
      \<longrightarrow> parseScore (JStr v) = Some (Fin (max (- 1) (min 1 (q / 100)))))
   \<and> (endsWith (trim v) (lit ''%'') \<and> parseScore (JStr v) = Some x
      \<longrightarrow> num_le (Fin (- 1)) x \<and> num_le x (Fin 1))"
proof -
  have a: "parseScore (JNum n) = Some n"
    by (simp add: parseScore_def)
  have b: "parseScore (JStr v) = Some (Fin (q / 100))"
    if "js_Number v = Fin q" and "(1 < q \<and> q \<le> 100) \<or> (- 100 \<le> q \<and> q < - 1)"
  proof -
    have "js_Number (trim v) = Fin q"
      using that(1) by (simp add: js_Number_trim)
    moreover have "\<not> endsWith (trim v) (lit ''%'')"
      using that(1) by (intro js_Number_no_percent) simp
    ultimately show ?thesis
      using that(2) by (auto simp: parseScore_def Let_def)
  qed
  have c: "parseScore (JStr v) = Some (Fin (max (- 1) (min 1 (q / 100))))"
    if "endsWith (trim v) (lit ''%'')" and "js_Number (butlast (trim v)) = Fin q"
    using that by (auto simp: parseScore_def Let_def js_min_def js_max_def)
  have d: "num_le (Fin (- 1)) x \<and> num_le x (Fin 1)"
    if "endsWith (trim v) (lit ''%'')" and "parseScore (JStr v) = Some x"
    using that
    by (cases "js_Number (butlast (trim v))")
       (auto simp: parseScore_def Let_def js_min_def js_max_def split: if_splits)
  from a b c d show ?thesis
    by blast
qed

theorem parseScore_rescale_witness:
  "parseScore (JStr (lit ''80'')) = Some (Fin (8 / 10))
   \<and> parseScore (JStr (lit ''-50'')) = Some (Fin (- 5 / 10))
   \<and> parseScore (JStr (lit ''75%'')) = Some (Fin (75 / 100))
   \<and> parseScore (JStr (lit ''250%'')) = Some (Fin 1)"
proof -
  have n1: "js_Number (lit ''80'') = Fin 80" and n2: "js_Number (lit ''-50'') = Fin (- 50)"
    by (simp_all add: number_defs string_defs)
  have p1: "endsWith (trim (lit ''75%'')) (lit ''%'')"
    and p2: "endsWith (trim (lit ''250%'')) (lit ''%'')"
    by (simp_all add: string_defs)
  have n3: "js_Number (butlast (trim (lit ''75%''))) = Fin 75"
    and n4: "js_Number (butlast (trim (lit ''250%''))) = Fin 250"
    by (simp_all add: number_defs string_defs)
  show ?thesis
    using parseScore_rescale [of "Fin 80" "lit ''80''" 80 NaN]
      parseScore_rescale [of "Fin 80" "lit ''-50''" "- 50" NaN]
      parseScore_rescale [of "Fin 80" "lit ''75%''" 75 NaN]
      parseScore_rescale [of "Fin 80" "lit ''250%''" 250 NaN]
      n1 n2 n3 n4 p1 p2
    by simp
qed

text \<open>
  C2 as stated fails for a score given as a number: \<^verbatim>\<open>parseScore(80)\<close> is 80, for the
  function returns every number at once (\<^verbatim>\<open>typeof val === 'number'\<close>); only strings
  are rescaled.
\<close>

theorem parseScore_number_unscaled:
  "parseScore (JNum (Fin 80)) = Some (Fin 80) \<and> parseScore (JNum (Fin 80)) \<noteq> Some (Fin (80 / 100))"
  by (simp add: parseScore_def)

text \<open>
  The gate of the coercer. A record comes back only for an object whose score parses to
  a number other than NaN, with the label that \<open>normalizeLabel\<close> has returned or, when
  that is null, the one inferred from the score. Where \<open>normalizeLabel\<close> returns and the
  score does not parse to such a number, the result is null; so it is for null and for
  everything that is not an object. The coercer throws exactly when the label is truthy
  and its conversion to a string throws.
\<close>

lemma coerce_gate:
  "(coerceSentimentShape obj = Inr (Some r) \<longrightarrow>
      truthy obj \<and> typeof_object obj
      \<and> parseScore (getProp obj (lit ''score'')) = Some (score r) \<and> score r \<noteq> NaN
      \<and> (normalizeLabel (getProp obj (lit ''label'')) = Inr (Some (label r))
         \<or> normalizeLabel (getProp obj (lit ''label'')) = Inr None
           \<and> label r = infer_label (score r)))
   \<and> (normalizeLabel (getProp obj (lit ''label'')) = Inr l
        \<and> (parseScore (getProp obj (lit ''score'')) = None
           \<or> parseScore (getProp obj (lit ''score'')) = Some NaN)
      \<longrightarrow> coerceSentimentShape obj = Inr None)
   \<and> (obj = JNull \<or> \<not> typeof_object obj \<longrightarrow> coerceSentimentShape obj = Inr None)
   \<and> (coerceSentimentShape obj = Inl err \<longleftrightarrow>
        truthy obj \<and> typeof_object obj \<and> truthy (getProp obj (lit ''label''))
        \<and> js_String (getProp obj (lit ''label'')) = Inl err)"
proof -
  have a: "coerceSentimentShape obj = Inr (Some r) \<longrightarrow>
      truthy obj \<and> typeof_object obj
      \<and> parseScore (getProp obj (lit ''score'')) = Some (score r) \<and> score r \<noteq> NaN
      \<and> (normalizeLabel (getProp obj (lit ''label'')) = Inr (Some (label r))
         \<or> normalizeLabel (getProp obj (lit ''label'')) = Inr None
           \<and> label r = infer_label (score r))"
    by (auto simp: coerce_cases split: option.splits if_splits sum.splits)
  have b: "normalizeLabel (getProp obj (lit ''label'')) = Inr l
        \<and> (parseScore (getProp obj (lit ''score'')) = None
           \<or> parseScore (getProp obj (lit ''score'')) = Some NaN)
      \<longrightarrow> coerceSentimentShape obj = Inr None"
    by (auto simp: coerce_cases)
  have c: "obj = JNull \<or> \<not> typeof_object obj \<longrightarrow> coerceSentimentShape obj = Inr None"
    by (auto simp: coerce_cases)
  have d: "coerceSentimentShape obj = Inl err \<longleftrightarrow>
        truthy obj \<and> typeof_object obj \<and> truthy (getProp obj (lit ''label''))
        \<and> js_String (getProp obj (lit ''label'')) = Inl err"
    by (simp add: coerce_throws normalizeLabel_throws)
  from a b c d show ?thesis
    by blast
qed

text \<open>
  C3 fails on the code for a label that is an object with a key \<^verbatim>\<open>toString\<close>, as in
  \<^verbatim>\<open>{"label": {"toString": 1}, "score": "x"}\<close>: no label normalizes and the score does
  not parse, so the claim has the result null, but \<^verbatim>\<open>String(label)\<close> in
  \<^verbatim>\<open>normalizeLabel\<close> throws a \<^verbatim>\<open>TypeError\<close> and the coercer with it. The caller tests
  the result with \<^verbatim>\<open>if (!result)\<close> before it tries its repairs, which the exception
  skips. The label \<^verbatim>\<open>constructor\<close> is a second slip of the same function: the lookup
  \<^verbatim>\<open>map[k]\<close> finds the inherited \<^verbatim>\<open>Object.prototype.constructor\<close>, and the gate lets a
  record through whose label is neither normalized nor inferred.
\<close>

theorem coerce_throws_on_label_object:
  "parseScore (JStr (lit ''x'')) = None
   \<and> coerceSentimentShape
       (JObj [(lit ''label'', JObj [(lit ''toString'', JNum (Fin 1))]),
              (lit ''score'', JStr (lit ''x''))])
     = Inl (TypeError (lit ''Cannot convert object to primitive value''))
   \<and> coerceSentimentShape
       (JObj [(lit ''label'', JStr (lit ''constructor'')), (lit ''score'', JNum (Fin (5 / 10)))])
     = Inr (Some \<lparr>label = ObjectConstructor, score = Fin (5 / 10), summary = JStr [],
                   tickers = []\<rparr>)"
proof -
  have p: "parseScore (JStr (lit ''x'')) = None"
    by (simp add: parseScore_def number_defs string_defs)
  have l: "normalizeLabel (JObj [(lit ''toString'', JNum (Fin 1))]) = Inl cannot_convert"
    by (simp add: normalizeLabel_def)
  have c: "normalizeLabel (JStr (lit ''constructor'')) = Inr (Some ObjectConstructor)"
    by (simp add: normalizeLabel_def table_lookup_def label_table_def string_defs)
  show ?thesis
    using p l c
    by (simp add: coerce_cases summary_of_def coerce_tickers_def cannot_convert_def lit_def)
qed

theorem coerce_throws_on_label_object_witness:
  "coerceSentimentShape
       (JObj [(lit ''label'', JObj [(lit ''toString'', JNum (Fin 1))]),
              (lit ''score'', JStr (lit ''x''))])
     \<noteq> Inr None
   \<and> label \<lparr>label = ObjectConstructor, score = Fin (5 / 10), summary = JStr [],
              tickers = []\<rparr>
       \<noteq> infer_label (Fin (5 / 10))"
  using coerce_throws_on_label_object by (simp add: infer_label_def)

text \<open>
  C7, as the code has it. Every key of the coerced tickers is a non-empty string of at
  most 6 upper-case letters and digits. An entry of an input mapping stores a record
  under its normalized key when the key passes the shape filter and the value is null
  (score 0, empty explanation), or is a number or string with a parseable score, or is
  an object whose \<^verbatim>\<open>score\<close> field parses; an entry of an input array does so when it is
  an object with a key that passes the filter and a \<^verbatim>\<open>score\<close> field that parses. Every
  other entry is dropped. The result holds, for each key, what the last entry that stores
  under that key has stored, and nothing else; tickers that are neither a mapping nor an
  array give the empty result.
\<close>

theorem tickers_filtered:
  assumes "coerceSentimentShape obj = Inr (Some r)"
  shows "(\<forall>k \<in> fst ` set (tickers r). k \<noteq> [] \<and> length k \<le> 6 \<and> list_all is_AZ09 k)
     \<and> (getProp obj (lit ''tickers'') = JObj kvs \<longrightarrow>
          (map_of (tickers r) k = Some t \<longleftrightarrow>
             (\<exists>pre rawKey rawVal post.
                 entries kvs = pre @ (rawKey, rawVal) # post
                 \<and> normalizeTickerKey (JStr rawKey) = Some k \<and> value_ticker rawVal = Some t
                 \<and> (\<forall>(rk, rv) \<in> set post.
                       normalizeTickerKey (JStr rk) = Some k \<longrightarrow> value_ticker rv = None))))
     \<and> (getProp obj (lit ''tickers'') = JArr xs \<longrightarrow>
          (map_of (tickers r) k = Some t \<longleftrightarrow>
             (\<exists>pre entry post.
                 xs = pre @ entry # post \<and> entry_ticker entry = Some (k, t)
                 \<and> (\<forall>e \<in> set post. \<forall>t'. entry_ticker e \<noteq> Some (k, t')))))
     \<and> (getProp obj (lit ''tickers'') = JNull \<or> \<not> typeof_object (getProp obj (lit ''tickers''))
          \<longrightarrow> tickers r = [])
     \<and> value_ticker JNull = Some \<lparr>tscore = Fin 0, explanation = []\<rparr>
     \<and> (rawVal \<noteq> JNull \<and> rawVal \<noteq> JUndefined \<longrightarrow>
          (value_ticker rawVal = Some t \<longleftrightarrow>
             tscore t \<noteq> NaN \<and> explanation t = explanation_of rawVal
             \<and> (parseScore rawVal = Some (tscore t)
                \<or> parseScore (getProp rawVal (lit ''score'')) = Some (tscore t))))
     \<and> (entry_ticker entry = Some (k, t) \<longleftrightarrow>
          truthy entry \<and> typeof_object entry
          \<and> normalizeTickerKey
               (js_or (js_or (getProp entry (lit ''ticker'')) (getProp entry (lit ''symbol'')))
                      (getProp entry (lit ''code''))) = Some k
          \<and> parseScore (getProp entry (lit ''score'')) = Some (tscore t) \<and> tscore t \<noteq> NaN
          \<and> explanation t = explanation_of entry)"
proof -
  have tk: "tickers r = coerce_tickers (getProp obj (lit ''tickers''))"
    using assms by (auto simp: coerce_cases split: option.splits if_splits sum.splits)
  have shape: "\<forall>k \<in> fst ` set (tickers r). k \<noteq> [] \<and> length k \<le> 6 \<and> list_all is_AZ09 k"
    unfolding tk using coerce_tickers_shape by blast
  have obj: "map_of (tickers r) k = Some t \<longleftrightarrow>
             (\<exists>pre rawKey rawVal post.
                 entries kvs = pre @ (rawKey, rawVal) # post
                 \<and> normalizeTickerKey (JStr rawKey) = Some k \<and> value_ticker rawVal = Some t
                 \<and> (\<forall>(rk, rv) \<in> set post.
                       normalizeTickerKey (JStr rk) = Some k \<longrightarrow> value_ticker rv = None))"
    if "getProp obj (lit ''tickers'') = JObj kvs"
  proof -
    have "map_of (tickers r) k = Some t \<longleftrightarrow> last_hit (stored_at k) (entries kvs) = Some t"
      unfolding tk that coerce_tickers_def jsval.case object_tickers_map
      by (simp split: option.splits)
    also have "\<dots> \<longleftrightarrow>
         (\<exists>pre x post. entries kvs = pre @ x # post
             \<and> normalizeTickerKey (JStr (fst x)) = Some k \<and> value_ticker (snd x) = Some t
             \<and> (\<forall>y \<in> set post.
                   normalizeTickerKey (JStr (fst y)) = Some k \<longrightarrow> value_ticker (snd y) = None))"
      unfolding last_hit_Some stored_at_Some stored_at_None by (simp add: conj_assoc)
    also have "\<dots> \<longleftrightarrow>
         (\<exists>pre rawKey rawVal post.
                 entries kvs = pre @ (rawKey, rawVal) # post
                 \<and> normalizeTickerKey (JStr rawKey) = Some k \<and> value_ticker rawVal = Some t
                 \<and> (\<forall>(rk, rv) \<in> set post.
                       normalizeTickerKey (JStr rk) = Some k \<longrightarrow> value_ticker rv = None))"
      by (simp add: split_beta)
    finally show ?thesis .
  qed
  have arr: "map_of (tickers r) k = Some t \<longleftrightarrow>
             (\<exists>pre entry post.
                 xs = pre @ entry # post \<and> entry_ticker entry = Some (k, t)
                 \<and> (\<forall>e \<in> set post. \<forall>t'. entry_ticker e \<noteq> Some (k, t')))"
    if "getProp obj (lit ''tickers'') = JArr xs"
  proof -
    have "map_of (tickers r) k = Some t \<longleftrightarrow> last_hit (entry_at k) xs = Some t"
      unfolding tk that coerce_tickers_def jsval.case array_tickers_map
      by (simp split: option.splits)
    then show ?thesis
      unfolding last_hit_Some entry_at_Some entry_at_None .
  qed
  have other: "tickers r = []"
    if "getProp obj (lit ''tickers'') = JNull \<or> \<not> typeof_object (getProp obj (lit ''tickers''))"
    using that unfolding tk by (cases "getProp obj (lit ''tickers'')") (simp_all add: coerce_tickers_def)
  have vnull: "value_ticker JNull = Some \<lparr>tscore = Fin 0, explanation = []\<rparr>"
    by (simp add: value_ticker_def)
  have val: "value_ticker rawVal = Some t \<longleftrightarrow>
             tscore t \<noteq> NaN \<and> explanation t = explanation_of rawVal
             \<and> (parseScore rawVal = Some (tscore t)
                \<or> parseScore (getProp rawVal (lit ''score'')) = Some (tscore t))"
    if "rawVal \<noteq> JNull \<and> rawVal \<noteq> JUndefined"
    using that
    by (cases rawVal; cases t)
       (auto simp: value_ticker_def explanation_of_def split: option.splits)
  have ent: "entry_ticker entry = Some (k, t) \<longleftrightarrow>
          truthy entry \<and> typeof_object entry
          \<and> normalizeTickerKey
               (js_or (js_or (getProp entry (lit ''ticker'')) (getProp entry (lit ''symbol'')))
                      (getProp entry (lit ''code''))) = Some k
          \<and> parseScore (getProp entry (lit ''score'')) = Some (tscore t) \<and> tscore t \<noteq> NaN
          \<and> explanation t = explanation_of entry"
    by (cases t) (auto simp: entry_ticker_def split: option.splits)
  from shape obj arr other vnull val ent show ?thesis
    by blast
qed

theorem tickers_filtered_witness:
  "coerceSentimentShape
       (JObj [(lit ''score'', JNum (Fin (5 / 10))),
              (lit ''tickers'',
                 JObj [(lit ''aapl'', JNull),
                       (lit ''bad-key'', JNum (Fin 1)),
                       (lit ''msft'', JStr (lit ''soon'')),
                       (lit ''AAPL'', JNum (Fin (1 / 10)))])])
     = Inr (Some \<lparr>label = Bullish, score = Fin (5 / 10), summary = JStr [],
                   tickers = [(lit ''AAPL'', \<lparr>tscore = Fin (1 / 10), explanation = []\<rparr>)]\<rparr>)
   \<and> (\<exists>pre rawKey rawVal post.
         [(lit ''aapl'', JNull), (lit ''bad-key'', JNum (Fin 1)),
          (lit ''msft'', JStr (lit ''soon'')), (lit ''AAPL'', JNum (Fin (1 / 10)))]
           = pre @ (rawKey, rawVal) # post
         \<and> normalizeTickerKey (JStr rawKey) = Some (lit ''AAPL'')
         \<and> value_ticker rawVal = Some \<lparr>tscore = Fin (1 / 10), explanation = []\<rparr>
         \<and> (\<forall>(rk, rv) \<in> set post.
               normalizeTickerKey (JStr rk) = Some (lit ''AAPL'') \<longrightarrow> value_ticker rv = None))
   \<and> list_all is_AZ09 (lit ''AAPL'')
   \<and> coerceSentimentShape
       (JObj [(lit ''score'', JNum (Fin (5 / 10))),
              (lit ''tickers'',
                 JArr [JObj [(lit ''symbol'', JStr (lit ''msft'')),
                             (lit ''score'', JStr (lit ''80%'')),
                             (lit ''explanation'', JStr (lit ''up''))],
                       JObj [(lit ''ticker'', JStr (lit ''msft''))],
                       JNum (Fin 5)])])
     = Inr (Some \<lparr>label = Bullish, score = Fin (5 / 10), summary = JStr [],
                   tickers = [(lit ''MSFT'', \<lparr>tscore = Fin (8 / 10),
                                               explanation = lit ''up''\<rparr>)]\<rparr>)
   \<and> (\<exists>pre entry post.
         [JObj [(lit ''symbol'', JStr (lit ''msft'')), (lit ''score'', JStr (lit ''80%'')),
                (lit ''explanation'', JStr (lit ''up''))],
          JObj [(lit ''ticker'', JStr (lit ''msft''))], JNum (Fin 5)]
           = pre @ entry # post
         \<and> entry_ticker entry
             = Some (lit ''MSFT'', \<lparr>tscore = Fin (8 / 10), explanation = lit ''up''\<rparr>)
         \<and> (\<forall>e \<in> set post. \<forall>t'. entry_ticker e \<noteq> Some (lit ''MSFT'', t')))"
proof -
  define tk where
    "tk = [(lit ''aapl'', JNull), (lit ''bad-key'', JNum (Fin 1)),
           (lit ''msft'', JStr (lit ''soon'')), (lit ''AAPL'', JNum (Fin (1 / 10)))]"
  define obj where "obj = JObj [(lit ''score'', JNum (Fin (5 / 10))), (lit ''tickers'', JObj tk)]"
  define t where "t = \<lparr>tscore = Fin (1 / 10), explanation = []\<rparr>"
  define r where
    "r = \<lparr>label = Bullish, score = Fin (5 / 10), summary = JStr [],
          tickers = [(lit ''AAPL'', t)]\<rparr>"
  define xs where
    "xs = [JObj [(lit ''symbol'', JStr (lit ''msft'')), (lit ''score'', JStr (lit ''80%'')),
                 (lit ''explanation'', JStr (lit ''up''))],
           JObj [(lit ''ticker'', JStr (lit ''msft''))], JNum (Fin 5)]"
  define obj2 where
    "obj2 = JObj [(lit ''score'', JNum (Fin (5 / 10))), (lit ''tickers'', JArr xs)]"
  define t2 where "t2 = \<lparr>tscore = Fin (8 / 10), explanation = lit ''up''\<rparr>"
  define r2 where
    "r2 = \<lparr>label = Bullish, score = Fin (5 / 10), summary = JStr [],
           tickers = [(lit ''MSFT'', t2)]\<rparr>"
  have k1: "normalizeTickerKey (JStr (lit ''aapl'')) = Some (lit ''AAPL'')"
    by (simp add: normalizeTickerKey_def ticker_shape_def is_AZ09_def string_defs)
  have k2: "normalizeTickerKey (JStr (lit ''bad-key'')) = None"
    by (simp add: normalizeTickerKey_def ticker_shape_def is_AZ09_def string_defs)
  have k3: "normalizeTickerKey (JStr (lit ''msft'')) = Some (lit ''MSFT'')"
    by (simp add: normalizeTickerKey_def ticker_shape_def is_AZ09_def string_defs)
  have k4: "normalizeTickerKey (JStr (lit ''AAPL'')) = Some (lit ''AAPL'')"
    by (simp add: normalizeTickerKey_def ticker_shape_def is_AZ09_def string_defs)
  have s3: "parseScore (JStr (lit ''soon'')) = None"
    by (simp add: parseScore_def number_defs string_defs)
  have s4: "parseScore (JStr (lit ''80%'')) = Some (Fin (8 / 10))"
    by (simp add: parseScore_def number_defs string_defs)
  have e: "entries tk = tk"
    by (simp add: entries_def is_array_index_def is_digit_def tk_def lit_def)
  have ct: "coerce_tickers (JObj tk) = [(lit ''AAPL'', t)]"
    unfolding coerce_tickers_def jsval.case e
    by (simp add: tk_def t_def k1 k2 k3 k4 s3)
  have ct2: "coerce_tickers (JArr xs) = [(lit ''MSFT'', t2)]"
    unfolding coerce_tickers_def jsval.case
    by (simp add: xs_def t2_def js_or_def explanation_of_def k3 s4)
  have g: "coerceSentimentShape obj = Inr (Some r)"
    unfolding obj_def r_def
    by (simp add: coerce_cases ct infer_label_def summary_of_def)
  have g2: "coerceSentimentShape obj2 = Inr (Some r2)"
    unfolding obj2_def r2_def
    by (simp add: coerce_cases ct2 infer_label_def summary_of_def)
  have p: "getProp obj (lit ''tickers'') = JObj tk"
    by (simp add: obj_def lit_def)
  have p2: "getProp obj2 (lit ''tickers'') = JArr xs"
    by (simp add: obj2_def lit_def)
  have m: "map_of (tickers r) (lit ''AAPL'') = Some t"
    by (simp add: r_def)
  have m2: "map_of (tickers r2) (lit ''MSFT'') = Some t2"
    by (simp add: r2_def)
  have a: "\<exists>pre rawKey rawVal post.
         tk = pre @ (rawKey, rawVal) # post
         \<and> normalizeTickerKey (JStr rawKey) = Some (lit ''AAPL'')
         \<and> value_ticker rawVal = Some t
         \<and> (\<forall>(rk, rv) \<in> set post.
               normalizeTickerKey (JStr rk) = Some (lit ''AAPL'') \<longrightarrow> value_ticker rv = None)"
    using tickers_filtered [OF g, of tk "lit ''AAPL''" t] p m e by simp
  have b: "list_all is_AZ09 (lit ''AAPL'')"
    using tickers_filtered [OF g] by (simp add: r_def)
  have c: "\<exists>pre entry post.
         xs = pre @ entry # post \<and> entry_ticker entry = Some (lit ''MSFT'', t2)
         \<and> (\<forall>e \<in> set post. \<forall>t'. entry_ticker e \<noteq> Some (lit ''MSFT'', t'))"
    using tickers_filtered [OF g2, of _ "lit ''MSFT''" t2 xs,
        THEN conjunct2, THEN conjunct2, THEN conjunct1] p2 m2
    by simp
  from g a b g2 c have "coerceSentimentShape obj = Inr (Some r)
     \<and> (\<exists>pre rawKey rawVal post.
         tk = pre @ (rawKey, rawVal) # post
         \<and> normalizeTickerKey (JStr rawKey) = Some (lit ''AAPL'')
         \<and> value_ticker rawVal = Some t
         \<and> (\<forall>(rk, rv) \<in> set post.
               normalizeTickerKey (JStr rk) = Some (lit ''AAPL'') \<longrightarrow> value_ticker rv = None))
     \<and> list_all is_AZ09 (lit ''AAPL'')
     \<and> coerceSentimentShape obj2 = Inr (Some r2)
     \<and> (\<exists>pre entry post.
         xs = pre @ entry # post \<and> entry_ticker entry = Some (lit ''MSFT'', t2)
         \<and> (\<forall>e \<in> set post. \<forall>t'. entry_ticker e \<noteq> Some (lit ''MSFT'', t')))"
    by simp
  then show ?thesis
    by (simp only: obj_def tk_def r_def t_def obj2_def xs_def r2_def t2_def)
qed

text \<open>
  C7 as stated fails for a null value: it has no parseable score, yet the entry is kept,
  with score 0 and an empty explanation (\<^verbatim>\<open>if (rawVal == null)\<close>, line 139).
\<close>

theorem tickers_null_value_kept:
  "parseScore JNull = None
   \<and> parseScore (getProp JNull (lit ''score'')) = None
   \<and> coerceSentimentShape
       (JObj [(lit ''score'', JNum (Fin (5 / 10))), (lit ''tickers'', JObj [(lit ''AAPL'', JNull)])])
     = Inr (Some \<lparr>label = Bullish, score = Fin (5 / 10), summary = JStr [],
                   tickers = [(lit ''AAPL'', \<lparr>tscore = Fin 0, explanation = []\<rparr>)]\<rparr>)"
proof -
  have k: "normalizeTickerKey (JStr (lit ''AAPL'')) = Some (lit ''AAPL'')"
    by (simp add: normalizeTickerKey_def ticker_shape_def is_AZ09_def string_defs)
  have e: "entries [(lit ''AAPL'', JNull)] = [(lit ''AAPL'', JNull)]"
    by (simp add: entries_def is_array_index_def is_digit_def lit_def)
  have t: "coerce_tickers (JObj [(lit ''AAPL'', JNull)])
             = [(lit ''AAPL'', \<lparr>tscore = Fin 0, explanation = []\<rparr>)]"
    unfolding coerce_tickers_def jsval.case e
    by (simp add: k)
  show ?thesis
    by (simp add: coerce_cases t infer_label_def summary_of_def)
qed

text \<open>
  C8, as the code has it. The summary of the coerced record is the first of the fields
  \<^verbatim>\<open>summary\<close>, \<^verbatim>\<open>reason\<close> and \<^verbatim>\<open>explanation\<close> that is a string, empty or not, and the
  empty string when none of them is a string.
\<close>

theorem summary_first_string:
  assumes "coerceSentimentShape obj = Inr (Some r)"
  shows "(\<forall>s. getProp obj (lit ''summary'') = JStr s \<longrightarrow> summary r = JStr s)
     \<and> (\<not> typeof_string (getProp obj (lit ''summary'')) \<longrightarrow>
          (\<forall>s. getProp obj (lit ''reason'') = JStr s \<longrightarrow> summary r = JStr s))
     \<and> (\<not> typeof_string (getProp obj (lit ''summary''))
          \<and> \<not> typeof_string (getProp obj (lit ''reason'')) \<longrightarrow>
          (\<forall>s. getProp obj (lit ''explanation'') = JStr s \<longrightarrow> summary r = JStr s))
     \<and> (\<not> typeof_string (getProp obj (lit ''summary''))
          \<and> \<not> typeof_string (getProp obj (lit ''reason''))
          \<and> \<not> typeof_string (getProp obj (lit ''explanation'')) \<longrightarrow> summary r = JStr [])"
proof -
  have s: "summary r = JStr (case summary_of obj of None \<Rightarrow> [] | Some s \<Rightarrow> s)"
    using assms by (auto simp: coerce_cases split: option.splits if_splits sum.splits)
  show ?thesis
    unfolding s summary_of_def by (auto simp: case_not_string)
qed

theorem summary_first_string_witness:
  "coerceSentimentShape
       (JObj [(lit ''score'', JNum (Fin 0)), (lit ''summary'', JNull), (lit ''reason'', JStr (lit ''flat''))])
     = Inr (Some \<lparr>label = Neutral, score = Fin 0, summary = JStr (lit ''flat''), tickers = []\<rparr>)
   \<and> summary \<lparr>label = Neutral, score = Fin 0, summary = JStr (lit ''flat''), tickers = []\<rparr>
       = JStr (lit ''flat'')"
proof -
  define obj where
    "obj = JObj [(lit ''score'', JNum (Fin 0)), (lit ''summary'', JNull), (lit ''reason'', JStr (lit ''flat''))]"
  define r where
    "r = \<lparr>label = Neutral, score = Fin 0, summary = JStr (lit ''flat''), tickers = []\<rparr>"
  have g: "coerceSentimentShape obj = Inr (Some r)"
    unfolding obj_def r_def
    by (simp add: coerce_cases coerce_defs lit_def)
  have a: "\<not> typeof_string (getProp obj (lit ''summary''))"
    by (simp add: obj_def lit_def)
  have b: "getProp obj (lit ''reason'') = JStr (lit ''flat'')"
    by (simp add: obj_def lit_def)
  have "coerceSentimentShape obj = Inr (Some r) \<and> summary r = JStr (lit ''flat'')"
    using summary_first_string [OF g] a b g by blast
  then show ?thesis
    by (simp only: obj_def r_def)
qed

text \<open>
  C8 as stated fails when \<^verbatim>\<open>summary\<close> is the empty string and \<^verbatim>\<open>reason\<close> is not: the
  code tests \<^verbatim>\<open>typeof obj.summary === 'string'\<close>, which the empty string passes, so the
  summary stays empty.
\<close>

theorem summary_empty_string_wins:
  "coerceSentimentShape
       (JObj [(lit ''score'', JNum (Fin 0)), (lit ''summary'', JStr []), (lit ''reason'', JStr (lit ''flat''))])
     = Inr (Some \<lparr>label = Neutral, score = Fin 0, summary = JStr [], tickers = []\<rparr>)
   \<and> JStr [] \<noteq> JStr (lit ''flat'')"
  by (simp add: coerce_cases coerce_defs lit_def)

text \<open>
  A blank score. A score that is the empty string or consists of white space only
  parses to 0; when \<open>normalizeLabel\<close> returns, the object is accepted with score 0, with
  the normalized label if there is one and with Neutral otherwise.
\<close>

lemma blank_score_is_zero:
  assumes "getProp obj (lit ''score'') = JStr s" and "list_all is_ws s"
    and "normalizeLabel (getProp obj (lit ''label'')) = Inr l"
  shows "parseScore (JStr s) = Some (Fin 0)
     \<and> (\<exists>r. coerceSentimentShape obj = Inr (Some r) \<and> score r = Fin 0
            \<and> label r = (case l of None \<Rightarrow> Neutral | Some n \<Rightarrow> n))"
proof -
  have p: "parseScore (JStr s) = Some (Fin 0)"
    using assms(2) by (rule parseScore_ws)
  obtain kvs where o: "obj = JObj kvs"
    using assms(1) by (cases obj) auto
  have t: "truthy obj" "typeof_object obj"
    by (simp_all add: o)
  show ?thesis
    using p assms(1,3) t by (auto simp: coerce_cases infer_label_def split: option.splits)
qed

text \<open>
  C10 fails on the code where C3 does, and by the same slip: for
  \<^verbatim>\<open>{"label": {"toString": 1}, "score": ""}\<close> the score is blank and \<^verbatim>\<open>parseScore\<close> makes
  0 of it, there is no recognizable label, and the claim has the record accepted as
  Neutral; but \<^verbatim>\<open>String(label)\<close> throws in \<^verbatim>\<open>normalizeLabel\<close>, before the score is read,
  and no record is returned.
\<close>

theorem blank_score_label_object_throws:
  "parseScore (JStr []) = Some (Fin 0)
   \<and> coerceSentimentShape
       (JObj [(lit ''label'', JObj [(lit ''toString'', JNum (Fin 1))]), (lit ''score'', JStr [])])
     = Inl (TypeError (lit ''Cannot convert object to primitive value''))
   \<and> coerceSentimentShape (JObj [(lit ''score'', JStr [])])
     = Inr (Some \<lparr>label = Neutral, score = Fin 0, summary = JStr [], tickers = []\<rparr>)"
proof -
  have p: "parseScore (JStr []) = Some (Fin 0)"
    by (rule parseScore_ws) simp
  have l: "normalizeLabel (JObj [(lit ''toString'', JNum (Fin 1))]) = Inl cannot_convert"
    by (simp add: normalizeLabel_def)
  show ?thesis
    using p l
    by (simp add: coerce_cases summary_of_def coerce_tickers_def cannot_convert_def
        infer_label_def lit_def)
qed

theorem blank_score_label_object_throws_witness:
  "coerceSentimentShape
       (JObj [(lit ''label'', JObj [(lit ''toString'', JNum (Fin 1))]), (lit ''score'', JStr [])])
     \<noteq> Inr (Some \<lparr>label = Neutral, score = Fin 0, summary = JStr [], tickers = []\<rparr>)"
  using blank_score_label_object_throws by simp

section \<open>The lexer and white space\<close>

lemma ws_facts:
  assumes "is_ws c"
  shows "structural c = None" "c \<noteq> 0x22" "c \<noteq> 0x2D" "\<not> is_digit c" "c \<noteq> 0x5C"
    "c \<noteq> 0x2B" "c \<noteq> 0x2E" "c \<noteq> 0x65" "c \<noteq> 0x45" "c \<noteq> 0x75" "escape_char c = None"
    "\<not> is_radix_digit 16 c" "c \<noteq> 0x60" "c \<noteq> 0x74" "c \<noteq> 0x66" "c \<noteq> 0x6E"
  using assms
  by (auto simp: is_ws_def structural_def is_digit_def escape_char_def is_radix_digit_def
      digit_of_def)

lemma json_ws_is_ws: "json_ws c \<Longrightarrow> is_ws c"
  by (auto simp: json_ws_def is_ws_def)

lemma literal_token_head:
  "literal_token (c # cs) = Some (t, rest) \<Longrightarrow> c = 0x74 \<or> c = 0x66 \<or> c = 0x6E"
  by (auto simp: literal_token_def startsWith_def lit_def split: if_splits)

lemma next_token_ws: "is_ws c \<Longrightarrow> next_token (c # cs) = None"
proof -
  assume w: "is_ws c"
  have "literal_token (c # cs) = None"
    using literal_token_head [of c cs] ws_facts(14,15,16) [OF w]
    by (cases "literal_token (c # cs)") auto
  then show ?thesis
    by (simp add: next_token_def ws_facts [OF w])
qed

lemma json_lex_ws_fails: "is_ws c \<Longrightarrow> \<not> json_ws c \<Longrightarrow> json_lex (c # cs) = None"
  by (simp add: next_token_ws)

lemma json_lex_dropWhile: "json_lex s = Some ts \<Longrightarrow> json_lex (dropWhile is_ws s) = Some ts"
proof (induction s)
  case Nil
  then show ?case by simp
next
  case (Cons c cs)
  show ?case
  proof (cases "is_ws c")
    case True
    with Cons.prems have "json_ws c"
      by (metis json_lex_ws_fails option.distinct(1))
    with Cons True show ?thesis
      by simp
  next
    case False
    with Cons.prems show ?thesis
      by simp
  qed
qed

lemma json_lex_all_ws: "list_all is_ws w \<Longrightarrow> json_lex w = Some ts \<Longrightarrow> ts = []"
proof (induction w)
  case Nil
  then show ?case by simp
next
  case (Cons c cs)
  from Cons.prems(1) have "is_ws c"
    by simp
  with Cons.prems(2) have "json_ws c"
    by (metis json_lex_ws_fails option.distinct(1))
  with Cons show ?case
    by simp
qed

lemma digit_run_append:
  assumes "list_all is_ws w"
  shows "takeWhile is_digit (x @ w) = takeWhile is_digit x"
    and "dropWhile is_digit (x @ w) = dropWhile is_digit x @ w"
proof -
  have w: "takeWhile is_digit w = []" "dropWhile is_digit w = w"
    using assms by (cases w; simp add: ws_facts)+
  show "takeWhile is_digit (x @ w) = takeWhile is_digit x"
    by (induction x) (simp_all add: w)
  show "dropWhile is_digit (x @ w) = dropWhile is_digit x @ w"
    by (induction x) (simp_all add: w)
qed

text \<open>A text without white space cannot reach into a white-space suffix.\<close>

lemma take_append_ws:
  assumes "take n (a @ w) = l" and "length l = n" and "\<forall>c \<in> set l. \<not> is_ws c"
    and "list_all is_ws w"
  shows "n \<le> length a"
proof (rule ccontr)
  assume "\<not> n \<le> length a"
  then have lt: "length a < n"
    by simp
  have l: "l = a @ take (n - length a) w"
    using assms(1) lt by simp
  then have "length (take (n - length a) w) = n - length a"
    using assms(2) by (metis add_diff_cancel_left' length_append)
  with lt have "take (n - length a) w \<noteq> []"
    by auto
  then obtain c where c: "c \<in> set (take (n - length a) w)"
    by (cases "take (n - length a) w") auto
  then have "c \<in> set w"
    by (rule in_set_takeD)
  with assms(4) have "is_ws c"
    by (simp add: list_all_iff)
  moreover have "c \<in> set l"
    using c l by simp
  ultimately show False
    using assms(3) by blast
qed

lemma lex_string_all_ws: "list_all is_ws w \<Longrightarrow> lex_string w = None"
  by (induction w) (simp_all add: ws_facts)

lemma lex_escape_append:
  assumes w: "list_all is_ws w" and e: "lex_escape (a @ w) = Some (x, r)"
  shows "\<exists>r'. r = r' @ w \<and> lex_escape a = Some (x, r')"
proof (cases a)
  case Nil
  with e w show ?thesis
    by (cases w) (auto simp: lex_escape_def ws_facts)
next
  case (Cons c r0)
  show ?thesis
  proof (cases "c = 0x75")
    case True
    with e Cons have h: "4 \<le> length (r0 @ w)" "list_all (is_radix_digit 16) (take 4 (r0 @ w))"
      and x: "x = radix_val 16 (take 4 (r0 @ w))" and r: "r = drop 4 (r0 @ w)"
      by (auto simp: lex_escape_def split: if_splits)
    have "length (take 4 (r0 @ w)) = 4"
      using h(1) by simp
    moreover have "\<forall>d \<in> set (take 4 (r0 @ w)). \<not> is_ws d"
      using h(2) ws_facts(12) by (auto simp: list_all_iff)
    ultimately have "4 \<le> length r0"
      using take_append_ws [OF refl _ _ w, of 4 r0] by blast
    then show ?thesis
      using h x r Cons True by (simp add: lex_escape_def)
  next
    case False
    with e Cons show ?thesis
      by (auto simp: lex_escape_def)
  qed
qed

lemma lex_string_append:
  "list_all is_ws w \<Longrightarrow> lex_string (a @ w) = Some (str, rest) \<Longrightarrow>
     \<exists>rest'. rest = rest' @ w \<and> lex_string a = Some (str, rest')"
proof (induction a arbitrary: str rest rule: lex_string.induct)
  case 1
  then show ?case
    by (simp add: lex_string_all_ws)
next
  case (2 c cs)
  consider "c = 0x22" | "c \<noteq> 0x22" "c = 0x5C" | "c \<noteq> 0x22" "c \<noteq> 0x5C"
    by blast
  then show ?case
  proof cases
    case 1
    with "2.prems" show ?thesis
      by simp
  next
    case 2
    with "2.prems"(2) obtain x r s' where e: "lex_escape (cs @ w) = Some (x, r)"
      and l: "lex_string r = Some (s', rest)" and s: "str = x # s'"
      by (auto split: option.splits)
    from lex_escape_append [OF "2.prems"(1) e] obtain r' where r: "r = r' @ w"
      and e': "lex_escape cs = Some (x, r')"
      by blast
    from "2.IH"(1) [OF 2 e' refl "2.prems"(1) l [unfolded r]] obtain rest'
      where "rest = rest' @ w" "lex_string r' = Some (s', rest')"
      by blast
    with 2 e' s show ?thesis
      by simp
  next
    case 3
    with "2.prems"(2) have c: "\<not> c < 0x20"
      by (auto split: if_splits)
    with 3 "2.prems"(2) obtain s' where l: "lex_string (cs @ w) = Some (s', rest)"
      and s: "str = c # s'"
      by auto
    from "2.IH"(2) [OF 3 c "2.prems"(1) l] obtain rest'
      where "rest = rest' @ w" "lex_string cs = Some (s', rest')"
      by blast
    with 3 c s show ?thesis
      by simp
  qed
qed

lemma lex_fraction_append:
  assumes w: "list_all is_ws w" and f: "lex_fraction (r @ w) = Some (fp, r2)"
  shows "\<exists>r2'. r2 = r2' @ w \<and> lex_fraction r = Some (fp, r2')"
proof (cases r)
  case Nil
  with f w show ?thesis
    by (cases w) (auto simp: lex_fraction_def ws_facts)
next
  case (Cons c t)
  with f show ?thesis
    by (auto simp: lex_fraction_def digit_run_append [OF w] split: if_splits)
qed

lemma take_sign_append:
  "list_all is_ws w \<Longrightarrow> t \<noteq> [] \<Longrightarrow>
     take_sign (t @ w) = (fst (take_sign t), snd (take_sign t) @ w)"
  by (cases t) (auto simp: take_sign_def)

lemma lex_exponent_append:
  assumes w: "list_all is_ws w" and x: "lex_exponent (r @ w) = Some (e, r3)"
  shows "\<exists>r3'. r3 = r3' @ w \<and> lex_exponent r = Some (e, r3')"
proof (cases r)
  case Nil
  with x w show ?thesis
    by (cases w) (auto simp: lex_exponent_def ws_facts)
next
  case (Cons c t)
  show ?thesis
  proof (cases "c = 0x65 \<or> c = 0x45")
    case False
    with x Cons show ?thesis
      by (auto simp: lex_exponent_def)
  next
    case True
    show ?thesis
    proof (cases t)
      case Nil
      have "take_sign w = (False, w)"
        using w by (cases w) (auto simp: take_sign_def ws_facts)
      moreover have "takeWhile is_digit w = []"
        using digit_run_append(1) [OF w, of "[]"] by simp
      ultimately show ?thesis
        using x Cons True Nil by (simp add: lex_exponent_def)
    next
      case (Cons d u)
      then have "t \<noteq> []"
        by simp
      from take_sign_append [OF w this] x \<open>r = c # t\<close> True show ?thesis
        by (auto simp: lex_exponent_def Let_def split_beta digit_run_append [OF w]
            split: if_splits)
    qed
  qed
qed

lemma lex_number_append:
  assumes w: "list_all is_ws w" and n: "lex_number (a @ w) = Some (q, rest)"
  shows "\<exists>rest'. rest = rest' @ w \<and> lex_number a = Some (q, rest')"
proof -
  define neg where "neg = (a \<noteq> [] \<and> hd a = 0x2D)"
  define s1 where "s1 = (if neg then tl a else a)"
  have hw: "(case w of [] \<Rightarrow> (False, []) | c # t \<Rightarrow> if c = 0x2D then (True, t) else (False, w))
              = (False, w)"
    using w by (cases w) (auto simp: ws_facts)
  have split_aw: "(case a @ w of [] \<Rightarrow> (False, [])
                   | c # t \<Rightarrow> if c = 0x2D then (True, t) else (False, a @ w)) = (neg, s1 @ w)"
    using w by (cases a; cases w) (auto simp: neg_def s1_def ws_facts)
  have split_a: "(case a of [] \<Rightarrow> (False, [])
                   | c # t \<Rightarrow> if c = 0x2D then (True, t) else (False, a)) = (neg, s1)"
    by (cases a) (auto simp: neg_def s1_def)
  define ip where "ip = takeWhile is_digit s1"
  from n obtain fp r2 e where ok: "\<not> (ip = [] \<or> (1 < length ip \<and> hd ip = 0x30))"
    and f: "lex_fraction (dropWhile is_digit s1 @ w) = Some (fp, r2)"
    and x: "lex_exponent r2 = Some (e, rest)"
    and q: "q = (if neg then - 1 else 1) * of_nat (radix_val 10 (ip @ fp))
                  * pow10 (e - int (length fp))"
    unfolding lex_number_def split_aw
    by (auto simp: Let_def ip_def digit_run_append [OF w] split: if_splits option.splits)
  from lex_fraction_append [OF w f] obtain r2' where r2: "r2 = r2' @ w"
    and f': "lex_fraction (dropWhile is_digit s1) = Some (fp, r2')"
    by blast
  from lex_exponent_append [OF w x [unfolded r2]] obtain rest' where rest: "rest = rest' @ w"
    and x': "lex_exponent r2' = Some (e, rest')"
    by blast
  have "lex_number a = Some (q, rest')"
    unfolding lex_number_def split_a using ok f' x' q by (simp add: Let_def ip_def)
  with rest show ?thesis
    by blast
qed

lemma startsWith_length: "startsWith a x \<Longrightarrow> length x \<le> length a"
proof -
  assume "startsWith a x"
  then have "length (take (length x) a) = length x"
    by (simp add: startsWith_def)
  then show ?thesis
    by simp
qed

lemma startsWith_append_ws:
  assumes w: "list_all is_ws w" and x: "\<forall>c \<in> set x. \<not> is_ws c"
  shows "startsWith (a @ w) x \<longleftrightarrow> startsWith a x"
proof
  assume s: "startsWith (a @ w) x"
  then have "take (length x) (a @ w) = x"
    by (simp add: startsWith_def)
  from take_append_ws [OF this refl x w] have "length x \<le> length a" .
  with s show "startsWith a x"
    by (simp add: startsWith_def)
next
  assume s: "startsWith a x"
  with startsWith_length [OF s] show "startsWith (a @ w) x"
    by (simp add: startsWith_def)
qed

lemma literal_token_append:
  assumes w: "list_all is_ws w" and l: "literal_token (a @ w) = Some (t, rest)"
  shows "\<exists>rest'. rest = rest' @ w \<and> literal_token a = Some (t, rest')"
proof -
  have nw: "\<forall>c \<in> set (lit ''true''). \<not> is_ws c" "\<forall>c \<in> set (lit ''false''). \<not> is_ws c"
    "\<forall>c \<in> set (lit ''null''). \<not> is_ws c"
    by (simp_all add: lit_def is_ws_def)
  have len: "length (lit ''true'') = 4" "length (lit ''false'') = 5" "length (lit ''null'') = 4"
    by (simp_all add: lit_def)
  note sw = startsWith_append_ws [OF w nw(1)] startsWith_append_ws [OF w nw(2)]
    startsWith_append_ws [OF w nw(3)]
  consider "startsWith a (lit ''true'')"
    | "\<not> startsWith a (lit ''true'')" "startsWith a (lit ''false'')"
    | "\<not> startsWith a (lit ''true'')" "\<not> startsWith a (lit ''false'')"
      "startsWith a (lit ''null'')"
    | "\<not> startsWith a (lit ''true'')" "\<not> startsWith a (lit ''false'')"
      "\<not> startsWith a (lit ''null'')"
    by blast
  then show ?thesis
  proof cases
    case 1
    from startsWith_length [OF 1] have "4 \<le> length a"
      by (simp only: len)
    with l 1 show ?thesis
      by (simp add: literal_token_def sw)
  next
    case 2
    from startsWith_length [OF 2(2)] have "5 \<le> length a"
      by (simp only: len)
    with l 2 show ?thesis
      by (simp add: literal_token_def sw)
  next
    case 3
    from startsWith_length [OF 3(3)] have "4 \<le> length a"
      by (simp only: len)
    with l 3 show ?thesis
      by (simp add: literal_token_def sw)
  next
    case 4
    with l show ?thesis
      by (simp add: literal_token_def sw)
  qed
qed

lemma next_token_append:
  assumes w: "list_all is_ws w" and n: "next_token (a @ w) = Some (t, rest)"
  shows "\<exists>rest'. rest = rest' @ w \<and> next_token a = Some (t, rest')"
proof (cases a)
  case Nil
  show ?thesis
  proof (cases w)
    case Nil
    with n \<open>a = []\<close> show ?thesis
      by (simp add: next_token_def)
  next
    case (Cons d ds)
    with w have "next_token (d # ds) = None"
      by (simp add: next_token_ws)
    with n \<open>a = []\<close> Cons show ?thesis
      by simp
  qed
next
  case (Cons c cs)
  show ?thesis
  proof (cases "structural c")
    case (Some t')
    with n Cons show ?thesis
      by (simp add: next_token_def)
  next
    case None
    consider "c = 0x22" | "c \<noteq> 0x22" "c = 0x2D \<or> is_digit c"
      | "c \<noteq> 0x22" "\<not> (c = 0x2D \<or> is_digit c)"
      by blast
    then show ?thesis
    proof cases
      case 1
      with n Cons None obtain str where l: "lex_string (cs @ w) = Some (str, rest)"
        and t: "t = TString str"
        by (auto simp: next_token_def)
      from lex_string_append [OF w l] 1 Cons None t show ?thesis
        by (auto simp: next_token_def)
    next
      case 2
      with n Cons None obtain q where l: "lex_number (a @ w) = Some (q, rest)"
        and t: "t = TNumber q"
        by (auto simp: next_token_def)
      from lex_number_append [OF w l] 2 Cons None t show ?thesis
        by (auto simp: next_token_def)
    next
      case 3
      with n Cons None have "literal_token (a @ w) = Some (t, rest)"
        by (simp add: next_token_def)
      from literal_token_append [OF w this] 3 Cons None show ?thesis
        by (auto simp: next_token_def)
    qed
  qed
qed

lemma json_lex_append_ws:
  "list_all is_ws w \<Longrightarrow> json_lex (u @ w) = Some ts \<Longrightarrow> json_lex u = Some ts"
proof (induction u arbitrary: ts rule: json_lex.induct)
  case 1
  then show ?case
    by (auto dest: json_lex_all_ws)
next
  case (2 c cs)
  show ?case
  proof (cases "json_ws c")
    case True
    with "2.prems" "2.IH"(1) show ?thesis
      by simp
  next
    case False
    with "2.prems"(2) obtain t rest ts' where n: "next_token ((c # cs) @ w) = Some (t, rest)"
      and l: "json_lex rest = Some ts'" and ts: "ts = t # ts'"
      by (auto split: option.splits)
    from next_token_append [OF "2.prems"(1) n] obtain rest' where r: "rest = rest' @ w"
      and n': "next_token (c # cs) = Some (t, rest')"
      by blast
    from "2.IH"(2) [OF False n' refl "2.prems"(1) l [unfolded r]]
    have "json_lex rest' = Some ts'" .
    with False n' ts show ?thesis
      by simp
  qed
qed

lemma trim_split: "\<exists>w. list_all is_ws w \<and> dropWhile is_ws s = trim s @ w"
proof -
  define a where "a = dropWhile is_ws s"
  have "rev a = takeWhile is_ws (rev a) @ dropWhile is_ws (rev a)"
    by simp
  then have "a = rev (dropWhile is_ws (rev a)) @ rev (takeWhile is_ws (rev a))"
    by (metis rev_append rev_rev_ident)
  moreover have "list_all is_ws (rev (takeWhile is_ws (rev a)))"
    by (simp add: list_all_iff) (meson set_takeWhileD)
  ultimately show ?thesis
    unfolding trim_def a_def by blast
qed

lemma json_lex_trim: "json_lex s = Some ts \<Longrightarrow> json_lex (trim s) = Some ts"
proof -
  assume "json_lex s = Some ts"
  then have l: "json_lex (dropWhile is_ws s) = Some ts"
    by (rule json_lex_dropWhile)
  obtain w where "list_all is_ws w" "dropWhile is_ws s = trim s @ w"
    using trim_split by blast
  with l show ?thesis
    using json_lex_append_ws by metis
qed

section \<open>Where a token ends\<close>

lemma digits_no_backtick: "0x60 \<notin> set (takeWhile is_digit x)"
  by (auto dest: set_takeWhileD simp: is_digit_def)

lemma lex_escape_consumed: "lex_escape cs = Some (x, r) \<Longrightarrow> \<exists>p. cs = p @ r"
proof (cases cs)
  case Nil
  then show "lex_escape cs = Some (x, r) \<Longrightarrow> \<exists>p. cs = p @ r"
    by (simp add: lex_escape_def)
next
  case (Cons e r0)
  assume a: "lex_escape cs = Some (x, r)"
  then have "r = r0 \<or> r = drop 4 r0"
    using Cons by (auto simp: lex_escape_def split: if_splits)
  then show "\<exists>p. cs = p @ r"
  proof
    assume "r = r0"
    with Cons have "cs = [e] @ r"
      by simp
    then show ?thesis ..
  next
    assume "r = drop 4 r0"
    with Cons have "cs = (e # take 4 r0) @ r"
      by simp
    then show ?thesis ..
  qed
qed

lemma lex_string_consumed: "lex_string cs = Some (str, rest) \<Longrightarrow> \<exists>p. cs = p @ 0x22 # rest"
proof (induction cs arbitrary: str rest rule: lex_string.induct)
  case 1
  then show ?case by simp
next
  case (2 c cs)
  consider "c = 0x22" | "c \<noteq> 0x22" "c = 0x5C" | "c \<noteq> 0x22" "c \<noteq> 0x5C"
    by blast
  then show ?case
  proof cases
    case 1
    with "2.prems" have "c # cs = [] @ 0x22 # rest"
      by simp
    then show ?thesis ..
  next
    case 2
    with "2.prems" obtain x r s' where e: "lex_escape cs = Some (x, r)"
      and l: "lex_string r = Some (s', rest)"
      by (auto split: option.splits)
    from lex_escape_consumed [OF e] obtain p0 where p0: "cs = p0 @ r"
      by blast
    from "2.IH"(1) [OF 2 e refl l] obtain p where "r = p @ 0x22 # rest"
      by blast
    with p0 have "c # cs = (c # p0 @ p) @ 0x22 # rest"
      by simp
    then show ?thesis ..
  next
    case 3
    with "2.prems" have c: "\<not> c < 0x20"
      by (auto split: if_splits)
    with 3 "2.prems" obtain s' where l: "lex_string cs = Some (s', rest)"
      by auto
    from "2.IH"(2) [OF 3 c l] obtain p where "cs = p @ 0x22 # rest"
      by blast
    then have "c # cs = (c # p) @ 0x22 # rest"
      by simp
    then show ?thesis ..
  qed
qed

lemma lex_fraction_consumed:
  assumes "lex_fraction r = Some (fp, r2)"
  shows "\<exists>p. r = p @ r2 \<and> 0x60 \<notin> set p"
proof (cases r)
  case Nil
  with assms have "r = [] @ r2 \<and> 0x60 \<notin> set ([] :: nat list)"
    by (simp add: lex_fraction_def)
  then show ?thesis ..
next
  case (Cons c t)
  show ?thesis
  proof (cases "c = 0x2E")
    case True
    with assms Cons have "r2 = dropWhile is_digit t"
      by (auto simp: lex_fraction_def split: if_splits)
    with Cons True have "r = (c # takeWhile is_digit t) @ r2
        \<and> 0x60 \<notin> set (c # takeWhile is_digit t)"
      using digits_no_backtick [of t] by simp
    then show ?thesis ..
  next
    case False
    with assms Cons have "r = [] @ r2 \<and> 0x60 \<notin> set ([] :: nat list)"
      by (simp add: lex_fraction_def)
    then show ?thesis ..
  qed
qed

lemma take_sign_consumed: "\<exists>p. t = p @ snd (take_sign t) \<and> 0x60 \<notin> set p"
proof (cases t)
  case Nil
  then have "t = [] @ snd (take_sign t) \<and> 0x60 \<notin> set ([] :: nat list)"
    by (simp add: take_sign_def)
  then show ?thesis ..
next
  case (Cons c u)
  show ?thesis
  proof (cases "c = 0x2D \<or> c = 0x2B")
    case True
    with Cons have "t = [c] @ snd (take_sign t) \<and> 0x60 \<notin> set [c]"
      by (auto simp: take_sign_def)
    then show ?thesis ..
  next
    case False
    with Cons have "t = [] @ snd (take_sign t) \<and> 0x60 \<notin> set ([] :: nat list)"
      by (simp add: take_sign_def)
    then show ?thesis ..
  qed
qed

lemma lex_exponent_consumed:
  assumes "lex_exponent r = Some (e, r3)"
  shows "\<exists>p. r = p @ r3 \<and> 0x60 \<notin> set p"
proof (cases r)
  case Nil
  with assms have "r = [] @ r3 \<and> 0x60 \<notin> set ([] :: nat list)"
    by (simp add: lex_exponent_def)
  then show ?thesis ..
next
  case (Cons c t)
  show ?thesis
  proof (cases "c = 0x65 \<or> c = 0x45")
    case True
    obtain p where p: "t = p @ snd (take_sign t)" "0x60 \<notin> set p"
      using take_sign_consumed by blast
    from assms Cons True have r3: "r3 = dropWhile is_digit (snd (take_sign t))"
      by (auto simp: lex_exponent_def Let_def split_beta split: if_splits)
    have "r = (c # p @ takeWhile is_digit (snd (take_sign t))) @ r3"
      using Cons p(1) r3 by (metis Cons_eq_appendI append.assoc takeWhile_dropWhile_id)
    moreover have "0x60 \<notin> set (c # p @ takeWhile is_digit (snd (take_sign t)))"
      using True p(2) digits_no_backtick [of "snd (take_sign t)"] by auto
    ultimately show ?thesis
      by blast
  next
    case False
    with assms Cons have "r = [] @ r3 \<and> 0x60 \<notin> set ([] :: nat list)"
      by (simp add: lex_exponent_def)
    then show ?thesis ..
  qed
qed

lemma lex_number_consumed:
  assumes "lex_number s = Some (q, rest)"
  shows "\<exists>p. s = p @ rest \<and> p \<noteq> [] \<and> 0x60 \<notin> set p"
proof -
  define neg where "neg = (s \<noteq> [] \<and> hd s = 0x2D)"
  define s1 where "s1 = (if neg then tl s else s)"
  define sg where "sg = (if neg then [0x2D] else [] :: nat list)"
  have split_s: "(case s of [] \<Rightarrow> (False, [])
                   | c # t \<Rightarrow> if c = 0x2D then (True, t) else (False, s)) = (neg, s1)"
    by (cases s) (auto simp: neg_def s1_def)
  have s: "s = sg @ s1"
    by (cases s) (auto simp: neg_def s1_def sg_def)
  from assms obtain fp r2 e where ip: "takeWhile is_digit s1 \<noteq> []"
    and f: "lex_fraction (dropWhile is_digit s1) = Some (fp, r2)"
    and x: "lex_exponent r2 = Some (e, rest)"
    unfolding lex_number_def split_s by (auto simp: Let_def split: if_splits option.splits)
  from lex_fraction_consumed [OF f] obtain p1 where p1: "dropWhile is_digit s1 = p1 @ r2"
    "0x60 \<notin> set p1"
    by blast
  from lex_exponent_consumed [OF x] obtain p2 where p2: "r2 = p2 @ rest" "0x60 \<notin> set p2"
    by blast
  have "s1 = takeWhile is_digit s1 @ p1 @ p2 @ rest"
    using p1(1) p2(1) by (metis takeWhile_dropWhile_id)
  with s have "s = (sg @ takeWhile is_digit s1 @ p1 @ p2) @ rest"
    by simp
  moreover have "sg @ takeWhile is_digit s1 @ p1 @ p2 \<noteq> []"
    using ip by simp
  moreover have "0x60 \<notin> set (sg @ takeWhile is_digit s1 @ p1 @ p2)"
    using p1(2) p2(2) digits_no_backtick [of s1] by (auto simp: sg_def)
  ultimately show ?thesis
    by blast
qed

lemma literal_token_consumed:
  assumes "literal_token s = Some (t, rest)"
  shows "\<exists>p. s = p @ rest \<and> p \<noteq> [] \<and> last p \<noteq> 0x60"
proof -
  have len: "length (lit ''true'') = 4" "length (lit ''false'') = 5" "length (lit ''null'') = 4"
    by (simp_all add: lit_def)
  have ends: "last (lit ''true'') \<noteq> 0x60" "last (lit ''false'') \<noteq> 0x60"
    "last (lit ''null'') \<noteq> 0x60"
    by (simp_all add: lit_def)
  have "\<exists>x. x \<noteq> [] \<and> last x \<noteq> 0x60 \<and> startsWith s x \<and> rest = drop (length x) s"
  proof -
    consider "startsWith s (lit ''true'')" "rest = drop 4 s"
      | "startsWith s (lit ''false'')" "rest = drop 5 s"
      | "startsWith s (lit ''null'')" "rest = drop 4 s"
      using assms by (auto simp: literal_token_def split: if_splits)
    then show ?thesis
    proof cases
      case 1
      with ends(1) have "lit ''true'' \<noteq> [] \<and> last (lit ''true'') \<noteq> 0x60
          \<and> startsWith s (lit ''true'') \<and> rest = drop (length (lit ''true'')) s"
        by (simp add: len)
      then show ?thesis ..
    next
      case 2
      with ends(2) have "lit ''false'' \<noteq> [] \<and> last (lit ''false'') \<noteq> 0x60
          \<and> startsWith s (lit ''false'') \<and> rest = drop (length (lit ''false'')) s"
        by (simp add: len)
      then show ?thesis ..
    next
      case 3
      with ends(3) have "lit ''null'' \<noteq> [] \<and> last (lit ''null'') \<noteq> 0x60
          \<and> startsWith s (lit ''null'') \<and> rest = drop (length (lit ''null'')) s"
        by (simp add: len)
      then show ?thesis ..
    qed
  qed
  then obtain x where x: "x \<noteq> []" "last x \<noteq> 0x60" "startsWith s x"
    "rest = drop (length x) s"
    by blast
  have "s = x @ rest"
    using x(3,4) by (metis append_take_drop_id startsWith_def)
  with x(1,2) show ?thesis
    by blast
qed

lemma next_token_consumed:
  assumes "next_token s = Some (t, rest)"
  shows "\<exists>p. s = p @ rest \<and> p \<noteq> [] \<and> last p \<noteq> 0x60"
proof (cases s)
  case Nil
  with assms show ?thesis
    by (simp add: next_token_def)
next
  case (Cons c cs)
  show ?thesis
  proof (cases "structural c")
    case (Some t')
    then have "c \<noteq> 0x60"
      by (auto simp: structural_def split: if_splits)
    with assms Cons Some have "s = [c] @ rest \<and> [c] \<noteq> [] \<and> last [c] \<noteq> 0x60"
      by (simp add: next_token_def)
    then show ?thesis ..
  next
    case None
    consider "c = 0x22" | "c \<noteq> 0x22" "c = 0x2D \<or> is_digit c"
      | "c \<noteq> 0x22" "\<not> (c = 0x2D \<or> is_digit c)"
      by blast
    then show ?thesis
    proof cases
      case 1
      with assms Cons None obtain str where "lex_string cs = Some (str, rest)"
        by (auto simp: next_token_def)
      from lex_string_consumed [OF this] obtain p where "cs = p @ 0x22 # rest"
        by blast
      with Cons have "s = (c # p @ [0x22]) @ rest \<and> c # p @ [0x22] \<noteq> []
          \<and> last (c # p @ [0x22]) \<noteq> 0x60"
        by simp
      then show ?thesis ..
    next
      case 2
      with assms Cons None obtain q where "lex_number s = Some (q, rest)"
        by (auto simp: next_token_def)
      from lex_number_consumed [OF this] obtain p where p: "s = p @ rest" "p \<noteq> []"
        "0x60 \<notin> set p"
        by blast
      then have "last p \<noteq> 0x60"
        using last_in_set by metis
      with p show ?thesis
        by blast
    next
      case 3
      with assms Cons None have "literal_token s = Some (t, rest)"
        by (simp add: next_token_def)
      then show ?thesis
        by (rule literal_token_consumed)
    qed
  qed
qed

lemma json_lex_last: "json_lex s = Some ts \<Longrightarrow> s \<noteq> [] \<Longrightarrow> last s \<noteq> 0x60"
proof (induction s arbitrary: ts rule: json_lex.induct)
  case 1
  then show ?case by simp
next
  case (2 c cs)
  show ?case
  proof (cases "json_ws c")
    case True
    then have c: "c \<noteq> 0x60"
      by (auto simp: json_ws_def)
    show ?thesis
    proof (cases "cs = []")
      case True
      with c show ?thesis by simp
    next
      case False
      with True "2.prems" "2.IH"(1) show ?thesis
        by simp
    qed
  next
    case False
    with "2.prems"(1) obtain t rest ts' where n: "next_token (c # cs) = Some (t, rest)"
      and l: "json_lex rest = Some ts'"
      by (auto split: option.splits)
    from next_token_consumed [OF n] obtain p where p: "c # cs = p @ rest" "p \<noteq> []"
      "last p \<noteq> 0x60"
      by blast
    show ?thesis
    proof (cases "rest = []")
      case True
      with p show ?thesis
        by simp
    next
      case r: False
      from "2.IH"(2) [OF False n refl l r] have "last rest \<noteq> 0x60" .
      with p(1) r show ?thesis
        by simp
    qed
  qed
qed

lemma json_lex_head: "json_lex (c # cs) = Some ts \<Longrightarrow> c \<noteq> 0x60"
proof
  assume l: "json_lex (c # cs) = Some ts" and c: "c = 0x60"
  have "literal_token (c # cs) = None"
    using literal_token_head [of c cs] c by (cases "literal_token (c # cs)") auto
  then have "next_token (c # cs) = None"
    by (simp add: next_token_def structural_def is_digit_def c)
  with l c show False
    by (simp add: json_ws_def)
qed

section \<open>cleanJsonString on a text that is JSON\<close>

lemma trim_no_trailing: "dropWhile is_ws (rev (trim s)) = rev (trim s)"
  by (simp add: trim_def)

lemma set_trim: "set (trim s) \<subseteq> set s"
  unfolding trim_def by (auto dest!: set_dropWhileD)

lemma cleanJsonString_valid:
  assumes l: "json_lex s = Some ts" and q: "\<forall>c \<in> set s. straighten_quote c = c"
  shows "cleanJsonString s = trim s"
proof (cases "s = []")
  case True
  then show ?thesis
    by (simp add: cleanJsonString_def trim_def)
next
  case False
  define t where "t = trim s"
  have lt: "json_lex t = Some ts"
    unfolding t_def using l by (rule json_lex_trim)
  have ns: "\<not> startsWith t (lit ''```'')"
  proof (cases t)
    case Nil
    then show ?thesis
      by (simp add: startsWith_def)
  next
    case (Cons c cs)
    with lt have "c \<noteq> 0x60"
      using json_lex_head by blast
    with Cons show ?thesis
      by (auto simp: startsWith_def lit_def)
  qed
  have ne: "\<not> endsWith t (lit ''```'')"
  proof
    assume "endsWith t (lit ''```'')"
    then have "t \<noteq> [] \<and> last t = last (lit ''```'')"
      by (rule endsWith_last) simp
    then have "t \<noteq> []" "last t = 0x60"
      by (simp_all add: lit_def)
    with json_lex_last [OF lt] show False
      by blast
  qed
  have b: "rev (dropWhile is_ws (rev t)) = t"
    unfolding t_def by (simp add: trim_no_trailing)
  have f: "strip_fence_close (strip_fence_open (strip_fence_json t)) = t"
    using ns ne by (simp add: strip_fence_json_def strip_fence_open_def strip_fence_close_def b)
  have m: "map straighten_quote t = t"
    using q set_trim [of s] unfolding t_def by (intro map_idI) auto
  have "cleanJsonString s = map straighten_quote (trim t)"
    using False f by (simp add: cleanJsonString_def t_def)
  also have "trim t = t"
    unfolding t_def by (rule trim_idem)
  finally show ?thesis
    using m by (simp add: t_def)
qed

lemma json_parse_clean:
  assumes p: "json_parse s = Some v" and q: "\<forall>c \<in> set s. straighten_quote c = c"
  shows "json_parse (cleanJsonString s) = Some v"
proof -
  from p obtain ts where l: "json_lex s = Some ts" and t: "parse_tokens PValue [] ts = Some v"
    by (auto simp: json_parse_def split: option.splits)
  have "json_lex (cleanJsonString s) = Some ts"
    using cleanJsonString_valid [OF l q] json_lex_trim [OF l] by simp
  with t show ?thesis
    by (simp add: json_parse_def)
qed

lemmas lex_defs = next_token_def structural_def literal_token_def lex_escape_def escape_char_def
  lex_number_def lex_fraction_def lex_exponent_def take_sign_def json_ws_def is_digit_def
  radix_val_def digit_of_def pow10_def startsWith_def is_radix_digit_def

lemmas clean_defs = cleanJsonString_def strip_fence_json_def strip_fence_open_def
  strip_fence_close_def straighten_quote_def

section \<open>The claim about extraction\<close>

text \<open>
  C9, as the code has it. For a text that parses as JSON and has none of the typographic
  quotes U+2018, U+2019, U+201C, U+201D in it, cleaning and parsing gives the value that
  parsing the text directly gives; and when that value is coerced to a record, the
  fallback of lines 199 to 207 is not entered, so the extraction ends with that value and
  with its record. (The fallback is entered only when the coercer answers null; when it
  throws, the extraction ends with the value and the exception.)
\<close>

theorem extraction_of_valid_json:
  assumes "json_parse s = Some v"
    and "\<forall>c \<in> set s. c \<noteq> 0x2018 \<and> c \<noteq> 0x2019 \<and> c \<noteq> 0x201C \<and> c \<noteq> 0x201D"
  shows "safeParseJson (cleanJsonString s) = v
     \<and> (coerceSentimentShape v \<noteq> Inr None \<longrightarrow>
          extract_parsed s = v \<and> extract_result s = coerceSentimentShape v)"
proof -
  have "\<forall>c \<in> set s. straighten_quote c = c"
    using assms(2) by (simp add: straighten_quote_def)
  with assms(1) have "json_parse (cleanJsonString s) = Some v"
    by (rule json_parse_clean)
  then have p: "safeParseJson (cleanJsonString s) = v"
    by (simp add: safeParseJson_def)
  then show ?thesis
    by (auto simp: extract_parsed_def extract_result_def split: sum.splits option.splits)
qed

theorem extraction_of_valid_json_witness:
  "extract_parsed (lit '' {\"score\":1} '') = JObj [(lit ''score'', JNum (Fin 1))]
   \<and> extract_result (lit '' {\"score\":1} '')
       = Inr (Some \<lparr>label = VeryBullish, score = Fin 1, summary = JStr [], tickers = []\<rparr>)"
proof -
  define s where "s = lit '' {\"score\":1} ''"
  define v where "v = JObj [(lit ''score'', JNum (Fin 1))]"
  have l: "json_lex s
             = Some [TLBrace, TString (lit ''score''), TColon, TNumber 1, TRBrace]"
    by (simp add: s_def lit_def lex_defs)
  have p: "json_parse s = Some v"
    by (simp add: json_parse_def l v_def)
  have q: "\<forall>c \<in> set s. c \<noteq> 0x2018 \<and> c \<noteq> 0x2019 \<and> c \<noteq> 0x201C \<and> c \<noteq> 0x201D"
    by (simp add: s_def lit_def)
  have c: "coerceSentimentShape v
             = Inr (Some \<lparr>label = VeryBullish, score = Fin 1, summary = JStr [], tickers = []\<rparr>)"
    by (simp add: v_def coerce_cases coerce_defs)
  have "extract_parsed s = v
     \<and> extract_result s
           = Inr (Some \<lparr>label = VeryBullish, score = Fin 1, summary = JStr [], tickers = []\<rparr>)"
    using extraction_of_valid_json [OF p q] c by simp
  then show ?thesis
    by (simp only: s_def v_def)
qed

text \<open>
  C9 as stated fails in two ways. A valid JSON text with typographic quotes inside a
  string value is rewritten by \<^verbatim>\<open>cleanJsonString\<close>: here the curly double quotes become
  straight ones, the cleaned text is no JSON any more, the repairs do not help, and the
  extraction ends with null. And a valid JSON text whose value is not coerced to a record
  goes on to the brace match: here the array around an object is cut away, and the
  extraction ends with the object instead of the array.
\<close>

theorem extraction_changes_valid_json:
  "json_parse (lit ''{\"score\":1,\"summary\":\"'' @ [0x201C] @ lit ''hi'' @ [0x201D] @ lit ''\"}'')
     = Some (JObj [(lit ''score'', JNum (Fin 1)),
                   (lit ''summary'', JStr ([0x201C] @ lit ''hi'' @ [0x201D]))])
   \<and> extract_parsed
        (lit ''{\"score\":1,\"summary\":\"'' @ [0x201C] @ lit ''hi'' @ [0x201D] @ lit ''\"}'')
     = JNull
   \<and> json_parse (lit ''[{\"score\":1}]'') = Some (JArr [JObj [(lit ''score'', JNum (Fin 1))]])
   \<and> extract_parsed (lit ''[{\"score\":1}]'') = JObj [(lit ''score'', JNum (Fin 1))]"
proof -
  define x where
    "x = lit ''{\"score\":1,\"summary\":\"'' @ [0x201C] @ lit ''hi'' @ [0x201D] @ lit ''\"}''"
  define x' where "x' = lit ''{\"score\":1,\"summary\":\"\"hi\"\"}''"
  define y where "y = lit ''[{\"score\":1}]''"
  define y' where "y' = lit ''{\"score\":1}''"
  have lx: "json_lex x
     = Some [TLBrace, TString (lit ''score''), TColon, TNumber 1, TComma,
             TString (lit ''summary''), TColon, TString ([0x201C] @ lit ''hi'' @ [0x201D]),
             TRBrace]"
    by (simp add: x_def lit_def lex_defs)
  have px: "json_parse x
     = Some (JObj [(lit ''score'', JNum (Fin 1)),
                   (lit ''summary'', JStr ([0x201C] @ lit ''hi'' @ [0x201D]))])"
    by (simp add: json_parse_def lx)
  have cx: "cleanJsonString x = x'"
    by (simp add: x_def x'_def clean_defs string_defs)
  have lx': "json_lex x' = None"
    by (simp add: x'_def lit_def lex_defs)
  have sx: "salvage x' = x'"
    by (simp add: x'_def salvage_def brace_match_def tryRepairs_def before_close_def lit_def
        is_ws_def)
  have ex: "extract_parsed x = JNull"
    by (simp add: extract_parsed_def cx sx safeParseJson_def json_parse_def lx' coerce_cases)
  have ly: "json_lex y
     = Some [TLBrack, TLBrace, TString (lit ''score''), TColon, TNumber 1, TRBrace, TRBrack]"
    by (simp add: y_def lit_def lex_defs)
  have py: "json_parse y = Some (JArr [JObj [(lit ''score'', JNum (Fin 1))]])"
    by (simp add: json_parse_def ly)
  have cy: "cleanJsonString y = y"
    by (simp add: y_def clean_defs string_defs)
  have sy: "salvage y = y'"
    by (simp add: y_def y'_def salvage_def brace_match_def tryRepairs_def before_close_def
        lit_def is_ws_def)
  have ly': "json_lex y' = Some [TLBrace, TString (lit ''score''), TColon, TNumber 1, TRBrace]"
    by (simp add: y'_def lit_def lex_defs)
  have py': "json_parse y' = Some (JObj [(lit ''score'', JNum (Fin 1))])"
    by (simp add: json_parse_def ly')
  have ey: "extract_parsed y = JObj [(lit ''score'', JNum (Fin 1))]"
    by (simp add: extract_parsed_def cy sy safeParseJson_def py py' coerce_cases)
  from px ex py ey show ?thesis
    by (simp only: x_def y_def)
qed

section \<open>Claims about scoreMarket\<close>

text \<open>Replies and thrown values for the examples.\<close>

lemma extract_result_throws: "extract_result raw = Inl err \<Longrightarrow> err = cannot_convert"
  by (auto simp: extract_result_def Let_def split: sum.splits option.splits
      dest: coerce_throws_cannot_convert)

lemma extract_result_label_object:
  "extract_result (lit ''{\"label\":{\"toString\":1}}'') = Inl cannot_convert"
proof -
  define s where "s = lit ''{\"label\":{\"toString\":1}}''"
  have c: "cleanJsonString s = s"
    by (simp add: s_def clean_defs string_defs)
  have l: "json_lex s
             = Some [TLBrace, TString (lit ''label''), TColon, TLBrace,
                     TString (lit ''toString''), TColon, TNumber 1, TRBrace, TRBrace]"
    by (simp add: s_def lit_def lex_defs)
  have p: "json_parse s = Some (JObj [(lit ''label'', JObj [(lit ''toString'', JNum (Fin 1))])])"
    by (simp add: json_parse_def l)
  have n: "normalizeLabel (JObj [(lit ''toString'', JNum (Fin 1))]) = Inl cannot_convert"
    by (simp add: normalizeLabel_def)
  have "extract_result s = Inl cannot_convert"
    by (simp add: extract_result_def c safeParseJson_def p coerce_cases n)
  then show ?thesis
    by (simp only: s_def)
qed

lemma unconvertible_label_object:
  "unconvertible
     (Reply [\<lparr>block_type = lit ''text'',
              block_text = Some (lit ''{\"label\":{\"toString\":1}}'')\<rparr>])"
  by (simp add: unconvertible_def raw_text_def extract_result_label_object)



text \<open>
  C4 fails on the code of \<^verbatim>\<open>scripts/market_sentiment_csv.js\<close> for a thrown value whose
  \<^verbatim>\<open>error.type\<close> (or \<^verbatim>\<open>message\<close>) is truthy and not a string. A gateway that answers
  the request with status 502 and the body \<^verbatim>\<open>{"type":502,"title":"Bad Gateway"}\<close> makes
  the SDK throw an error with that body as \<^verbatim>\<open>error\<close>. Line 215 then takes the number
  502 for \<^verbatim>\<open>msg\<close>, and line 216 calls \<^verbatim>\<open>msg.includes\<close>, which a number does not have: a
  \<^verbatim>\<open>TypeError\<close> leaves the \<^verbatim>\<open>catch\<close> block and the promise of \<^verbatim>\<open>scoreMarket\<close> is
  rejected after the one call, where the claim has the Error record returned. The
  directory script converts what it has read with \<^verbatim>\<open>String\<close> and \<^verbatim>\<open>join\<close> before it
  searches it, and returns the record on the same thrown value, with the type before
  the message in the summary.
\<close>

theorem scoreMarket_rejects_non_string_type:
  "scoreMarket 3000
      (\<lambda>p k. Throw \<lparr>error_type = JNum (Fin 502), error_message = JUndefined,
                     name = JStr (lit ''Error''),
                     message = JStr (lit ''502 {\"type\":502,\"title\":\"Bad Gateway\"}''),
                     as_string = lit ''Error: 502 {\"type\":502,\"title\":\"Bad Gateway\"}'',
                     status = Some 502, retry_after = None\<rparr>)
      (lit ''Stocks fell.'')
     = (Inl (TypeError (lit ''msg.includes is not a function'')), [Request])
   \<and> scoreMarket_dir 20000
      (\<lambda>p k. Throw \<lparr>error_type = JNum (Fin 502), error_message = JUndefined,
                     name = JStr (lit ''Error''),
                     message = JStr (lit ''502 {\"type\":502,\"title\":\"Bad Gateway\"}''),
                     as_string = lit ''Error: 502 {\"type\":502,\"title\":\"Bad Gateway\"}'',
                     status = Some 502, retry_after = None\<rparr>)
      (lit ''Stocks fell.'')
     = (Inr \<lparr>label = Error, score = Fin 0,
              summary = JStr (lit ''502: 502 {\"type\":502,\"title\":\"Bad Gateway\"}''),
              tickers = []\<rparr>,
        [Request])"
proof -
  define e where
    "e = \<lparr>error_type = JNum (Fin 502), error_message = JUndefined,
           name = JStr (lit ''Error''),
           message = JStr (lit ''502 {\"type\":502,\"title\":\"Bad Gateway\"}''),
           as_string = lit ''Error: 502 {\"type\":502,\"title\":\"Bad Gateway\"}'',
           status = Some 502, retry_after = None\<rparr>"
  define input where "input = lit ''Stocks fell.''"
  have t: "js_String (JNum (Fin 502)) = Inr (lit ''502'')"
    by (simp add: lit_def)
  have m: "error_msg e = JNum (Fin 502)"
    by (simp add: e_def error_msg_def js_or_def)
  have h: "handle_error e 0 = Raise (TypeError (lit ''msg.includes is not a function''))"
    by (simp add: handle_error_def m includes_method_def)
  have one: "scoreMarket 3000 (\<lambda>p k. Throw e) input
               = (Inl (TypeError (lit ''msg.includes is not a function'')), [Request])"
    unfolding scoreMarket_def by (subst score_loop_step) (simp add: turn_of_def h)
  have mi: "maybeIncompatible e = Inr False"
    unfolding maybeIncompatible_def
    by (simp add: e_def js_or_def t) (simp add: lit_def startsWith_def toLowerCase_def lower_unit_def)
  have cd: "call_dir (\<lambda>k. Throw e) 0 = (Throw e, 1)"
    by (simp add: call_dir_def mi)
  have cb: "combined e = Inr (lit ''502: 502 {\"type\":502,\"title\":\"Bad Gateway\"}'')"
    unfolding combined_def by (simp add: e_def js_or_def t) (simp add: lit_def)
  have nr: "\<not> rate_limited_dir e"
    unfolding rate_limited_dir_def cb by (simp add: e_def lit_def startsWith_def)
  have hd: "handle_error_dir e 0
              = Return (sentinel (JStr (lit ''502: 502 {\"type\":502,\"title\":\"Bad Gateway\"}'')))"
    using handle_error_dir_return [OF nr cb, of 0] by simp
  have two: "scoreMarket_dir 20000 (\<lambda>p k. Throw e) input
               = (Inr (sentinel (JStr (lit ''502: 502 {\"type\":502,\"title\":\"Bad Gateway\"}''))),
                  [Request])"
    unfolding scoreMarket_dir_def by (subst score_loop_dir_step) (simp add: cd turn_of_dir_def hd)
  from one two show ?thesis
    by (simp only: e_def input_def sentinel_def)
qed



text \<open>
  C6. If the turns before turn \<open>j < 5\<close> all end in a rate-limit retry and turn \<open>j\<close> gets
  a reply from which no record can be made, the run ends in that turn: the result is the
  Error record, the trace is the trace of the \<open>j\<close> retried turns followed by the call
  of turn \<open>j\<close>, and no call comes after it. In the directory script the turn makes one
  or two calls, the reply being that of the last one. A reply gives no record when the
  extraction ends with null, and then the summary is the message of the error that line
  210 throws, or when the coercer throws on the way, and then it is the message of that
  error; there is no third case.
\<close>

theorem malformed_output_not_retried:
  assumes "call = ask (buildMarketPrompt n text)"
  shows "(\<forall>j<5. (\<forall>i<j. retried (call i)) \<and> malformed (call j) \<longrightarrow>
            scoreMarket n ask text
              = (Inr \<lparr>label = Error, score = Fin 0,
                       summary = JStr (lit ''Model did not return valid JSON sentiment''),
                       tickers = []\<rparr>,
                 retry_trace call 0 j @ [Request])
            \<and> length (filter (\<lambda>ev. ev = Request) (snd (scoreMarket n ask text))) = j + 1
            \<and> length (filter is_sleep (snd (scoreMarket n ask text))) = j)
     \<and> (\<forall>j<5. all_retried_dir call 0 j
              \<and> malformed (fst (call_dir call (calls_after call 0 j))) \<longrightarrow>
            scoreMarket_dir n ask text
              = (Inr \<lparr>label = Error, score = Fin 0,
                       summary = JStr (lit ''Error: Model did not return valid JSON sentiment''),
                       tickers = []\<rparr>,
                 retry_trace_dir call 0 0 j
                 @ replicate (snd (call_dir call (calls_after call 0 j))) Request)
            \<and> length (filter (\<lambda>ev. ev = Request) (snd (scoreMarket_dir n ask text)))
                = calls_after call 0 j + snd (call_dir call (calls_after call 0 j))
            \<and> length (filter is_sleep (snd (scoreMarket_dir n ask text))) = j
            \<and> last (snd (scoreMarket_dir n ask text)) = Request)
     \<and> (\<forall>j<5. (\<forall>i<j. retried (call i)) \<and> unconvertible (call j) \<longrightarrow>
            scoreMarket n ask text
              = (Inr \<lparr>label = Error, score = Fin 0,
                       summary = JStr (lit ''Cannot convert object to primitive value''),
                       tickers = []\<rparr>,
                 retry_trace call 0 j @ [Request]))
     \<and> (\<forall>j<5. all_retried_dir call 0 j
              \<and> unconvertible (fst (call_dir call (calls_after call 0 j))) \<longrightarrow>
            scoreMarket_dir n ask text
              = (Inr \<lparr>label = Error, score = Fin 0,
                       summary = JStr (lit ''TypeError: Cannot convert object to primitive value''),
                       tickers = []\<rparr>,
                 retry_trace_dir call 0 0 j
                 @ replicate (snd (call_dir call (calls_after call 0 j))) Request))
     \<and> ((\<forall>r. extract_result (raw_text content) \<noteq> Inr (Some r)) \<longrightarrow>
            malformed (Reply content) \<or> unconvertible (Reply content))"
proof -
  have sm: "scoreMarket n ask text = score_loop call 0 []"
    and smd: "scoreMarket_dir n ask text = score_loop_dir call 0 0 []"
    by (simp_all add: scoreMarket_def scoreMarket_dir_def assms)
  have a: "scoreMarket n ask text = (Inr (sentinel m), retry_trace call 0 j @ [Request])"
    if "j < 5" and "\<forall>i<j. retried (call i)" and "turn_of (call j) j = Return (sentinel m)"
    for j m
  proof -
    have "score_loop call 0 [] = score_loop call j (retry_trace call 0 j)"
      using score_loop_skip [of 0 j call "[]"] that(1,2) by simp
    also have "\<dots> = (Inr (sentinel m), retry_trace call 0 j @ [Request])"
      using that(1) by (subst score_loop_step) (simp add: that(3))
    finally show ?thesis
      by (simp add: sm)
  qed
  have b: "scoreMarket_dir n ask text
             = (Inr (sentinel m),
                retry_trace_dir call 0 0 j
                @ replicate (snd (call_dir call (calls_after call 0 j))) Request)"
    if "j < 5" and "all_retried_dir call 0 j"
      and "turn_of_dir (fst (call_dir call (calls_after call 0 j))) j = Return (sentinel m)"
    for j m
  proof -
    have "score_loop_dir call 0 0 []
            = score_loop_dir call j (calls_after call 0 j) (retry_trace_dir call 0 0 j)"
      using score_loop_dir_skip [of 0 j call 0 "[]"] that(1,2) by simp
    also have "\<dots> = (Inr (sentinel m),
                      retry_trace_dir call 0 0 j
                      @ replicate (snd (call_dir call (calls_after call 0 j))) Request)"
      using that(1) by (subst score_loop_dir_step) (simp add: that(3))
    finally show ?thesis
      by (simp add: smd)
  qed
  have nz: "replicate (snd (call_dir call k)) Request \<noteq> []" for k
    using call_dir_calls [of call k] by auto
  have c: "length (filter (\<lambda>ev. ev = Request) (retry_trace_dir call 0 0 j))
             = calls_after call 0 j" for j
    using retry_trace_dir_requests [of 0 call 0 j] by simp
  have ex: "malformed (Reply content) \<or> unconvertible (Reply content)"
    if "\<forall>r. extract_result (raw_text content) \<noteq> Inr (Some r)"
  proof (cases "extract_result (raw_text content)")
    case (Inl err)
    then show ?thesis
      using extract_result_throws [OF Inl] by (simp add: unconvertible_def)
  next
    case (Inr x)
    with that show ?thesis
      by (cases x) (simp_all add: malformed_def)
  qed
  show ?thesis
  proof (intro conjI allI impI)
    fix j
    assume "j < 5" and h: "(\<forall>i<j. retried (call i)) \<and> malformed (call j)"
    then have s: "scoreMarket n ask text
             = (Inr (sentinel (JStr (lit ''Model did not return valid JSON sentiment''))),
                retry_trace call 0 j @ [Request])"
      using a turn_of_malformed by blast
    show "scoreMarket n ask text
            = (Inr \<lparr>label = Error, score = Fin 0,
                     summary = JStr (lit ''Model did not return valid JSON sentiment''),
                     tickers = []\<rparr>,
               retry_trace call 0 j @ [Request])"
      using s by (simp add: sentinel_def)
    show "length (filter (\<lambda>ev. ev = Request) (snd (scoreMarket n ask text))) = j + 1"
      by (simp add: s retry_trace_requests)
    show "length (filter is_sleep (snd (scoreMarket n ask text))) = j"
      by (simp add: s retry_trace_sleeps)
  next
    fix j
    assume "j < 5" and h: "all_retried_dir call 0 j \<and>
         malformed (fst (call_dir call (calls_after call 0 j)))"
    then have s: "scoreMarket_dir n ask text
             = (Inr (sentinel (JStr (lit ''Error: Model did not return valid JSON sentiment''))),
                retry_trace_dir call 0 0 j
                @ replicate (snd (call_dir call (calls_after call 0 j))) Request)"
      using b turn_of_dir_malformed by blast
    show "scoreMarket_dir n ask text
            = (Inr \<lparr>label = Error, score = Fin 0,
                     summary = JStr (lit ''Error: Model did not return valid JSON sentiment''),
                     tickers = []\<rparr>,
               retry_trace_dir call 0 0 j
               @ replicate (snd (call_dir call (calls_after call 0 j))) Request)"
      using s by (simp add: sentinel_def)
    show "length (filter (\<lambda>ev. ev = Request) (snd (scoreMarket_dir n ask text)))
            = calls_after call 0 j + snd (call_dir call (calls_after call 0 j))"
      by (simp add: s c)
    show "length (filter is_sleep (snd (scoreMarket_dir n ask text))) = j"
      by (simp add: s retry_trace_dir_sleeps)
    show "last (snd (scoreMarket_dir n ask text)) = Request"
      using nz [of "calls_after call 0 j"] call_dir_calls [of call "calls_after call 0 j"]
      by (simp add: s last_replicate)
  next
    fix j
    assume "j < 5" and h: "(\<forall>i<j. retried (call i)) \<and> unconvertible (call j)"
    then have "scoreMarket n ask text
             = (Inr (sentinel (JStr (lit ''Cannot convert object to primitive value''))),
                retry_trace call 0 j @ [Request])"
      using a turn_of_unconvertible by blast
    then show "scoreMarket n ask text
            = (Inr \<lparr>label = Error, score = Fin 0,
                     summary = JStr (lit ''Cannot convert object to primitive value''),
                     tickers = []\<rparr>,
               retry_trace call 0 j @ [Request])"
      by (simp add: sentinel_def)
  next
    fix j
    assume "j < 5" and h: "all_retried_dir call 0 j \<and>
         unconvertible (fst (call_dir call (calls_after call 0 j)))"
    then have "scoreMarket_dir n ask text
             = (Inr (sentinel (JStr (lit ''TypeError: Cannot convert object to primitive value''))),
                retry_trace_dir call 0 0 j
                @ replicate (snd (call_dir call (calls_after call 0 j))) Request)"
      using b turn_of_dir_unconvertible by blast
    then show "scoreMarket_dir n ask text
            = (Inr \<lparr>label = Error, score = Fin 0,
                     summary = JStr (lit ''TypeError: Cannot convert object to primitive value''),
                     tickers = []\<rparr>,
               retry_trace_dir call 0 0 j
               @ replicate (snd (call_dir call (calls_after call 0 j))) Request)"
      by (simp add: sentinel_def)
  next
    assume "\<forall>r. extract_result (raw_text content) \<noteq> Inr (Some r)"
    then show "malformed (Reply content) \<or> unconvertible (Reply content)"
      by (rule ex)
  qed
qed

theorem malformed_output_not_retried_witness:
  "scoreMarket 3000
      (\<lambda>p k. if k < 2
              then Throw \<lparr>error_type = JStr (lit ''rate_limit_error''),
                     error_message = JUndefined, name = JUndefined,
                     message = JStr (lit ''busy''), as_string = lit ''Error: busy'',
                     status = Some 429, retry_after = None\<rparr>
              else Reply [\<lparr>block_type = lit ''text'', block_text = Some (lit ''no'')\<rparr>])
      (lit ''Stocks fell.'')
     = (Inr \<lparr>label = Error, score = Fin 0,
              summary = JStr (lit ''Model did not return valid JSON sentiment''),
              tickers = []\<rparr>,
        [Request, Sleep (Fin 2000), Request, Sleep (Fin 4000), Request])
   \<and> scoreMarket_dir 20000
      (\<lambda>p k. Reply [\<lparr>block_type = lit ''text'', block_text = Some (lit ''no'')\<rparr>])
      (lit ''Stocks fell.'')
     = (Inr \<lparr>label = Error, score = Fin 0,
              summary = JStr (lit ''Error: Model did not return valid JSON sentiment''),
              tickers = []\<rparr>,
        [Request])
   \<and> scoreMarket 3000
      (\<lambda>p k. Reply [\<lparr>block_type = lit ''text'',
                       block_text = Some (lit ''{\"label\":{\"toString\":1}}'')\<rparr>])
      (lit ''Stocks fell.'')
     = (Inr \<lparr>label = Error, score = Fin 0,
              summary = JStr (lit ''Cannot convert object to primitive value''),
              tickers = []\<rparr>,
        [Request])
   \<and> scoreMarket_dir 20000
      (\<lambda>p k. Reply [\<lparr>block_type = lit ''text'',
                       block_text = Some (lit ''{\"label\":{\"toString\":1}}'')\<rparr>])
      (lit ''Stocks fell.'')
     = (Inr \<lparr>label = Error, score = Fin 0,
              summary = JStr (lit ''TypeError: Cannot convert object to primitive value''),
              tickers = []\<rparr>,
        [Request])"
proof -
  define busy where
    "busy = \<lparr>error_type = JStr (lit ''rate_limit_error''),
             error_message = JUndefined, name = JUndefined,
             message = JStr (lit ''busy''), as_string = lit ''Error: busy'',
             status = Some 429, retry_after = None\<rparr>"
  define reply where
    "reply = Reply [\<lparr>block_type = lit ''text'', block_text = Some (lit ''no'')\<rparr>]"
  define odd where
    "odd = Reply [\<lparr>block_type = lit ''text'',
                    block_text = Some (lit ''{\"label\":{\"toString\":1}}'')\<rparr>]"
  define input where "input = lit ''Stocks fell.''"
  define ask :: completion where "ask = (\<lambda>p k. if k < 2 then Throw busy else reply)"
  have r: "rate_limited busy"
    unfolding busy_def by (rule busy_rate_limited)
  have h: "retry_after busy = None"
    by (simp add: busy_def)
  have m: "malformed reply"
    unfolding reply_def by (rule malformed_no)
  have u: "unconvertible odd"
    unfolding odd_def by (rule unconvertible_label_object)
  have d: "delay (Throw busy) i = Fin (2000 * (of_nat i + 1))" for i
    by (simp add: delay_def retryAfterMs_default h)
  have pre: "\<forall>i<2. retried (ask (buildMarketPrompt 3000 input) i)"
    by (simp add: ask_def retried_def r)
  have at: "malformed (ask (buildMarketPrompt 3000 input) 2)"
    by (simp add: ask_def m)
  have tr: "retry_trace (ask (buildMarketPrompt 3000 input)) 0 2
              = [Request, Sleep (Fin 2000), Request, Sleep (Fin 4000)]"
    by (simp add: numeral_eq_Suc ask_def d)
  have one: "scoreMarket 3000 ask input
     = (Inr \<lparr>label = Error, score = Fin 0,
              summary = JStr (lit ''Model did not return valid JSON sentiment''),
              tickers = []\<rparr>,
        [Request, Sleep (Fin 2000), Request, Sleep (Fin 4000), Request])"
  proof -
    have "(\<forall>i<2. retried (ask (buildMarketPrompt 3000 input) i))
            \<and> malformed (ask (buildMarketPrompt 3000 input) 2) \<longrightarrow>
          scoreMarket 3000 ask input
            = (Inr \<lparr>label = Error, score = Fin 0,
                     summary = JStr (lit ''Model did not return valid JSON sentiment''),
                     tickers = []\<rparr>,
               retry_trace (ask (buildMarketPrompt 3000 input)) 0 2 @ [Request])"
      using malformed_output_not_retried [OF refl, of ask 3000 input "[]"]
      by (elim conjE allE [of _ 2]) simp
    with pre at show ?thesis
      by (simp add: tr)
  qed
  have cd: "call_dir (\<lambda>k. reply) 0 = (reply, 1)"
    by (simp add: call_dir_def reply_def)
  have cdo: "call_dir (\<lambda>k. odd) 0 = (odd, 1)"
    by (simp add: call_dir_def odd_def)
  have two: "scoreMarket_dir 20000 (\<lambda>p k. reply) input
     = (Inr \<lparr>label = Error, score = Fin 0,
              summary = JStr (lit ''Error: Model did not return valid JSON sentiment''),
              tickers = []\<rparr>,
        [Request])"
    using malformed_output_not_retried [OF refl, of "\<lambda>p k. reply" 20000 input "[]"] m cd
    by (elim conjE allE [of _ 0]) simp
  have three: "scoreMarket 3000 (\<lambda>p k. odd) input
     = (Inr \<lparr>label = Error, score = Fin 0,
              summary = JStr (lit ''Cannot convert object to primitive value''),
              tickers = []\<rparr>,
        [Request])"
    using malformed_output_not_retried [OF refl, of "\<lambda>p k. odd" 3000 input "[]"] u
    by (elim conjE allE [of _ 0]) simp
  have four: "scoreMarket_dir 20000 (\<lambda>p k. odd) input
     = (Inr \<lparr>label = Error, score = Fin 0,
              summary = JStr (lit ''TypeError: Cannot convert object to primitive value''),
              tickers = []\<rparr>,
        [Request])"
    using malformed_output_not_retried [OF refl, of "\<lambda>p k. odd" 20000 input "[]"] u cdo
    by (elim conjE allE [of _ 0]) simp
  from one two three four show ?thesis
    by (simp only: ask_def busy_def reply_def odd_def input_def)
qed

end
